(* ===== verification/Prelude.thy ===== *)
theory Prelude
  imports Main "HOL-Library.Multiset"
begin

text \<open>
  Shared vocabulary of the development: the \<open>named_theorems\<close> collections, the list
  lemmas the components share, the operations of a relational table (the meaning of the SQL
  statements of \<open>internal/store\<close>), ordering and limiting of a result set, and the four
  interfaces that several components rely on: a table with a primary key, a batch of guarded
  point updates, a background worker and a transition system with an invariant.
\<close>

named_theorems go_defs \<open>one-line definitions of Go library operations\<close>
named_theorems table_simps \<open>facts about the operations of a table\<close>
named_theorems inv_intros \<open>preservation of the invariants\<close>

section \<open>Lists\<close>

lemma find_None_notin: "(\<And>x. x \<in> set xs \<Longrightarrow> \<not> P x) \<Longrightarrow> List.find P xs = None"
  by (simp add: find_None_iff)

lemma find_SomeD: "List.find P xs = Some x \<Longrightarrow> x \<in> set xs \<and> P x"
  by (auto simp: find_Some_iff)

lemma find_unique:
  assumes "distinct (map k xs)" and "x \<in> set xs"
  shows "List.find (\<lambda>y. k y = k x) xs = Some x"
proof -
  obtain y where y: "List.find (\<lambda>y. k y = k x) xs = Some y"
    using assms(2) by (cases "List.find (\<lambda>y. k y = k x) xs") (auto simp: find_None_iff)
  then have "y = x"
    using assms by (auto simp: distinct_map dest!: find_SomeD dest: inj_onD)
  with y show ?thesis by simp
qed

lemma find_map:
  assumes "\<And>x. P (f x) = Q x"
  shows "List.find P (map f xs) = map_option f (List.find Q xs)"
  using assms by (induction xs) auto

lemma mset_eq_distinct_map:
  assumes "mset xs = mset ys" and "distinct (map k ys)"
  shows "distinct (map k xs)"
proof -
  have "mset (map k xs) = mset (map k ys)"
    using assms(1) by simp
  then show ?thesis
    using assms(2) mset_eq_imp_distinct_iff by blast
qed

lemma find_perm:
  assumes "mset xs = mset ys" and "distinct (map k ys)"
  shows "List.find (\<lambda>x. k x = a) xs = List.find (\<lambda>x. k x = a) ys"
proof (cases "List.find (\<lambda>x. k x = a) ys")
  case None
  then show ?thesis
    using mset_eq_setD[OF assms(1)] by (metis find_None_iff)
next
  case (Some y)
  then have y: "y \<in> set xs" "k y = a"
    using mset_eq_setD[OF assms(1)] by (auto dest: find_SomeD)
  then show ?thesis
    using Some find_unique[OF mset_eq_distinct_map[OF assms] y(1)] by simp
qed

section \<open>Tables and SQL statements\<close>

text \<open>
  A table is the list of its rows. The statements the stores issue have the shapes
  \<open>INSERT\<close> on a primary key, \<open>UPDATE \<dots> SET \<dots> WHERE\<close>, \<open>DELETE \<dots> WHERE\<close> and
  \<open>SELECT \<dots> WHERE [ORDER BY] [LIMIT]\<close>.
\<close>

definition upd_where :: "('r \<Rightarrow> bool) \<Rightarrow> ('r \<Rightarrow> 'r) \<Rightarrow> 'r list \<Rightarrow> 'r list" where
  "upd_where p f rows = map (\<lambda>r. if p r then f r else r) rows"

definition del_where :: "('r \<Rightarrow> bool) \<Rightarrow> 'r list \<Rightarrow> 'r list" where
  "del_where p rows = filter (\<lambda>r. \<not> p r) rows"

definition cnt_where :: "('r \<Rightarrow> bool) \<Rightarrow> 'r list \<Rightarrow> nat" where
  "cnt_where p rows = length (filter p rows)"

lemma set_upd_where [table_simps]:
  "set (upd_where p f rows) = (\<lambda>r. if p r then f r else r) ` set rows"
  by (simp add: upd_where_def)

lemma set_del_where [table_simps]: "set (del_where p rows) = {r \<in> set rows. \<not> p r}"
  by (auto simp: del_where_def)

lemma cnt_where_0 [table_simps]: "cnt_where p rows = 0 \<longleftrightarrow> (\<forall>r\<in>set rows. \<not> p r)"
  by (auto simp: cnt_where_def filter_empty_conv)

lemma upd_where_none: "(\<And>r. r \<in> set rows \<Longrightarrow> \<not> p r) \<Longrightarrow> upd_where p f rows = rows"
  by (simp add: upd_where_def map_idI)

lemma length_upd_where [table_simps]: "length (upd_where p f rows) = length rows"
  by (simp add: upd_where_def)

lemma upd_where_all:
  assumes "\<And>r. r \<in> set rows \<Longrightarrow> Q r" and "\<And>r. Q r \<Longrightarrow> p r \<Longrightarrow> Q (f r)"
  shows "r \<in> set (upd_where p f rows) \<Longrightarrow> Q r"
  using assms by (auto simp: set_upd_where)

lemma length_del_where: "length (del_where p rows) + cnt_where p rows = length rows"
  by (induction rows) (auto simp: del_where_def cnt_where_def)

section \<open>Ordering a result set\<close>

fun insert_by :: "('r \<Rightarrow> 'r \<Rightarrow> bool) \<Rightarrow> 'r \<Rightarrow> 'r list \<Rightarrow> 'r list" where
  "insert_by le x [] = [x]"
| "insert_by le x (y # ys) = (if le x y then x # y # ys else y # insert_by le x ys)"

definition order_by :: "('r \<Rightarrow> 'r \<Rightarrow> bool) \<Rightarrow> 'r list \<Rightarrow> 'r list" where
  "order_by le rows = foldr (insert_by le) rows []"

lemma mset_insert_by: "mset (insert_by le x ys) = add_mset x (mset ys)"
  by (induction ys) auto

lemma mset_order_by [simp]: "mset (order_by le rows) = mset rows"
  by (induction rows) (auto simp: order_by_def mset_insert_by)

lemma set_order_by [simp]: "set (order_by le rows) = set rows"
  by (metis mset_order_by set_mset_mset)

lemma set_insert_by: "set (insert_by le x ys) = insert x (set ys)"
  by (induction ys) auto

lemma length_order_by [simp]: "length (order_by le rows) = length rows"
  by (metis mset_order_by size_mset)

text \<open>The order an \<open>ORDER BY\<close> clause compares with: total and transitive.\<close>

locale collation =
  fixes le :: "'r \<Rightarrow> 'r \<Rightarrow> bool"
  assumes le_total: "le x y \<or> le y x"
    and le_trans: "le x y \<Longrightarrow> le y z \<Longrightarrow> le x z"
begin

lemma sorted_insert_by: "sorted_wrt le ys \<Longrightarrow> sorted_wrt le (insert_by le x ys)"
proof (induction ys)
  case Nil
  then show ?case by simp
next
  case (Cons y ys)
  then show ?case
    using le_total[of x y] by (auto simp: set_insert_by intro: le_trans)
qed

lemma sorted_order_by: "sorted_wrt le (order_by le rows)"
  by (induction rows) (auto simp: order_by_def sorted_insert_by)

text \<open>\<open>LIMIT n\<close> after \<open>ORDER BY\<close>: every row left out comes after every row kept.\<close>

lemma limit_keeps_first:
  assumes "x \<in> set (take n (order_by le rows))" and "y \<in> set (drop n (order_by le rows))"
  shows "le x y"
proof -
  have "sorted_wrt le (take n (order_by le rows) @ drop n (order_by le rows))"
    using sorted_order_by by simp
  then show ?thesis
    using assms unfolding sorted_wrt_append by blast
qed

end

section \<open>A table with a primary key\<close>

text \<open>
  What the stores rely on of a table: rows are identified by a key, and a kind of
  update does not change it.
\<close>

definition keyed :: "('r \<Rightarrow> 'k) \<Rightarrow> 'r list \<Rightarrow> bool" where
  "keyed key rows \<longleftrightarrow> distinct (map key rows)"

definition at_key :: "('r \<Rightarrow> 'k) \<Rightarrow> 'k \<Rightarrow> 'r list \<Rightarrow> 'r option" where
  "at_key key k rows = List.find (\<lambda>r. key r = k) rows"

lemma keyed_append [inv_intros]:
  "keyed key rows \<Longrightarrow> key r \<notin> key ` set rows \<Longrightarrow> keyed key (rows @ [r])"
  by (auto simp: keyed_def)

lemma keyed_del [inv_intros]: "keyed key rows \<Longrightarrow> keyed key (del_where p rows)"
  by (simp add: keyed_def del_where_def distinct_map_filter)

lemma at_key_SomeD: "at_key key k rows = Some r \<Longrightarrow> r \<in> set rows \<and> key r = k"
  by (auto simp: at_key_def dest: find_SomeD)

lemma at_key_None: "at_key key k rows = None \<longleftrightarrow> k \<notin> key ` set rows"
  by (auto simp: at_key_def find_None_iff)

lemma at_key_mem: "keyed key rows \<Longrightarrow> r \<in> set rows \<Longrightarrow> at_key key (key r) rows = Some r"
  by (simp add: keyed_def at_key_def find_unique)

lemma no_match_at_key:
  assumes "keyed key rows"
  shows "(\<forall>r\<in>set rows. \<not> (key r = k \<and> P r)) \<longleftrightarrow>
    (case at_key key k rows of None \<Rightarrow> True | Some r \<Rightarrow> \<not> P r)"
proof (cases "at_key key k rows")
  case None
  then have "key r \<noteq> k" if "r \<in> set rows" for r
    using that by (auto simp: at_key_None)
  with None show ?thesis by simp
next
  case (Some x)
  have x: "x \<in> set rows" "key x = k"
    using at_key_SomeD[OF Some] by simp_all
  have "r = x" if "r \<in> set rows" "key r = k" for r
    using at_key_mem[OF assms that(1)] that(2) Some by simp
  then have "(\<forall>r\<in>set rows. \<not> (key r = k \<and> P r)) \<longleftrightarrow> \<not> P x"
    using x by blast
  with Some show ?thesis by simp
qed

lemma at_key_map: "(\<And>r. key (f r) = key r) \<Longrightarrow> at_key key k (map f rows) = map_option f (at_key key k rows)"
  unfolding at_key_def by (rule find_map) simp

lemma at_key_append:
  "at_key key k (rows @ [r]) =
     (case at_key key k rows of Some x \<Rightarrow> Some x | None \<Rightarrow> if key r = k then Some r else None)"
  by (induction rows) (auto simp: at_key_def)

lemma at_key_del:
  assumes "keyed key rows"
  shows "at_key key k (del_where p rows) =
     (case at_key key k rows of None \<Rightarrow> None | Some r \<Rightarrow> if p r then None else Some r)"
  using assms
proof (induction rows)
  case Nil
  then show ?case by (simp add: at_key_def del_where_def)
next
  case (Cons x rows)
  have "at_key key (key x) (del_where p rows) = None"
    using Cons.prems by (auto simp: keyed_def at_key_None set_del_where)
  with Cons show ?case
    by (auto simp: keyed_def at_key_def del_where_def)
qed

locale key_kept =
  fixes key :: "'r \<Rightarrow> 'k" and upd :: "'u \<Rightarrow> 'r \<Rightarrow> 'r"
  assumes key_upd: "key (upd u r) = key r"
begin

lemma map_key_upd: "map key (upd_where p (upd u) rows) = map key rows"
  by (simp add: upd_where_def key_upd)

lemma keyed_upd: "keyed key rows \<Longrightarrow> keyed key (upd_where p (upd u) rows)"
  by (simp add: keyed_def map_key_upd)

lemma keys_upd: "key ` set (upd_where p (upd u) rows) = key ` set rows"
  by (metis list.set_map map_key_upd)

lemma at_key_upd:
  "at_key key k (upd_where p (upd u) rows) =
     map_option (\<lambda>r. if p r then upd u r else r) (at_key key k rows)"
  unfolding at_key_def upd_where_def by (rule find_map) (simp add: key_upd)

text \<open>An update of the row with one key, as the lookup of every key sees it.\<close>

lemma at_key_point:
  "at_key key j (upd_where (\<lambda>r. key r = k) (upd u) rows) =
     map_option (\<lambda>r. if j = k then upd u r else r) (at_key key j rows)"
  by (auto simp: at_key_upd dest: at_key_SomeD intro: option.map_cong)

lemma at_key_point_guarded:
  "at_key key j (upd_where (\<lambda>r. key r = k \<and> live r) (upd u) rows) =
     map_option (\<lambda>r. if j = k \<and> live r then upd u r else r) (at_key key j rows)"
  by (auto simp: at_key_upd dest: at_key_SomeD intro: option.map_cong)

end

section \<open>A batch of guarded point updates\<close>

text \<open>
  Both background scans of the stores have the same shape: select the rows that are still
  live, compute a candidate from each, and for every candidate that is due issue one
  \<open>UPDATE \<dots> WHERE key = ? AND live\<close>, which makes the row no longer live.
  \<open>point_loop\<close> is the table effect of that loop.
\<close>

fun point_loop ::
  "('r \<Rightarrow> 'k) \<Rightarrow> ('r \<Rightarrow> bool) \<Rightarrow> ('c \<Rightarrow> 'k) \<Rightarrow> ('c \<Rightarrow> bool) \<Rightarrow> ('c \<Rightarrow> 'r \<Rightarrow> 'r) \<Rightarrow> 'c list \<Rightarrow> 'r list \<Rightarrow> 'r list"
where
  "point_loop key live ckey due mark [] rows = rows"
| "point_loop key live ckey due mark (c # cs) rows =
     (if due c
      then point_loop key live ckey due mark cs (upd_where (\<lambda>r. key r = ckey c \<and> live r) (mark c) rows)
      else point_loop key live ckey due mark cs rows)"

locale point_updates =
  fixes key :: "'r \<Rightarrow> 'k" and live :: "'r \<Rightarrow> bool"
    and ckey :: "'c \<Rightarrow> 'k" and due :: "'c \<Rightarrow> bool" and mark :: "'c \<Rightarrow> 'r \<Rightarrow> 'r"
  assumes key_mark: "key (mark c r) = key r"
    and dead_mark: "\<not> live (mark c r)"
begin

lemma point_loop_as_map:
  "point_loop key live ckey due mark cs rows =
     map (\<lambda>r. if live r then (case List.find (\<lambda>c. ckey c = key r \<and> due c) cs of
                                None \<Rightarrow> r | Some c \<Rightarrow> mark c r) else r) rows"
proof (induction cs arbitrary: rows)
  case Nil
  then show ?case by (simp add: map_idI)
next
  case (Cons c cs)
  show ?case
  proof (cases "due c")
    case False
    then show ?thesis by (simp add: Cons.IH cong: if_cong)
  next
    case True
    have "(if live r' then (case List.find (\<lambda>c. ckey c = key r' \<and> due c) cs of
                              None \<Rightarrow> r' | Some c \<Rightarrow> mark c r') else r') =
          (if live r then (case List.find (\<lambda>c. ckey c = key r \<and> due c) (c # cs) of
                              None \<Rightarrow> r | Some c \<Rightarrow> mark c r) else r)"
      if "r' = (if key r = ckey c \<and> live r then mark c r else r)" for r r'
      using True that by (auto simp: key_mark dead_mark)
    then show ?thesis
      using True by (simp add: Cons.IH upd_where_def comp_def)
  qed
qed

text \<open>
  The whole loop is one batch update, when every candidate comes from a selected row
  (\<open>q\<close>, one candidate \<open>cand r\<close> each), whatever the order of the result set.
\<close>

lemma find_candidate:
  assumes sel: "cs = map cand (filter q scanned)" and perm: "mset scanned = mset rows"
    and ckey: "\<And>r. ckey (cand r) = key r" and dist: "keyed key rows" and r: "r \<in> set rows"
  shows "List.find (\<lambda>c. ckey c = key r \<and> due c) cs = (if q r \<and> due (cand r) then Some (cand r) else None)"
proof (cases "q r \<and> due (cand r)")
  case True
  have "keyed key scanned"
    using perm dist unfolding keyed_def by (rule mset_eq_distinct_map)
  then have "distinct (map key (filter q scanned))"
    by (simp add: keyed_def distinct_map_filter)
  then have "distinct (map ckey cs)"
    by (simp add: sel comp_def ckey)
  moreover have "cand r \<in> set cs"
    using True r perm by (auto simp: sel dest: mset_eq_setD)
  ultimately have uniq: "ckey c = key r \<Longrightarrow> c \<in> set cs \<Longrightarrow> c = cand r" for c
    by (metis ckey distinct_map inj_onD)
  have some: "List.find (\<lambda>c. ckey c = key r \<and> due c) cs \<noteq> None"
    using True \<open>cand r \<in> set cs\<close> ckey[of r] unfolding find_None_iff by blast
  then obtain c where c: "List.find (\<lambda>c. ckey c = key r \<and> due c) cs = Some c"
    by blast
  then have "c = cand r"
    using uniq find_SomeD[OF c] by simp
  then show ?thesis
    using True c by simp
next
  case False
  have "c \<in> set cs \<Longrightarrow> \<not> (ckey c = key r \<and> due c)" for c
  proof
    assume "c \<in> set cs" and c: "ckey c = key r \<and> due c"
    then obtain s where s: "s \<in> set rows" "q s" "c = cand s"
      using perm by (auto simp: sel dest: mset_eq_setD)
    then have "key s = key r" using c ckey by simp
    then have "s = r" using s(1) r dist by (auto simp: keyed_def distinct_map dest: inj_onD)
    then show False using False s c by simp
  qed
  then show ?thesis using False by (simp add: find_None_notin del: not_None_eq)
qed

lemma point_loop_batch:
  assumes "cs = map cand (filter q scanned)" and "mset scanned = mset rows"
    and "\<And>r. ckey (cand r) = key r" and "keyed key rows" and "\<And>r. q r \<Longrightarrow> live r"
  shows "point_loop key live ckey due mark cs rows =
     upd_where (\<lambda>r. q r \<and> due (cand r)) (\<lambda>r. mark (cand r) r) rows"
  unfolding point_loop_as_map upd_where_def
  using assms(5) find_candidate[OF assms(1-4)] by (auto intro!: map_cong)

lemma keyed_point_loop: "keyed key rows \<Longrightarrow> keyed key (point_loop key live ckey due mark cs rows)"
proof (induction cs arbitrary: rows)
  case Nil
  then show ?case by simp
next
  case (Cons c cs)
  have "map key (upd_where p (mark c) rows) = map key rows" for p
    by (simp add: upd_where_def key_mark)
  then show ?case
    using Cons by (simp add: keyed_def)
qed

end

section \<open>Background workers\<close>

text \<open>
  The loop the three background goroutines share: \<open>for { select { case <-ctx.Done(): return;
  case <-ticker.C: once() } }\<close>. The list holds the cases the \<open>select\<close> takes, in order; the
  Boolean of the result says whether the loop has returned.
\<close>

datatype 't signal = Ticked 't | CtxDone

fun tick_loop :: "('t \<Rightarrow> 'w \<Rightarrow> 'w) \<Rightarrow> 't signal list \<Rightarrow> 'w \<Rightarrow> bool \<times> 'w" where
  "tick_loop once [] w = (False, w)"
| "tick_loop once (CtxDone # ss) w = (True, w)"
| "tick_loop once (Ticked t # ss) w = tick_loop once ss (once t w)"

lemma tick_loop_returns: "fst (tick_loop once ss w) \<longleftrightarrow> CtxDone \<in> set ss"
  by (induction once ss w rule: tick_loop.induct) auto

lemma tick_loop_takeWhile:
  "snd (tick_loop once ss w) = snd (tick_loop once (takeWhile (\<lambda>s. s \<noteq> CtxDone) ss) w)"
  by (induction once ss w rule: tick_loop.induct) auto

locale worker =
  fixes once :: "'t \<Rightarrow> 'w \<Rightarrow> 'w" and inv :: "'w \<Rightarrow> bool"
  assumes inv_once: "inv w \<Longrightarrow> inv (once t w)"
begin

lemma inv_tick_loop: "inv w \<Longrightarrow> inv (snd (tick_loop once ss w))"
proof (induction ss arbitrary: w)
  case Nil
  then show ?case by simp
next
  case (Cons s ss)
  then show ?case by (cases s) (auto intro: inv_once)
qed

end

section \<open>Transition systems with an invariant\<close>

locale invariant_system =
  fixes init :: "'s \<Rightarrow> bool" and step :: "'s \<Rightarrow> 's \<Rightarrow> bool" and inv :: "'s \<Rightarrow> bool"
  assumes inv_init: "init s \<Longrightarrow> inv s"
    and inv_step: "inv s \<Longrightarrow> step s t \<Longrightarrow> inv t"
begin

lemma inv_steps: "step\<^sup>*\<^sup>* s t \<Longrightarrow> inv s \<Longrightarrow> inv t"
  by (induction rule: rtranclp_induct) (auto intro: inv_step)

lemma inv_reachable: "init s \<Longrightarrow> step\<^sup>*\<^sup>* s t \<Longrightarrow> inv t"
  by (blast intro: inv_steps inv_init)

end

end
