(* ===== verification/GoLang.thy ===== *)
theory GoLang
  imports Prelude "HOL-Library.Word" "HOL-Library.Signed_Division"
begin

text \<open>
  What the program uses of Go and its standard library. \<open>int64\<close> is a 64-bit word read as
  two's complement, so that conversions and products wrap as they do in Go. A \<open>time.Time\<close> is
  its instant, in nanoseconds since the Unix epoch (an unbounded integer: the program never
  reaches the limits of \<open>time.Time\<close>, some 292 billion years away). A \<open>time.Duration\<close> is an
  \<open>int64\<close> of nanoseconds. A Go string is its bytes, one \<open>char\<close> each.
\<close>

section \<open>Integers, instants and durations\<close>

type_synonym int64 = "64 word"
type_synonym time = int
type_synonym duration = int64

abbreviation max_int64 :: int where "max_int64 \<equiv> 9223372036854775807"
abbreviation min_int64 :: int where "min_int64 \<equiv> - 9223372036854775808"

definition in_int64 :: "int \<Rightarrow> bool" where
  "in_int64 x \<longleftrightarrow> min_int64 \<le> x \<and> x \<le> max_int64"

definition Second :: duration where [go_defs]: "Second = 1000000000"
definition Minute :: duration where [go_defs]: "Minute = 60 * Second"
definition Hour :: duration where [go_defs]: "Hour = 60 * Minute"

text \<open>The zero \<open>time.Time\<close> is January 1 of year 1, 00:00 UTC.\<close>

definition zero_time :: time where "zero_time = - 62135596800000000000"

text \<open>\<open>t.Sub(u)\<close> saturates; \<open>t.Add(d)\<close>, \<open>t.Before(u)\<close> and \<open>d.Milliseconds()\<close>.\<close>

definition Sub :: "time \<Rightarrow> time \<Rightarrow> duration" where
  "Sub t u = word_of_int (max min_int64 (min max_int64 (t - u)))"

definition Add :: "time \<Rightarrow> duration \<Rightarrow> time" where
  "Add t d = t + sint d"

definition Before :: "time \<Rightarrow> time \<Rightarrow> bool" where
  "Before t u \<longleftrightarrow> t < u"

definition Milliseconds :: "duration \<Rightarrow> int64" where
  "Milliseconds d = word_of_int (sint d sdiv 1000000)"

lemma sint_int64: "in_int64 x \<Longrightarrow> sint (word_of_int x :: int64) = x"
  by (simp add: in_int64_def sint_sbintrunc' signed_take_bit_int_eq_self)

lemma in_int64_sint: "in_int64 (sint (w :: int64))"
  using sint_range_size[of w] by (simp add: in_int64_def word_size)

lemma sint_Sub: "sint (Sub t u) = max min_int64 (min max_int64 (t - u))"
  unfolding Sub_def by (rule sint_int64) (simp add: in_int64_def)

lemma sint_Sub_in_range: "in_int64 (t - u) \<Longrightarrow> sint (Sub t u) = t - u"
  by (simp add: sint_Sub in_int64_def)

lemma sint_mult_exact: "in_int64 (sint a * sint b) \<Longrightarrow> sint (a * b :: int64) = sint a * sint b"
  using sint_int64[of "sint a * sint b"] by simp

lemma sint_add_exact: "in_int64 (sint a + sint b) \<Longrightarrow> sint (a + b :: int64) = sint a + sint b"
  using sint_int64[of "sint a + sint b"] by simp

lemma sint_Second: "sint Second = 1000000000"
  by (simp add: go_defs)

lemma sint_Minute [simp]: "sint Minute = 60000000000"
  by (simp add: go_defs)

text \<open>A number of seconds as a duration, exact as long as it is below some 292 years.\<close>

definition max_seconds :: int where "max_seconds = 9223372036"

lemma sint_seconds:
  "\<bar>sint n\<bar> \<le> max_seconds \<Longrightarrow> sint (n * Second) = sint n * 1000000000"
  by (subst sint_mult_exact) (auto simp: sint_Second max_seconds_def in_int64_def)

text \<open>Just above the limit the product wraps around to a negative duration.\<close>

lemma sint_seconds_wrap_eq:
  assumes "9223372037 \<le> sint n" and "sint n \<le> 18446744073"
  shows "sint (n * Second) = sint n * 1000000000 - 18446744073709551616"
proof -
  have "(word_of_int (sint n * 1000000000 - 18446744073709551616) :: int64) =
      word_of_int (sint n) * word_of_int 1000000000 - word_of_int 18446744073709551616"
    by (simp only: wi_hom_syms)
  also have "(word_of_int 18446744073709551616 :: int64) = 0"
    by (simp add: word_of_int_eq_0_iff)
  finally have eq: "n * Second = word_of_int (sint n * 1000000000 - 18446744073709551616)"
    by (simp add: Second_def)
  show ?thesis
    unfolding eq by (rule sint_int64) (use assms in \<open>simp add: in_int64_def\<close>)
qed

lemma sint_seconds_wrap:
  "9223372037 \<le> sint n \<Longrightarrow> sint n \<le> 18446744073 \<Longrightarrow> sint (n * Second) < 0"
  by (simp add: sint_seconds_wrap_eq)

lemma sint_Milliseconds: "sint (Milliseconds d) = sint d sdiv 1000000"
proof -
  have "in_int64 (sint d sdiv 1000000)"
    using in_int64_sint[of d] unfolding in_int64_def
    by (auto simp: signed_divide_int_def sgn_if abs_if div_le_dividend
        intro: order_trans[OF _ zdiv_mono1] order_trans[OF zdiv_mono1])
  then show ?thesis by (simp add: Milliseconds_def sint_int64)
qed

text \<open>\<open>time.NewTicker\<close> panics unless the interval is positive.\<close>

definition NewTicker :: "duration \<Rightarrow> string + duration" where
  "NewTicker d = (if sint d \<le> 0 then Inl ''non-positive interval for NewTicker'' else Inr d)"

section \<open>Strings and numbers\<close>

definition HasPrefix :: "string \<Rightarrow> string \<Rightarrow> bool" where
  "HasPrefix s p \<longleftrightarrow> length p \<le> length s \<and> take (length p) s = p"

definition TrimPrefix :: "string \<Rightarrow> string \<Rightarrow> string" where
  "TrimPrefix s p = (if HasPrefix s p then drop (length p) s else s)"

lemma HasPrefix_iff: "HasPrefix s p \<longleftrightarrow> (\<exists>r. s = p @ r)"
  by (metis HasPrefix_def append_eq_conv_conj append_take_drop_id le_add1 length_append)

lemma TrimPrefix_append [simp]: "TrimPrefix (p @ r) p = r"
  by (simp add: TrimPrefix_def HasPrefix_def)

text \<open>\<open>strconv.Itoa\<close> and the \<open>%d\<close> verb.\<close>

definition digit_char :: "nat \<Rightarrow> char" where
  "digit_char d = char_of (48 + d)"

fun decimal :: "nat \<Rightarrow> string" where
  "decimal n = (if n < 10 then [digit_char n] else decimal (n div 10) @ [digit_char (n mod 10)])"

declare decimal.simps [simp del]

lemma decimal_rec:
  "10 \<le> n \<Longrightarrow> decimal n = decimal (n div 10) @ [digit_char (n mod 10)]" "n < 10 \<Longrightarrow> decimal n = [digit_char n]"
  by (subst decimal.simps, simp)+

definition Itoa :: "int \<Rightarrow> string" where
  "Itoa n = (if n < 0 then ''-'' @ decimal (nat (- n)) else decimal (nat n))"

text \<open>\<open>strconv.Atoi\<close> (a 64-bit \<open>int\<close>): an optional sign, at least one digit, in range.\<close>

definition is_digit :: "char \<Rightarrow> bool" where
  "is_digit c \<longleftrightarrow> 48 \<le> (of_char c :: nat) \<and> (of_char c :: nat) \<le> 57"

definition undecimal :: "string \<Rightarrow> nat" where
  "undecimal s = foldl (\<lambda>v c. 10 * v + (of_char c - 48)) 0 s"

definition Atoi :: "string \<Rightarrow> int option" where
  "Atoi s =
     (let (neg, ds) =
        (case s of [] \<Rightarrow> (False, [])
         | c # cs \<Rightarrow> if c = CHR ''-'' then (True, cs) else if c = CHR ''+'' then (False, cs) else (False, s))
      in if ds = [] \<or> \<not> list_all is_digit ds then None
         else let v = (if neg then - int (undecimal ds) else int (undecimal ds))
              in if in_int64 v then Some v else None)"

lemma of_char_digit_char: "d < 10 \<Longrightarrow> (of_char (digit_char d) :: nat) = 48 + d"
  by (simp add: digit_char_def)

lemma is_digit_char: "d < 10 \<Longrightarrow> is_digit (digit_char d)"
  by (simp add: is_digit_def of_char_digit_char)

lemma decimal_digits: "list_all is_digit (decimal n)"
proof (induction n rule: decimal.induct)
  case (1 n)
  then show ?case
    by (cases "n < 10") (simp_all add: decimal.simps[of n] is_digit_char)
qed

lemma decimal_nonempty [simp]: "decimal n \<noteq> []"
  by (subst decimal.simps) simp

lemma undecimal_decimal [simp]: "undecimal (decimal n) = n"
proof (induction n rule: decimal.induct)
  case (1 n)
  show ?case
  proof (cases "n < 10")
    case True
    then show ?thesis by (simp add: decimal.simps[of n] undecimal_def of_char_digit_char)
  next
    case False
    then have "undecimal (decimal (n div 10)) = n div 10"
      using 1 by simp
    then show ?thesis
      using False by (simp add: decimal.simps[of n] undecimal_def of_char_digit_char)
  qed
qed

lemma decimal_inject: "decimal m = decimal n \<longleftrightarrow> m = n"
  by (metis undecimal_decimal)

lemma Atoi_Itoa:
  assumes "in_int64 n"
  shows "Atoi (Itoa n) = Some n"
proof (cases "n < 0")
  case True
  then show ?thesis
    using assms decimal_digits by (simp add: Atoi_def Itoa_def)
next
  case False
  obtain c cs where dec: "decimal (nat n) = c # cs"
    by (cases "decimal (nat n)") auto
  then have "is_digit c"
    using decimal_digits[of "nat n"] by simp
  then have "c \<noteq> CHR ''-''" "c \<noteq> CHR ''+''"
    by (auto simp: is_digit_def)
  then show ?thesis
    using False assms decimal_digits[of "nat n"] undecimal_decimal[of "nat n"] dec
    by (simp add: Atoi_def Itoa_def)
qed

section \<open>Formatting an instant\<close>

text \<open>
  \<open>t.Format(time.RFC3339)\<close>: \<open>zone\<close> is the offset in seconds of the location the value carries
  (0 for UTC). The civil date comes from the day number by the proleptic Gregorian calendar.
\<close>

definition civil_date :: "int \<Rightarrow> int \<times> int \<times> int" where
  "civil_date days =
     (let z = days + 719468;
          era = z div 146097;
          doe = z mod 146097;
          yoe = (doe - doe div 1460 + doe div 36524 - doe div 146096) div 365;
          doy = doe - (365 * yoe + yoe div 4 - yoe div 100);
          mp = (5 * doy + 2) div 153;
          d = doy - (153 * mp + 2) div 5 + 1;
          m = (if mp < 10 then mp + 3 else mp - 9)
      in (yoe + era * 400 + (if m \<le> 2 then 1 else 0), m, d))"

definition padded :: "nat \<Rightarrow> int \<Rightarrow> string" where
  "padded w n =
     (let ds = decimal (nat \<bar>n\<bar>)
      in (if n < 0 then ''-'' else []) @ replicate (w - length ds) (CHR ''0'') @ ds)"

definition format_seconds :: "int \<Rightarrow> time \<Rightarrow> string" where
  "format_seconds zone t =
     (let secs = t div 1000000000 + zone;
          (y, m, d) = civil_date (secs div 86400);
          s = secs mod 86400
      in padded 4 y @ ''-'' @ padded 2 m @ ''-'' @ padded 2 d @ ''T'' @
         padded 2 (s div 3600) @ '':'' @ padded 2 (s mod 3600 div 60) @ '':'' @ padded 2 (s mod 60))"

definition format_zone :: "int \<Rightarrow> string" where
  "format_zone zone =
     (if zone = 0 then ''Z''
      else (if zone < 0 then ''-'' else ''+'') @
           padded 2 (\<bar>zone\<bar> div 60 div 60) @ '':'' @ padded 2 (\<bar>zone\<bar> div 60 mod 60))"

definition FormatRFC3339 :: "int \<Rightarrow> time \<Rightarrow> string" where
  "FormatRFC3339 zone t = format_seconds zone t @ format_zone zone"

text \<open>\<open>time.RFC3339Nano\<close>, of \<open>MarshalJSON\<close>: the fraction without trailing zeros. The year must have four digits.\<close>

definition fraction :: "int \<Rightarrow> string" where
  "fraction ns =
     (if ns = 0 then [] else ''.'' @ rev (dropWhile (\<lambda>c. c = CHR ''0'') (rev (padded 9 ns))))"

definition FormatRFC3339Nano :: "int \<Rightarrow> time \<Rightarrow> string" where
  "FormatRFC3339Nano zone t = format_seconds zone t @ fraction (t mod 1000000000) @ format_zone zone"

definition four_digit_year :: "int \<Rightarrow> time \<Rightarrow> bool" where
  "four_digit_year zone t \<longleftrightarrow>
     (case civil_date ((t div 1000000000 + zone) div 86400) of (y, m, d) \<Rightarrow> 0 \<le> y \<and> y \<le> 9999)"

lemma format_examples:
  "FormatRFC3339 0 1700000000123456789 = ''2023-11-14T22:13:20Z''"
  "FormatRFC3339Nano 7200 1700000000120000000 = ''2023-11-15T00:13:20.12+02:00''"
proof -
  have "format_seconds 0 1700000000123456789 = ''2023-11-14T22:13:20''"
    "format_seconds 7200 1700000000120000000 = ''2023-11-15T00:13:20''"
    "format_zone 7200 = ''+02:00''"
    by code_simp+
  moreover have "padded 9 120000000 = ''120000000''"
    by (simp add: padded_def decimal_rec digit_char_def char_of_eq_iff)
  ultimately show "FormatRFC3339 0 1700000000123456789 = ''2023-11-14T22:13:20Z''"
    "FormatRFC3339Nano 7200 1700000000120000000 = ''2023-11-15T00:13:20.12+02:00''"
    by (simp_all add: FormatRFC3339_def FormatRFC3339Nano_def fraction_def format_zone_def[of 0])
qed

section \<open>Ranging over a string\<close>

text \<open>
  \<open>for _, r := range s\<close> decodes UTF-8: an ill-formed byte is the rune U+FFFD and one step.
  \<open>decode_multi b0 bs\<close> is the rune that starts with the byte \<open>b0\<close> above 127, with the number
  of bytes of \<open>bs\<close> it takes; overlong forms, surrogates and values above U+10FFFF are ill-formed.
\<close>

definition rune_error :: nat where "rune_error = 65533"

definition is_cont :: "nat \<Rightarrow> bool" where
  "is_cont b \<longleftrightarrow> 128 \<le> b \<and> b < 192"

definition valid_rune :: "nat \<Rightarrow> bool" where
  "valid_rune r \<longleftrightarrow> r < 55296 \<or> (57344 \<le> r \<and> r \<le> 1114111)"

fun decode_multi :: "nat \<Rightarrow> nat list \<Rightarrow> nat \<times> nat" where
  "decode_multi b0 bs =
     (if 192 \<le> b0 \<and> b0 < 224 \<and> 1 \<le> length bs \<and> list_all is_cont (take 1 bs) then
        let r = (b0 - 192) * 64 + (bs ! 0 - 128)
        in if 128 \<le> r then (r, 1) else (rune_error, 0)
      else if 224 \<le> b0 \<and> b0 < 240 \<and> 2 \<le> length bs \<and> list_all is_cont (take 2 bs) then
        let r = (b0 - 224) * 4096 + (bs ! 0 - 128) * 64 + (bs ! 1 - 128)
        in if 2048 \<le> r \<and> valid_rune r then (r, 2) else (rune_error, 0)
      else if 240 \<le> b0 \<and> b0 < 248 \<and> 3 \<le> length bs \<and> list_all is_cont (take 3 bs) then
        let r = (b0 - 240) * 262144 + (bs ! 0 - 128) * 4096 + (bs ! 1 - 128) * 64 + (bs ! 2 - 128)
        in if 65536 \<le> r \<and> valid_rune r then (r, 3) else (rune_error, 0)
      else (rune_error, 0))"

function range_bytes :: "nat list \<Rightarrow> nat list" where
  "range_bytes [] = []"
| "range_bytes (b # bs) =
     (if b < 128 then b # range_bytes bs
      else (let (r, k) = decode_multi b bs in r # range_bytes (drop k bs)))"
  by pat_completeness auto
termination
  by (relation "measure length") auto

definition range_string :: "string \<Rightarrow> nat list" where
  "range_string s = range_bytes (map of_char s)"

text \<open>\<open>strings.Builder.WriteRune\<close>.\<close>

definition EncodeRune :: "nat \<Rightarrow> string" where
  "EncodeRune r0 =
     (let r = (if valid_rune r0 then r0 else rune_error) in
      map char_of
        (if r < 128 then [r]
         else if r < 2048 then [192 + r div 64, 128 + r mod 64]
         else if r < 65536 then [224 + r div 4096, 128 + r div 64 mod 64, 128 + r mod 64]
         else [240 + r div 262144, 128 + r div 4096 mod 64, 128 + r div 64 mod 64, 128 + r mod 64]))"

text \<open>A string of runes, and the strings that are one.\<close>

definition runes :: "nat list \<Rightarrow> string" where
  "runes rs = concat (map EncodeRune rs)"

definition valid_utf8 :: "string \<Rightarrow> bool" where
  "valid_utf8 s \<longleftrightarrow> runes (range_string s) = s"

definition is_ascii :: "string \<Rightarrow> bool" where
  "is_ascii s \<longleftrightarrow> list_all (\<lambda>c. (of_char c :: nat) < 128) s"

lemma range_string_ascii: "is_ascii s \<Longrightarrow> range_string s = map of_char s"
  by (induction s) (auto simp: is_ascii_def range_string_def)

lemma EncodeRune_ascii: "(of_char c :: nat) < 128 \<Longrightarrow> EncodeRune (of_char c) = [c]"
  by (simp add: EncodeRune_def valid_rune_def)

lemma valid_utf8_ascii: "is_ascii s \<Longrightarrow> valid_utf8 s"
  unfolding valid_utf8_def by (subst range_string_ascii, assumption)
    (induction s, simp_all add: is_ascii_def runes_def EncodeRune_ascii)

lemma is_ascii_Nil [simp]: "is_ascii []"
  by (simp add: is_ascii_def)

lemma is_ascii_append [simp]: "is_ascii (s @ t) \<longleftrightarrow> is_ascii s \<and> is_ascii t"
  by (simp add: is_ascii_def)

lemma is_ascii_rev [simp]: "is_ascii (rev s) \<longleftrightarrow> is_ascii s"
  by (simp add: is_ascii_def)

lemma is_ascii_dropWhile: "is_ascii s \<Longrightarrow> is_ascii (dropWhile p s)"
  by (auto simp: is_ascii_def list_all_iff dest: set_dropWhileD)

lemma is_ascii_decimal [simp]: "is_ascii (decimal n)"
  using decimal_digits[of n] by (auto simp: is_ascii_def list_all_iff is_digit_def)

lemma is_ascii_Itoa: "is_ascii (Itoa n)"
proof -
  have "is_ascii ''-''"
    by (simp add: is_ascii_def)
  then show ?thesis
    unfolding Itoa_def by (simp only: is_ascii_append is_ascii_decimal simp_thms split: if_split)
qed

text \<open>A formatted instant is ASCII.\<close>

lemma is_ascii_padded: "is_ascii (padded w n)"
proof -
  have "is_ascii (replicate k (CHR ''0''))" for k
    by (simp add: is_ascii_def list_all_iff)
  then show ?thesis
    unfolding padded_def Let_def is_ascii_append by (simp add: is_ascii_def[of "''-''"])
qed

lemma is_ascii_FormatRFC3339Nano: "is_ascii (FormatRFC3339Nano z t)"
proof -
  have chars: "is_ascii ''-''" "is_ascii '':''" "is_ascii ''T''" "is_ascii ''Z''" "is_ascii ''+''" "is_ascii ''.''"
    by (simp_all add: is_ascii_def)
  have "is_ascii (format_seconds z t)"
    unfolding format_seconds_def Let_def split_beta is_ascii_append using chars is_ascii_padded by blast
  moreover have "is_ascii (fraction (t mod 1000000000))"
    unfolding fraction_def
    by (simp only: is_ascii_Nil is_ascii_append is_ascii_rev is_ascii_dropWhile is_ascii_padded chars simp_thms split: if_split)
  moreover have "is_ascii (format_zone z)"
    unfolding format_zone_def by (simp only: is_ascii_append is_ascii_padded chars simp_thms split: if_split)
  ultimately show ?thesis
    by (simp add: FormatRFC3339Nano_def)
qed

text \<open>Every rune that ranging over bytes yields can be encoded.\<close>

lemma valid_rune_decode_multi:
  assumes "b < 256"
  shows "valid_rune (fst (decode_multi b bs))"
proof -
  have "valid_rune rune_error"
    by (simp add: valid_rune_def rune_error_def)
  moreover have "valid_rune ((b - 192) * 64 + (bs ! 0 - 128))"
    if "b < 224" "list_all is_cont (take 1 bs)" "1 \<le> length bs"
  proof -
    have "bs ! 0 < 192"
      using that by (cases bs) (auto simp: is_cont_def)
    then have "(b - 192) * 64 + (bs ! 0 - 128) < 55296"
      using that(1) by linarith
    then show ?thesis
      by (simp add: valid_rune_def)
  qed
  ultimately show ?thesis
    by (simp add: Let_def)
qed

lemma valid_rune_range_bytes: "\<forall>b\<in>set bs. b < 256 \<Longrightarrow> list_all valid_rune (range_bytes bs)"
proof (induction bs rule: range_bytes.induct)
  case (2 b bs)
  obtain r k where rk: "decode_multi b bs = (r, k)"
    by fastforce
  have "valid_rune r"
    using valid_rune_decode_multi[of b bs] 2(3) by (simp add: rk del: decode_multi.simps)
  moreover have "list_all valid_rune (range_bytes (drop k bs))" if "\<not> b < 128"
    using 2(2)[OF that rk[symmetric] refl] 2(3) by (auto dest: in_set_dropD)
  moreover have "valid_rune b" if "b < 128"
    using that by (simp add: valid_rune_def)
  ultimately show ?case
    using 2(1,3) by (auto simp: rk simp del: decode_multi.simps)
qed simp

lemma valid_utf8_runes:
  assumes "valid_utf8 s"
  obtains rs where "list_all valid_rune rs" and "s = runes rs"
proof
  show "list_all valid_rune (range_string s)"
    unfolding range_string_def by (rule valid_rune_range_bytes) auto
qed (use assms in \<open>simp add: valid_utf8_def\<close>)

end
