(* ===== verification/Models.thy ===== *)
theory Models
  imports GoLang
begin

text \<open>
  The data of \<open>internal/models\<close>: task runs, schedules, their status values and the request
  bodies. A Go pointer field (\<open>*int64\<close>, \<open>*string\<close>, \<open>*time.Time\<close>) is an option. The status
  strings are datatypes with their spelling (\<open>TaskStatusString\<close>, \<open>ScheduleStatusString\<close>), since
  the program only ever stores the declared constants.
\<close>

section \<open>task.go\<close>

datatype TaskStatus = StatusRunning | StatusSuccess | StatusFailed | StatusTimeout | StatusMissed

fun TaskStatusString :: "TaskStatus \<Rightarrow> string" where
  "TaskStatusString StatusRunning = ''running''"
| "TaskStatusString StatusSuccess = ''success''"
| "TaskStatusString StatusFailed = ''failed''"
| "TaskStatusString StatusTimeout = ''timeout''"
| "TaskStatusString StatusMissed = ''missed''"

lemma TaskStatusString_inject [simp]: "TaskStatusString a = TaskStatusString b \<longleftrightarrow> a = b"
  by (cases a; cases b) auto

lemma TaskStatusString_nonempty [simp]: "TaskStatusString a \<noteq> []"
  by (cases a) auto

record TaskRun =
  RunID :: string
  TaskName :: string
  Source :: string
  Status :: TaskStatus
  StartedAt :: time
  FinishedAt :: "time option"
  LastHeartbeatAt :: "time option"
  TTLSeconds :: "int64 option"
  DurationMs :: "int64 option"
  ErrorMessage :: string

record StartRequest =
  start_TaskName :: string
  start_RunID :: string
  start_Source :: string
  start_TTLSeconds :: "int64 option"

record HeartbeatRequest =
  heartbeat_RunID :: string

record SuccessRequest =
  success_RunID :: string

record FailedRequest =
  failed_RunID :: string
  failed_ErrorMessage :: string

section \<open>schedule.go\<close>

datatype ScheduleStatus = ScheduleStatusOK | ScheduleStatusMissed

fun ScheduleStatusString :: "ScheduleStatus \<Rightarrow> string" where
  "ScheduleStatusString ScheduleStatusOK = ''ok''"
| "ScheduleStatusString ScheduleStatusMissed = ''missed''"

record Schedule =
  sched_TaskName :: string
  ExpectedIntervalSeconds :: "int64 option"
  CronExpression :: "string option"
  GracePeriodSeconds :: int64
  LastSeenAt :: "time option"
  sched_Status :: ScheduleStatus
  UpdatedAt :: time

record RegisterScheduleRequest =
  reg_TaskName :: string
  reg_ExpectedIntervalSeconds :: "int64 option"
  reg_CronExpression :: "string option"
  reg_GracePeriodSeconds :: int64

end
