(* ===== verification/Database.thy ===== *)
theory Database
  imports Models "HOL-Library.Char_ord" "HOL-Library.List_Lexorder"
begin

text \<open>
  \<open>internal/db\<close>: the two tables, the connection and the rewriting of placeholders.

  The rows follow the \<open>CREATE TABLE\<close> statements; a nullable column is an option. The SQL
  statements themselves are part of the sources and are translated where they stand, in the
  stores. The engine that runs them (SQLite through modernc.org/sqlite, PostgreSQL through pgx)
  is not, and is the parameter \<open>engine\<close>: which statements fail, with which error, how a
  timestamp column represents an instant (PostgreSQL keeps microseconds), in which order the
  rows of an unordered result set arrive, and how text columns compare. \<open>engine_ok\<close> states the
  documented behaviour the stores rely on; a statement that fails has no effect.
\<close>

section \<open>Tables\<close>

record run_row =
  r_run_id :: string
  r_task_name :: string
  r_source :: "string option"
  r_status :: TaskStatus
  r_started_at :: time
  r_finished_at :: "time option"
  r_last_heartbeat_at :: "time option"
  r_ttl_seconds :: "int64 option"
  r_duration_ms :: "int64 option"
  r_error_message :: "string option"

record sched_row =
  s_task_name :: string
  s_expected_interval_seconds :: "int64 option"
  s_cron_expression :: "string option"
  s_grace_period_seconds :: int64
  s_last_seen_at :: "time option"
  s_status :: ScheduleStatus
  s_updated_at :: time

record db =
  task_runs :: "run_row list"
  task_schedules :: "sched_row list"
  stmts :: nat

definition empty_db :: db where
  "empty_db = \<lparr>task_runs = [], task_schedules = [], stmts = 0\<rparr>"

section \<open>The engine\<close>

record engine =
  fault :: "nat \<Rightarrow> string option"
  count_fault :: "nat \<Rightarrow> string option"
  key_error :: string
  stamp :: "time \<Rightarrow> time"
  zone :: "time \<Rightarrow> int"
  scan_runs :: "nat \<Rightarrow> run_row list \<Rightarrow> run_row list"
  scan_schedules :: "nat \<Rightarrow> sched_row list \<Rightarrow> sched_row list"
  collate :: "string \<Rightarrow> string \<Rightarrow> bool"

definition engine_ok :: "engine \<Rightarrow> bool" where
  "engine_ok eng \<longleftrightarrow>
     (\<forall>n rows. mset (scan_runs eng n rows) = mset rows) \<and>
     (\<forall>n rows. mset (scan_schedules eng n rows) = mset rows) \<and>
     (\<forall>t u. t \<le> u \<longrightarrow> stamp eng t \<le> stamp eng u) \<and>
     (\<forall>t. stamp eng (stamp eng t) = stamp eng t) \<and>
     (\<forall>a b. collate eng a b \<or> collate eng b a) \<and>
     (\<forall>a b c. collate eng a b \<longrightarrow> collate eng b c \<longrightarrow> collate eng a c)"

definition no_faults :: "engine \<Rightarrow> bool" where
  "no_faults eng \<longleftrightarrow> (\<forall>n. fault eng n = None \<and> count_fault eng n = None)"

text \<open>A concrete engine, for the witnesses: no failure, exact instants, insertion order.\<close>

definition plain_engine :: engine where
  "plain_engine =
     \<lparr>fault = (\<lambda>_. None), count_fault = (\<lambda>_. None), key_error = ''UNIQUE constraint failed'',
      stamp = (\<lambda>t. t), zone = (\<lambda>_. 0), scan_runs = (\<lambda>_ rows. rows),
      scan_schedules = (\<lambda>_ rows. rows), collate = (\<lambda>a b. a \<le> b)\<rparr>"

lemma engine_ok_plain [simp]: "engine_ok plain_engine"
  by (auto simp: engine_ok_def plain_engine_def)

lemma no_faults_plain [simp]: "no_faults plain_engine"
  by (simp add: no_faults_def plain_engine_def)

lemma plain_engine_simps [simp]:
  "fault plain_engine n = None" "count_fault plain_engine n = None"
  "stamp plain_engine t = t" "zone plain_engine t = 0"
  "scan_runs plain_engine n rows = rows" "scan_schedules plain_engine n srows = srows"
  "collate plain_engine a b \<longleftrightarrow> a \<le> b"
  by (simp_all add: plain_engine_def)

section \<open>Conn\<close>

text \<open>The connection: its driver name and the limit set by \<open>SetMaxOpenConns\<close>.\<close>

record Conn =
  driver :: string
  max_open :: nat

text \<open>\<open>rebind\<close>: the loop over the query with its counter \<open>n\<close> and output built on the way.\<close>

fun rebind_loop :: "nat \<Rightarrow> nat list \<Rightarrow> string" where
  "rebind_loop n [] = []"
| "rebind_loop n (r # rs) =
     (if r = of_char (CHR ''?'') then ''$'' @ Itoa (int (Suc n)) @ rebind_loop (Suc n) rs
      else EncodeRune r @ rebind_loop n rs)"

definition rebind :: "Conn \<Rightarrow> string \<Rightarrow> string" where
  "rebind c query =
     (if driver c \<noteq> ''postgres'' \<or> CHR ''?'' \<notin> set query then query
      else rebind_loop 0 (range_string query))"

text \<open>
  What \<open>rebind\<close> promises: the text between two placeholders is kept and the placeholders are
  numbered from 1 in order.
\<close>

fun split_marks :: "string \<Rightarrow> string list" where
  "split_marks [] = [[]]"
| "split_marks (c # cs) =
     (if c = CHR ''?'' then [] # split_marks cs
      else (case split_marks cs of [] \<Rightarrow> [[c]] | seg # segs \<Rightarrow> (c # seg) # segs))"

fun join_numbered :: "nat \<Rightarrow> string list \<Rightarrow> string" where
  "join_numbered n [] = []"
| "join_numbered n [seg] = seg"
| "join_numbered n (seg # segs) = seg @ ''$'' @ Itoa (int (Suc n)) @ join_numbered (Suc n) segs"

lemma split_marks_nonempty [simp]: "split_marks cs \<noteq> []"
  by (induction cs) (auto split: list.splits)

lemma join_numbered_Cons:
  "segs \<noteq> [] \<Longrightarrow> join_numbered n (seg # segs) = seg @ ''$'' @ Itoa (int (Suc n)) @ join_numbered (Suc n) segs"
  by (cases segs) auto

lemma join_numbered_prefix:
  "join_numbered n ((c # seg) # segs) = c # join_numbered n (seg # segs)"
  by (cases segs) auto

lemma rebind_loop_split:
  "is_ascii cs \<Longrightarrow> rebind_loop n (map of_char cs) = join_numbered n (split_marks cs)"
proof (induction cs arbitrary: n)
  case Nil
  then show ?case by simp
next
  case (Cons c cs)
  have "(of_char c = (of_char (CHR ''?'') :: nat)) = (c = CHR ''?'')"
    by (simp only: of_char_eq_iff)
  then show ?case
    using Cons
    by (auto simp: join_numbered_Cons join_numbered_prefix EncodeRune_ascii is_ascii_def
        simp del: of_char_eq_iff split: list.splits)
qed

lemma length_split_marks: "length (split_marks cs) = Suc (count_list cs (CHR ''?''))"
  by (induction cs) (auto split: list.splits)

lemma split_marks_id: "CHR ''?'' \<notin> set cs \<Longrightarrow> split_marks cs = [cs]"
  by (induction cs) auto

section \<open>Running a statement\<close>

datatype store_error = ErrNotFound | DriverError string

record sql_result =
  affected :: nat
  affected_err :: "string option"

text \<open>
  \<open>Exec\<close> runs one statement: \<open>stmt\<close> is its effect on the tables and the number of rows it
  affects, or the constraint it violates. \<open>Query\<close> reads the tables. The statement counter only
  names the statement for the engine's choices.
\<close>

definition Exec ::
  "engine \<Rightarrow> (db \<Rightarrow> string + (nat \<times> db)) \<Rightarrow> db \<Rightarrow> (store_error + sql_result) \<times> db"
where
  "Exec eng stmt d =
     (let n = stmts d; d0 = d\<lparr>stmts := Suc n\<rparr> in
      case fault eng n of
        Some e \<Rightarrow> (Inl (DriverError e), d0)
      | None \<Rightarrow>
          (case stmt d0 of
             Inl e \<Rightarrow> (Inl (DriverError e), d0)
           | Inr (k, d1) \<Rightarrow>
               (Inr \<lparr>affected = (if count_fault eng n = None then k else 0),
                     affected_err = count_fault eng n\<rparr>, d1)))"

definition Query :: "engine \<Rightarrow> (db \<Rightarrow> 'a) \<Rightarrow> db \<Rightarrow> (store_error + 'a) \<times> db" where
  "Query eng sel d =
     (let n = stmts d; d0 = d\<lparr>stmts := Suc n\<rparr> in
      case fault eng n of
        Some e \<Rightarrow> (Inl (DriverError e), d0)
      | None \<Rightarrow> (Inr (sel d0), d0))"

definition RowsAffected :: "sql_result \<Rightarrow> nat \<times> string option" where
  "RowsAffected res = (affected res, affected_err res)"

definition checkRowsAffected :: "store_error + sql_result \<Rightarrow> store_error + unit" where
  "checkRowsAffected r =
     (case r of
        Inl err \<Rightarrow> Inl err
      | Inr res \<Rightarrow>
          (case RowsAffected res of
             (_, Some e) \<Rightarrow> Inl (DriverError e)
           | (n, None) \<Rightarrow> if n = 0 then Inl ErrNotFound else Inr ()))"

lemma Exec_no_faults:
  "no_faults eng \<Longrightarrow> Exec eng stmt d =
     (case stmt (d\<lparr>stmts := Suc (stmts d)\<rparr>) of
        Inl e \<Rightarrow> (Inl (DriverError e), d\<lparr>stmts := Suc (stmts d)\<rparr>)
      | Inr (k, d1) \<Rightarrow> (Inr \<lparr>affected = k, affected_err = None\<rparr>, d1))"
  by (simp add: Exec_def no_faults_def Let_def split: sum.splits)

lemma Query_no_faults:
  "no_faults eng \<Longrightarrow> Query eng sel d =
     (Inr (sel (d\<lparr>stmts := Suc (stmts d)\<rparr>)), d\<lparr>stmts := Suc (stmts d)\<rparr>)"
  by (simp add: Query_def no_faults_def Let_def)

lemma Query_tables:
  "task_runs (snd (Query eng sel d)) = task_runs d"
  "task_schedules (snd (Query eng sel d)) = task_schedules d"
  by (simp_all add: Query_def Let_def split: option.splits)

text \<open>A statement that fails leaves the tables as they were.\<close>

lemma Exec_error_tables:
  "Exec eng stmt d = (Inl e, d') \<Longrightarrow> task_runs d' = task_runs d \<and> task_schedules d' = task_schedules d"
  by (auto simp: Exec_def Let_def split: option.splits sum.splits)

lemma Exec_cases:
  obtains e where "Exec eng stmt d = (Inl e, d\<lparr>stmts := Suc (stmts d)\<rparr>)"
  | res k d1 where "Exec eng stmt d = (Inr res, d1)"
      and "stmt (d\<lparr>stmts := Suc (stmts d)\<rparr>) = Inr (k, d1)"
      and "affected res = (if affected_err res = None then k else 0)"
  by (cases "fault eng (stmts d)"; cases "stmt (d\<lparr>stmts := Suc (stmts d)\<rparr>)")
     (auto simp: Exec_def Let_def)

text \<open>The effects of the statements on each table.\<close>

definition update_runs :: "(run_row \<Rightarrow> bool) \<Rightarrow> (run_row \<Rightarrow> run_row) \<Rightarrow> db \<Rightarrow> string + (nat \<times> db)" where
  "update_runs p f d = Inr (cnt_where p (task_runs d), d\<lparr>task_runs := upd_where p f (task_runs d)\<rparr>)"

definition delete_runs :: "(run_row \<Rightarrow> bool) \<Rightarrow> db \<Rightarrow> string + (nat \<times> db)" where
  "delete_runs p d = Inr (cnt_where p (task_runs d), d\<lparr>task_runs := del_where p (task_runs d)\<rparr>)"

definition insert_run :: "engine \<Rightarrow> run_row \<Rightarrow> db \<Rightarrow> string + (nat \<times> db)" where
  "insert_run eng row d =
     (if r_run_id row \<in> r_run_id ` set (task_runs d) then Inl (key_error eng)
      else Inr (1, d\<lparr>task_runs := task_runs d @ [row]\<rparr>))"

definition update_schedules :: "(sched_row \<Rightarrow> bool) \<Rightarrow> (sched_row \<Rightarrow> sched_row) \<Rightarrow> db \<Rightarrow> string + (nat \<times> db)" where
  "update_schedules p f d =
     Inr (cnt_where p (task_schedules d), d\<lparr>task_schedules := upd_where p f (task_schedules d)\<rparr>)"

definition delete_schedules :: "(sched_row \<Rightarrow> bool) \<Rightarrow> db \<Rightarrow> string + (nat \<times> db)" where
  "delete_schedules p d =
     Inr (cnt_where p (task_schedules d), d\<lparr>task_schedules := del_where p (task_schedules d)\<rparr>)"

text \<open>\<open>INSERT \<dots> ON CONFLICT(task_name) DO UPDATE\<close>: one row inserted, or one row updated.\<close>

definition upsert_schedule :: "sched_row \<Rightarrow> (sched_row \<Rightarrow> sched_row) \<Rightarrow> db \<Rightarrow> string + (nat \<times> db)" where
  "upsert_schedule row f d =
     (if s_task_name row \<in> s_task_name ` set (task_schedules d)
      then update_schedules (\<lambda>r. s_task_name r = s_task_name row) f d
      else Inr (1, d\<lparr>task_schedules := task_schedules d @ [row]\<rparr>))"

lemmas stmt_defs = update_runs_def delete_runs_def insert_run_def
  update_schedules_def delete_schedules_def upsert_schedule_def

text \<open>
  A property of a table holds after a statement when it held before and the effect of the
  statement keeps it: a failing statement leaves the table as it was.
\<close>

lemma Exec_update_runs_inv:
  "P (task_runs d) \<Longrightarrow> P (upd_where p f (task_runs d)) \<Longrightarrow>
     P (task_runs (snd (Exec eng (update_runs p f) d)))"
  by (simp add: Exec_def update_runs_def Let_def split: option.split)

lemma Exec_delete_runs_inv:
  "P (task_runs d) \<Longrightarrow> P (del_where p (task_runs d)) \<Longrightarrow>
     P (task_runs (snd (Exec eng (delete_runs p) d)))"
  by (simp add: Exec_def delete_runs_def Let_def split: option.split)

lemma Exec_insert_run_inv:
  "P (task_runs d) \<Longrightarrow>
     (r_run_id row \<notin> r_run_id ` set (task_runs d) \<Longrightarrow> P (task_runs d @ [row])) \<Longrightarrow>
     P (task_runs (snd (Exec eng (insert_run eng row) d)))"
  by (simp add: Exec_def insert_run_def Let_def split: option.split)

lemma Exec_update_schedules_inv:
  "P (task_schedules d) \<Longrightarrow> P (upd_where p f (task_schedules d)) \<Longrightarrow>
     P (task_schedules (snd (Exec eng (update_schedules p f) d)))"
  by (simp add: Exec_def update_schedules_def Let_def split: option.split)

lemma Exec_delete_schedules_inv:
  "P (task_schedules d) \<Longrightarrow> P (del_where p (task_schedules d)) \<Longrightarrow>
     P (task_schedules (snd (Exec eng (delete_schedules p) d)))"
  by (simp add: Exec_def delete_schedules_def Let_def split: option.split)

lemma Exec_upsert_schedule_inv:
  "P (task_schedules d) \<Longrightarrow>
     (s_task_name row \<notin> s_task_name ` set (task_schedules d) \<Longrightarrow> P (task_schedules d @ [row])) \<Longrightarrow>
     P (upd_where (\<lambda>r. s_task_name r = s_task_name row) f (task_schedules d)) \<Longrightarrow>
     P (task_schedules (snd (Exec eng (upsert_schedule row f) d)))"
  by (simp add: Exec_def upsert_schedule_def update_schedules_def Let_def split: option.split)

text \<open>A statement on one table leaves the other alone.\<close>

lemma Exec_other_table [simp]:
  "task_schedules (snd (Exec eng (update_runs p f) d)) = task_schedules d"
  "task_schedules (snd (Exec eng (delete_runs p) d)) = task_schedules d"
  "task_schedules (snd (Exec eng (insert_run eng row) d)) = task_schedules d"
  "task_runs (snd (Exec eng (update_schedules ps fs) d)) = task_runs d"
  "task_runs (snd (Exec eng (delete_schedules ps) d)) = task_runs d"
  "task_runs (snd (Exec eng (upsert_schedule srow fs) d)) = task_runs d"
  by (simp_all add: Exec_def stmt_defs Let_def split: option.split)

lemma Exec_update_runs:
  "no_faults eng \<Longrightarrow> Exec eng (update_runs p f) d =
     (Inr \<lparr>affected = cnt_where p (task_runs d), affected_err = None\<rparr>,
      d\<lparr>task_runs := upd_where p f (task_runs d), stmts := Suc (stmts d)\<rparr>)"
  by (simp add: Exec_no_faults update_runs_def)

lemma Exec_update_schedules:
  "no_faults eng \<Longrightarrow> Exec eng (update_schedules p f) d =
     (Inr \<lparr>affected = cnt_where p (task_schedules d), affected_err = None\<rparr>,
      d\<lparr>task_schedules := upd_where p f (task_schedules d), stmts := Suc (stmts d)\<rparr>)"
  by (simp add: Exec_no_faults update_schedules_def)

end
