(* ===== verification/TaskStore.thy ===== *)
theory TaskStore
  imports Database
begin

text \<open>
  \<open>internal/store/task_store.go\<close>: every method of \<open>TaskStore\<close> with its SQL, its error returns
  and, for \<open>SweepTimeouts\<close>, its two phases (select the candidates, then one guarded update
  each). The lemmas give the functional behaviour of each method on every branch, the
  invariant \<open>runs_ok\<close> and its preservation under arbitrary engine failures, and the
  equivalence of the sweep with one batch update.
\<close>

section \<open>The methods\<close>

definition new_run_row :: "engine \<Rightarrow> TaskRun \<Rightarrow> run_row" where
  "new_run_row eng t =
     \<lparr>r_run_id = RunID t, r_task_name = TaskName t, r_source = Some (Source t), r_status = Status t,
      r_started_at = stamp eng (StartedAt t), r_finished_at = None,
      r_last_heartbeat_at = Some (stamp eng (StartedAt t)), r_ttl_seconds = TTLSeconds t,
      r_duration_ms = None, r_error_message = None\<rparr>"

definition Create :: "engine \<Rightarrow> TaskRun \<Rightarrow> db \<Rightarrow> (store_error + unit) \<times> db" where
  "Create eng t d =
     (case Exec eng (insert_run eng (new_run_row eng t)) d of
        (Inl err, d1) \<Rightarrow> (Inl err, d1)
      | (Inr _, d1) \<Rightarrow> (Inr (), d1))"

definition set_heartbeat :: "engine \<Rightarrow> time \<Rightarrow> run_row \<Rightarrow> run_row" where
  "set_heartbeat eng at r = r\<lparr>r_last_heartbeat_at := Some (stamp eng at)\<rparr>"

definition Heartbeat :: "engine \<Rightarrow> string \<Rightarrow> time \<Rightarrow> db \<Rightarrow> (store_error + unit) \<times> db" where
  "Heartbeat eng runID at d =
     (let (res, d1) = Exec eng (update_runs (\<lambda>r. r_run_id r = runID \<and> r_status r = StatusRunning)
                                  (set_heartbeat eng at)) d
      in (checkRowsAffected res, d1))"

definition set_finished :: "engine \<Rightarrow> TaskStatus \<times> time \<times> int64 \<times> string \<Rightarrow> run_row \<Rightarrow> run_row" where
  "set_finished eng = (\<lambda>(status, finishedAt, durationMs, errMsg) r.
     r\<lparr>r_status := status, r_finished_at := Some (stamp eng finishedAt),
       r_duration_ms := Some durationMs, r_error_message := Some errMsg\<rparr>)"

definition Finish :: "engine \<Rightarrow> string \<Rightarrow> TaskStatus \<Rightarrow> string \<Rightarrow> time \<Rightarrow> db \<Rightarrow> (store_error + unit) \<times> db" where
  "Finish eng runID status errMsg finishedAt d =
     (case Query eng (\<lambda>d0. map_option r_started_at (at_key r_run_id runID (task_runs d0))) d of
        (Inl err, d1) \<Rightarrow> (Inl err, d1)
      | (Inr None, d1) \<Rightarrow> (Inl ErrNotFound, d1)
      | (Inr (Some startedAt), d1) \<Rightarrow>
          (let durationMs = Milliseconds (Sub finishedAt startedAt);
               (res, d2) = Exec eng (update_runs (\<lambda>r. r_run_id r = runID)
                                       (set_finished eng (status, finishedAt, durationMs, errMsg))) d1
           in (checkRowsAffected res, d2)))"

definition scanTaskRun :: "run_row \<Rightarrow> TaskRun" where
  "scanTaskRun r =
     \<lparr>RunID = r_run_id r, TaskName = r_task_name r,
      Source = (case r_source r of None \<Rightarrow> '''' | Some s \<Rightarrow> s),
      Status = r_status r, StartedAt = r_started_at r, FinishedAt = r_finished_at r,
      LastHeartbeatAt = r_last_heartbeat_at r, TTLSeconds = r_ttl_seconds r,
      DurationMs = r_duration_ms r,
      ErrorMessage = (case r_error_message r of None \<Rightarrow> '''' | Some s \<Rightarrow> s)\<rparr>"

definition TaskGet :: "engine \<Rightarrow> string \<Rightarrow> db \<Rightarrow> (store_error + TaskRun) \<times> db" where
  "TaskGet eng runID d =
     (case Query eng (\<lambda>d0. at_key r_run_id runID (task_runs d0)) d of
        (Inl err, d1) \<Rightarrow> (Inl err, d1)
      | (Inr None, d1) \<Rightarrow> (Inl ErrNotFound, d1)
      | (Inr (Some row), d1) \<Rightarrow> (Inr (scanTaskRun row), d1))"

definition newest_first :: "run_row \<Rightarrow> run_row \<Rightarrow> bool" where
  "newest_first a b \<longleftrightarrow> r_started_at b \<le> r_started_at a"

definition list_rows :: "engine \<Rightarrow> string \<Rightarrow> db \<Rightarrow> run_row list" where
  "list_rows eng status d =
     take 200 (order_by newest_first
       (filter (\<lambda>r. status = '''' \<or> TaskStatusString (r_status r) = status)
         (scan_runs eng (stmts d) (task_runs d))))"

definition TaskList :: "engine \<Rightarrow> string \<Rightarrow> db \<Rightarrow> (store_error + TaskRun list) \<times> db" where
  "TaskList eng status d =
     (case Query eng (list_rows eng status) d of
        (Inl err, d1) \<Rightarrow> (Inl err, d1)
      | (Inr rows, d1) \<Rightarrow> (Inr (map scanTaskRun rows), d1))"

section \<open>SweepTimeouts and DeleteOlderThan\<close>

record candidate =
  c_runID :: string
  c_reference :: time
  c_ttl :: int64

text \<open>The rows the \<open>SELECT\<close> returns, and the candidate scanned from each.\<close>

definition has_ttl :: "run_row \<Rightarrow> bool" where
  "has_ttl r \<longleftrightarrow> r_status r = StatusRunning \<and> r_ttl_seconds r \<noteq> None"

definition scan_candidate :: "run_row \<Rightarrow> candidate" where
  "scan_candidate r =
     \<lparr>c_runID = r_run_id r,
      c_reference = (case r_last_heartbeat_at r of Some t \<Rightarrow> t | None \<Rightarrow> r_started_at r),
      c_ttl = (case r_ttl_seconds r of Some n \<Rightarrow> n | None \<Rightarrow> 0)\<rparr>"

definition select_candidates :: "engine \<Rightarrow> db \<Rightarrow> (store_error + candidate list) \<times> db" where
  "select_candidates eng d =
     Query eng (\<lambda>d0. map scan_candidate (filter has_ttl (scan_runs eng (stmts d0) (task_runs d0)))) d"

text \<open>\<open>now.Sub(c.reference) <= time.Duration(c.ttl)*time.Second\<close>: the product wraps.\<close>

definition within_ttl :: "time \<Rightarrow> candidate \<Rightarrow> bool" where
  "within_ttl now c \<longleftrightarrow> sint (Sub now (c_reference c)) \<le> sint (c_ttl c * Second)"

definition ttl_message :: string where
  "ttl_message = ''task exceeded TTL without heartbeat or completion''"

definition set_timeout :: "engine \<Rightarrow> time \<Rightarrow> candidate \<Rightarrow> run_row \<Rightarrow> run_row" where
  "set_timeout eng now c r =
     r\<lparr>r_status := StatusTimeout, r_finished_at := Some (stamp eng now),
       r_duration_ms := Some (Milliseconds (Sub now (c_reference c))),
       r_error_message := Some ttl_message\<rparr>"

definition timeout_stmt :: "engine \<Rightarrow> time \<Rightarrow> candidate \<Rightarrow> db \<Rightarrow> string + (nat \<times> db)" where
  "timeout_stmt eng now c =
     update_runs (\<lambda>r. r_run_id r = c_runID c \<and> r_status r = StatusRunning) (set_timeout eng now c)"

fun sweep_loop ::
  "engine \<Rightarrow> time \<Rightarrow> TaskRun list \<Rightarrow> candidate list \<Rightarrow> db \<Rightarrow> (TaskRun list \<times> store_error option) \<times> db"
where
  "sweep_loop eng now timedOut [] d = ((timedOut, None), d)"
| "sweep_loop eng now timedOut (c # cs) d =
     (if within_ttl now c then sweep_loop eng now timedOut cs d
      else (case Exec eng (timeout_stmt eng now c) d of
              (Inl err, d1) \<Rightarrow> ((timedOut, Some err), d1)
            | (Inr res, d1) \<Rightarrow>
                (if fst (RowsAffected res) = 0 then sweep_loop eng now timedOut cs d1
                 else (case TaskGet eng (c_runID c) d1 of
                         (Inl err, d2) \<Rightarrow> ((timedOut, Some err), d2)
                       | (Inr task, d2) \<Rightarrow> sweep_loop eng now (timedOut @ [task]) cs d2))))"

definition SweepTimeouts :: "engine \<Rightarrow> time \<Rightarrow> db \<Rightarrow> (TaskRun list \<times> store_error option) \<times> db" where
  "SweepTimeouts eng now d =
     (case select_candidates eng d of
        (Inl err, d1) \<Rightarrow> (([], Some err), d1)
      | (Inr candidates, d1) \<Rightarrow> sweep_loop eng now [] candidates d1)"

definition older_than :: "time \<Rightarrow> run_row \<Rightarrow> bool" where
  "older_than cutoff r = (case r_finished_at r of None \<Rightarrow> False | Some t \<Rightarrow> t < cutoff)"

definition DeleteOlderThan :: "engine \<Rightarrow> time \<Rightarrow> db \<Rightarrow> (store_error + nat) \<times> db" where
  "DeleteOlderThan eng cutoff d =
     (case Exec eng (delete_runs (older_than (stamp eng cutoff))) d of
        (Inl err, d1) \<Rightarrow> (Inl err, d1)
      | (Inr res, d1) \<Rightarrow>
          (case RowsAffected res of
             (_, Some e) \<Rightarrow> (Inl (DriverError e), d1)
           | (n, None) \<Rightarrow> (Inr n, d1)))"

section \<open>The contracts of the table, on this table\<close>

interpretation hb: key_kept r_run_id "set_heartbeat eng" for eng
  by unfold_locales (simp add: set_heartbeat_def)

interpretation fin: key_kept r_run_id "set_finished eng" for eng
  by unfold_locales (auto simp: set_finished_def)

interpretation tmo: key_kept r_run_id "set_timeout eng now" for eng now
  by unfold_locales (simp add: set_timeout_def)

interpretation sweep: point_updates r_run_id "\<lambda>r. r_status r = StatusRunning" c_runID
  "\<lambda>c. \<not> within_ttl now c" "set_timeout eng now" for eng now
  by unfold_locales (simp_all add: set_timeout_def)

interpretation newest: collation newest_first
  by unfold_locales (auto simp: newest_first_def)

section \<open>Statements without failures\<close>

lemma TaskGet_no_faults:
  "no_faults eng \<Longrightarrow> TaskGet eng k d =
     ((case at_key r_run_id k (task_runs d) of None \<Rightarrow> Inl ErrNotFound | Some r \<Rightarrow> Inr (scanTaskRun r)),
      d\<lparr>stmts := Suc (stmts d)\<rparr>)"
  by (simp add: TaskGet_def Query_no_faults split: option.split)

lemma TaskGet_tables [simp]:
  "task_runs (snd (TaskGet eng k d)) = task_runs d"
  "task_schedules (snd (TaskGet eng k d)) = task_schedules d"
  by (auto simp: TaskGet_def Query_def Let_def split: option.splits)

lemma select_candidates_tables [simp]:
  "task_runs (snd (select_candidates eng d)) = task_runs d"
  "task_schedules (snd (select_candidates eng d)) = task_schedules d"
  by (simp_all add: select_candidates_def Query_tables)

section \<open>The invariant\<close>

text \<open>
  A row is running exactly when it has no \<open>finished_at\<close> and no \<open>duration_ms\<close>, no stored row is
  \<open>missed\<close>, every row has a heartbeat, and \<open>run_id\<close> identifies the row.
\<close>

definition run_ok :: "run_row \<Rightarrow> bool" where
  "run_ok r \<longleftrightarrow>
     (r_finished_at r = None \<longleftrightarrow> r_status r = StatusRunning) \<and>
     (r_duration_ms r = None \<longleftrightarrow> r_status r = StatusRunning) \<and>
     r_status r \<noteq> StatusMissed \<and> r_last_heartbeat_at r \<noteq> None"

definition runs_ok :: "run_row list \<Rightarrow> bool" where
  "runs_ok rows \<longleftrightarrow> keyed r_run_id rows \<and> (\<forall>r\<in>set rows. run_ok r)"

text \<open>The last statement of each method decides the state it leaves.\<close>

lemma snd_Create: "snd (Create eng t d) = snd (Exec eng (insert_run eng (new_run_row eng t)) d)"
  by (simp add: Create_def split: prod.split sum.split)

lemma snd_Heartbeat:
  "snd (Heartbeat eng k at d) =
     snd (Exec eng (update_runs (\<lambda>r. r_run_id r = k \<and> r_status r = StatusRunning) (set_heartbeat eng at)) d)"
  by (simp add: Heartbeat_def Let_def split: prod.split)

lemma snd_DeleteOlderThan:
  "snd (DeleteOlderThan eng cutoff d) = snd (Exec eng (delete_runs (older_than (stamp eng cutoff))) d)"
  by (simp add: DeleteOlderThan_def split: prod.split sum.split option.split)

lemma Finish_inv:
  assumes "P (task_runs d)"
    and "\<And>n. P (upd_where (\<lambda>r. r_run_id r = k) (set_finished eng (status, at, n, msg)) (task_runs d))"
  shows "P (task_runs (snd (Finish eng k status msg at d)))"
proof -
  obtain res d1 where q:
      "Query eng (\<lambda>d0. map_option r_started_at (at_key r_run_id k (task_runs d0))) d = (res, d1)"
    by fastforce
  then have same: "task_runs d1 = task_runs d"
    using Query_tables(1)[of eng "\<lambda>d0. map_option r_started_at (at_key r_run_id k (task_runs d0))" d]
    by simp
  have "P (task_runs (snd (Exec eng (update_runs (\<lambda>r. r_run_id r = k)
          (set_finished eng (status, at, n, msg))) d1)))" for n
    by (rule Exec_update_runs_inv[where P = P]) (use assms same in simp_all)
  then have upd: "P (task_runs (snd (let (res, d2) = Exec eng (update_runs (\<lambda>r. r_run_id r = k)
          (set_finished eng (status, at, n, msg))) d1 in (checkRowsAffected res, d2))))" for n
    by (simp add: Let_def split_beta)
  show ?thesis
  proof (cases res)
    case (Inl e)
    then show ?thesis using assms(1) by (simp add: Finish_def q same)
  next
    case (Inr found)
    then show ?thesis
      using assms(1) upd by (cases found) (simp_all add: Finish_def q same Let_def)
  qed
qed

text \<open>Whatever the guarded updates and the reads keep, the whole sweep keeps.\<close>

lemma sweep_loop_keeps:
  assumes upd: "\<And>(c :: candidate) d. P d \<Longrightarrow> P (snd (Exec eng (timeout_stmt eng now c) d))"
    and get: "\<And>k d. P d \<Longrightarrow> P (snd (TaskGet eng k d))"
  shows "P d \<Longrightarrow> P (snd (sweep_loop eng now acc cs d))"
proof (induction cs arbitrary: acc d)
  case Nil
  then show ?case by simp
next
  case (Cons c cs)
  obtain res d1 where e: "Exec eng (timeout_stmt eng now c) d = (res, d1)"
    by fastforce
  then have d1: "P d1"
    using upd[OF Cons.prems, of c] by simp
  obtain got d2 where g: "TaskGet eng (c_runID c) d1 = (got, d2)"
    by fastforce
  then have d2: "P d2"
    using get[OF d1, of "c_runID c"] by simp
  show ?case
    using Cons.prems d1 d2 by (simp add: e g Cons.IH split: sum.split)
qed

lemma SweepTimeouts_keeps:
  assumes upd: "\<And>(c :: candidate) d. P d \<Longrightarrow> P (snd (Exec eng (timeout_stmt eng now c) d))"
    and get: "\<And>k d. P d \<Longrightarrow> P (snd (TaskGet eng k d))"
    and sel: "\<And>d. P d \<Longrightarrow> P (snd (select_candidates eng d))"
  shows "P d \<Longrightarrow> P (snd (SweepTimeouts eng now d))"
proof -
  assume "P d"
  obtain res d1 where s: "select_candidates eng d = (res, d1)"
    by fastforce
  then have "P d1"
    using sel[OF \<open>P d\<close>] by simp
  then show "P (snd (SweepTimeouts eng now d))"
    using sweep_loop_keeps[where P = P, OF upd get] by (simp add: SweepTimeouts_def s split: sum.split)
qed

lemma SweepTimeouts_inv:
  assumes "\<And>(c :: candidate) rows. P rows \<Longrightarrow>
      P (upd_where (\<lambda>r. r_run_id r = c_runID c \<and> r_status r = StatusRunning) (set_timeout eng now c) rows)"
    and "P (task_runs d)"
  shows "P (task_runs (snd (SweepTimeouts eng now d)))"
proof (rule SweepTimeouts_keeps[where P = "\<lambda>d. P (task_runs d)"])
  fix c :: candidate and d :: db
  assume P: "P (task_runs d)"
  show "P (task_runs (snd (Exec eng (timeout_stmt eng now c) d)))"
    unfolding timeout_stmt_def by (rule Exec_update_runs_inv[where P = P, OF P assms(1)[OF P]])
qed (use assms(2) in simp_all)

lemma sweep_schedules [simp]:
  "task_schedules (snd (sweep_loop eng now acc cs d)) = task_schedules d"
  "task_schedules (snd (SweepTimeouts eng now d)) = task_schedules d"
  using sweep_loop_keeps[where P = "\<lambda>d'. task_schedules d' = task_schedules d" and d = d]
    SweepTimeouts_keeps[where P = "\<lambda>d'. task_schedules d' = task_schedules d" and d = d]
  by (simp_all add: timeout_stmt_def)

lemma runs_ok_upd:
  assumes "runs_ok rows" and "keyed r_run_id (upd_where p f rows)"
    and "\<And>r. run_ok r \<Longrightarrow> p r \<Longrightarrow> run_ok (f r)"
  shows "runs_ok (upd_where p f rows)"
  using assms by (auto simp: runs_ok_def set_upd_where)

lemma runs_ok_Create [inv_intros]:
  "runs_ok (task_runs d) \<Longrightarrow> Status t = StatusRunning \<Longrightarrow> runs_ok (task_runs (snd (Create eng t d)))"
  unfolding snd_Create
  by (rule Exec_insert_run_inv)
     (auto simp: runs_ok_def run_ok_def new_run_row_def intro!: keyed_append)

lemma runs_ok_Heartbeat [inv_intros]:
  assumes "runs_ok (task_runs d)"
  shows "runs_ok (task_runs (snd (Heartbeat eng k at d)))"
  unfolding snd_Heartbeat using assms
proof (rule Exec_update_runs_inv)
  have "keyed r_run_id (task_runs d)"
    using assms by (simp add: runs_ok_def)
  then show "runs_ok (upd_where (\<lambda>r. r_run_id r = k \<and> r_status r = StatusRunning)
      (set_heartbeat eng at) (task_runs d))"
    using assms by (intro runs_ok_upd hb.keyed_upd) (auto simp: run_ok_def set_heartbeat_def)
qed

lemma runs_ok_Finish [inv_intros]:
  assumes "runs_ok (task_runs d)" and "status \<noteq> StatusRunning" and "status \<noteq> StatusMissed"
  shows "runs_ok (task_runs (snd (Finish eng k status msg at d)))"
  using assms(1)
proof (rule Finish_inv)
  fix n
  have "keyed r_run_id (task_runs d)"
    using assms by (simp add: runs_ok_def)
  then show "runs_ok (upd_where (\<lambda>r. r_run_id r = k) (set_finished eng (status, at, n, msg)) (task_runs d))"
    using assms by (intro runs_ok_upd fin.keyed_upd) (auto simp: run_ok_def set_finished_def)
qed

lemma runs_ok_SweepTimeouts [inv_intros]:
  assumes "runs_ok (task_runs d)"
  shows "runs_ok (task_runs (snd (SweepTimeouts eng now d)))"
  using _ assms
proof (rule SweepTimeouts_inv)
  fix c :: candidate and rows
  assume ok: "runs_ok rows"
  then have "keyed r_run_id rows"
    by (simp add: runs_ok_def)
  with ok show "runs_ok (upd_where (\<lambda>r. r_run_id r = c_runID c \<and> r_status r = StatusRunning)
      (set_timeout eng now c) rows)"
    by (intro runs_ok_upd tmo.keyed_upd) (auto simp: run_ok_def set_timeout_def)
qed

lemma runs_ok_DeleteOlderThan [inv_intros]:
  "runs_ok (task_runs d) \<Longrightarrow> runs_ok (task_runs (snd (DeleteOlderThan eng cutoff d)))"
  unfolding snd_DeleteOlderThan
  by (rule Exec_delete_runs_inv) (auto simp: runs_ok_def set_del_where intro: keyed_del)

section \<open>Functional behaviour, without engine failures\<close>

text \<open>The \<open>started_at\<close> of a row never changes, and no method renames a row.\<close>

lemma Finish_no_faults:
  assumes "no_faults eng"
  shows "Finish eng k status msg at d =
    (case at_key r_run_id k (task_runs d) of
       None \<Rightarrow> (Inl ErrNotFound, d\<lparr>stmts := Suc (stmts d)\<rparr>)
     | Some r \<Rightarrow> (Inr (), d\<lparr>task_runs := upd_where (\<lambda>r. r_run_id r = k)
           (set_finished eng (status, at, Milliseconds (Sub at (r_started_at r)), msg)) (task_runs d),
           stmts := Suc (Suc (stmts d))\<rparr>))"
proof (cases "at_key r_run_id k (task_runs d)")
  case None
  then show ?thesis by (simp add: Finish_def Query_no_faults[OF assms])
next
  case (Some r)
  then have "cnt_where (\<lambda>r. r_run_id r = k) (task_runs d) \<noteq> 0"
    by (auto simp: cnt_where_0 dest: at_key_SomeD)
  with Some show ?thesis
    by (simp add: Finish_def Query_no_faults[OF assms] Exec_update_runs[OF assms]
        checkRowsAffected_def RowsAffected_def)
qed

lemma Heartbeat_no_faults:
  assumes "no_faults eng" and "keyed r_run_id (task_runs d)"
  shows "Heartbeat eng k at d =
    ((case at_key r_run_id k (task_runs d) of
        None \<Rightarrow> Inl ErrNotFound
      | Some r \<Rightarrow> if r_status r = StatusRunning then Inr () else Inl ErrNotFound),
     d\<lparr>task_runs := upd_where (\<lambda>r. r_run_id r = k \<and> r_status r = StatusRunning)
         (set_heartbeat eng at) (task_runs d), stmts := Suc (stmts d)\<rparr>)"
  using no_match_at_key[OF assms(2), of k "\<lambda>r. r_status r = StatusRunning"]
  by (auto simp: Heartbeat_def Exec_update_runs[OF assms(1)] checkRowsAffected_def RowsAffected_def
      cnt_where_0 split: option.splits)

section \<open>The sweep as one batch update\<close>

text \<open>
  A row is expired when it is running, declares a TTL and has been silent for longer. The sweep
  marks exactly the expired rows, whatever the order in which the engine delivers them.
\<close>

definition expired :: "time \<Rightarrow> run_row \<Rightarrow> bool" where
  "expired now r \<longleftrightarrow> has_ttl r \<and> \<not> within_ttl now (scan_candidate r)"

abbreviation timed_out :: "engine \<Rightarrow> time \<Rightarrow> run_row \<Rightarrow> run_row" where
  "timed_out eng now r \<equiv> set_timeout eng now (scan_candidate r) r"

lemma c_runID_scan_candidate [simp]: "c_runID (scan_candidate r) = r_run_id r"
  by (simp add: scan_candidate_def)

lemma sweep_loop_no_faults:
  assumes nf: "no_faults eng"
  shows "keyed r_run_id (task_runs d) \<Longrightarrow> distinct (map r_run_id rs) \<Longrightarrow>
    set rs \<subseteq> set (task_runs d) \<Longrightarrow> (\<forall>r\<in>set rs. r_status r = StatusRunning) \<Longrightarrow>
    fst (sweep_loop eng now acc (map scan_candidate rs) d) =
      (acc @ map (\<lambda>r. scanTaskRun (timed_out eng now r))
              (filter (\<lambda>r. \<not> within_ttl now (scan_candidate r)) rs), None) \<and>
    task_runs (snd (sweep_loop eng now acc (map scan_candidate rs) d)) =
      point_loop r_run_id (\<lambda>r. r_status r = StatusRunning) c_runID (\<lambda>c. \<not> within_ttl now c)
        (set_timeout eng now) (map scan_candidate rs) (task_runs d) \<and>
    task_schedules (snd (sweep_loop eng now acc (map scan_candidate rs) d)) = task_schedules d"
proof (induction rs arbitrary: acc d)
  case Nil
  then show ?case by simp
next
  case (Cons r rs)
  show ?case
  proof (cases "within_ttl now (scan_candidate r)")
    case True
    then show ?thesis using Cons by simp
  next
    case False
    let ?p = "\<lambda>x. r_run_id x = r_run_id r \<and> r_status x = StatusRunning"
    let ?rows = "upd_where ?p (set_timeout eng now (scan_candidate r)) (task_runs d)"
    let ?d1 = "d\<lparr>task_runs := ?rows, stmts := Suc (stmts d)\<rparr>"
    have mem: "r \<in> set (task_runs d)" "?p r"
      using Cons.prems by simp_all
    then have hit: "cnt_where ?p (task_runs d) \<noteq> 0"
      by (auto simp: table_simps)
    have got: "at_key r_run_id (r_run_id r) ?rows = Some (timed_out eng now r)"
      using mem Cons.prems(1) by (simp add: tmo.at_key_upd at_key_mem)
    have rest: "set rs \<subseteq> set ?rows"
      using Cons.prems(2,3) by (force simp: table_simps image_iff)
    have step: "sweep_loop eng now acc (map scan_candidate (r # rs)) d =
      sweep_loop eng now (acc @ [scanTaskRun (timed_out eng now r)]) (map scan_candidate rs)
        (?d1\<lparr>stmts := Suc (Suc (stmts d))\<rparr>)"
      using False hit
      by (simp add: timeout_stmt_def Exec_update_runs[OF nf] RowsAffected_def TaskGet_no_faults[OF nf] got)
    show ?thesis
      unfolding step
      using False Cons.prems rest
        Cons.IH[of "?d1\<lparr>stmts := Suc (Suc (stmts d))\<rparr>" "acc @ [scanTaskRun (timed_out eng now r)]"]
      by (simp add: tmo.keyed_upd)
  qed
qed

lemma SweepTimeouts_no_faults:
  assumes nf: "no_faults eng" and ok: "engine_ok eng" and k: "keyed r_run_id (task_runs d)"
  shows "fst (SweepTimeouts eng now d) =
      (map (\<lambda>r. scanTaskRun (timed_out eng now r))
         (filter (expired now) (scan_runs eng (Suc (stmts d)) (task_runs d))), None)"
    and "task_runs (snd (SweepTimeouts eng now d)) =
      upd_where (expired now) (timed_out eng now) (task_runs d)"
    and "task_schedules (snd (SweepTimeouts eng now d)) = task_schedules d"
proof -
  let ?d1 = "d\<lparr>stmts := Suc (stmts d)\<rparr>"
  let ?scanned = "scan_runs eng (Suc (stmts d)) (task_runs d)"
  let ?rs = "filter has_ttl ?scanned"
  have perm: "mset ?scanned = mset (task_runs d)"
    using ok by (simp add: engine_ok_def)
  then have dist: "distinct (map r_run_id ?rs)"
    using mset_eq_distinct_map[OF perm k[unfolded keyed_def]] by (simp add: keyed_def distinct_map_filter)
  have sub: "set ?rs \<subseteq> set (task_runs d)" "\<forall>r\<in>set ?rs. r_status r = StatusRunning"
    using mset_eq_setD[OF perm] by (auto simp: has_ttl_def)
  have run: "SweepTimeouts eng now d = sweep_loop eng now [] (map scan_candidate ?rs) ?d1"
    by (simp add: SweepTimeouts_def select_candidates_def Query_no_faults[OF nf])
  note loop = sweep_loop_no_faults[OF nf, of ?d1 ?rs now "[]"]
  show "fst (SweepTimeouts eng now d) =
      (map (\<lambda>r. scanTaskRun (timed_out eng now r)) (filter (expired now) ?scanned), None)"
    using loop k dist sub by (simp add: run expired_def[abs_def])
  have "point_loop r_run_id (\<lambda>r. r_status r = StatusRunning) c_runID (\<lambda>c. \<not> within_ttl now c)
      (set_timeout eng now) (map scan_candidate ?rs) (task_runs d) =
    upd_where (\<lambda>r. has_ttl r \<and> \<not> within_ttl now (scan_candidate r)) (timed_out eng now) (task_runs d)"
    by (rule sweep.point_loop_batch[OF refl perm _ k]) (auto simp: has_ttl_def)
  then show "task_runs (snd (SweepTimeouts eng now d)) =
      upd_where (expired now) (timed_out eng now) (task_runs d)"
    using loop k dist sub by (simp add: run expired_def[abs_def])
  show "task_schedules (snd (SweepTimeouts eng now d)) = task_schedules d"
    using loop k dist sub by (simp add: run)
qed

lemma not_expired_timed_out [simp]: "\<not> expired now (timed_out eng now' r)"
  by (simp add: expired_def has_ttl_def set_timeout_def)

section \<open>Properties\<close>

text \<open>A table with a running and a finished run, for the witnesses (times in nanoseconds).\<close>

definition sample_row :: "string \<Rightarrow> TaskStatus \<Rightarrow> run_row" where
  "sample_row k st =
     \<lparr>r_run_id = k, r_task_name = ''job'', r_source = Some ''cron'', r_status = st, r_started_at = 0,
      r_finished_at = (if st = StatusRunning then None else Some 2000000000),
      r_last_heartbeat_at = Some 1000000000, r_ttl_seconds = Some 5,
      r_duration_ms = (if st = StatusRunning then None else Some 2000), r_error_message = None\<rparr>"

definition sample_db :: db where
  "sample_db =
     \<lparr>task_runs = [sample_row ''a'' StatusRunning, sample_row ''b'' StatusSuccess],
      task_schedules = [], stmts = 0\<rparr>"

lemma expired_sample [simp]:
  "expired 7000000000 (sample_row ''a'' StatusRunning)" "\<not> expired now (sample_row k StatusSuccess)"
  by (simp_all add: expired_def has_ttl_def within_ttl_def scan_candidate_def sample_row_def Sub_def go_defs)

lemma runs_ok_sample [simp]: "runs_ok (task_runs sample_db)"
  by (simp add: runs_ok_def keyed_def run_ok_def sample_db_def sample_row_def)

lemma at_key_sample [simp]:
  "at_key r_run_id ''a'' (task_runs sample_db) = Some (sample_row ''a'' StatusRunning)"
  "at_key r_run_id ''b'' (task_runs sample_db) = Some (sample_row ''b'' StatusSuccess)"
  by (simp_all add: at_key_def sample_db_def sample_row_def)

text \<open>
  C1. One pass of \<open>SweepTimeouts\<close> marks as \<open>timeout\<close> exactly the runs that are running, declare a
  TTL and have been silent for longer than it, leaves every other row as it is, and returns the
  marked runs, each once; the order in which the engine delivers the rows does not matter.
\<close>

theorem SweepTimeouts_exact:
  assumes "no_faults eng" and "engine_ok eng" and "runs_ok (task_runs d)"
  shows "task_runs (snd (SweepTimeouts eng now d)) =
      upd_where (expired now) (\<lambda>r. set_timeout eng now (scan_candidate r) r) (task_runs d) \<and>
    snd (fst (SweepTimeouts eng now d)) = None \<and>
    mset (fst (fst (SweepTimeouts eng now d))) =
      image_mset (\<lambda>r. scanTaskRun (set_timeout eng now (scan_candidate r) r))
        (filter_mset (expired now) (mset (task_runs d)))"
proof -
  have k: "keyed r_run_id (task_runs d)"
    using assms(3) by (simp add: runs_ok_def)
  have "mset (scan_runs eng (Suc (stmts d)) (task_runs d)) = mset (task_runs d)"
    using assms(2) by (simp add: engine_ok_def)
  then show ?thesis
    using SweepTimeouts_no_faults[OF assms(1,2) k, of now] by simp
qed

theorem SweepTimeouts_exact_witness:
  "expired 7000000000 (sample_row ''a'' StatusRunning) \<and>
   r_status (hd (task_runs (snd (SweepTimeouts plain_engine 7000000000 sample_db)))) = StatusTimeout"
  using SweepTimeouts_exact[OF no_faults_plain engine_ok_plain runs_ok_sample, of 7000000000]
  by (simp add: upd_where_def sample_db_def set_timeout_def)

text \<open>
  The comparison \<open>now.Sub(reference) <= time.Duration(ttl)*time.Second\<close> means what it says as
  long as the TTL is below 9223372037 seconds and the silence fits a \<open>time.Duration\<close>: a running
  row expires exactly when more than its TTL has passed since its last heartbeat.
\<close>

lemma expired_iff_silent:
  assumes "r_status r = StatusRunning" and "r_ttl_seconds r = Some n"
    and "r_last_heartbeat_at r = Some t"
    and "\<bar>sint n\<bar> \<le> max_seconds" and "in_int64 (now - t)"
  shows "expired now r \<longleftrightarrow> t + sint n * 1000000000 < now"
  using assms
  by (auto simp: expired_def has_ttl_def within_ttl_def scan_candidate_def sint_seconds sint_Sub_in_range)

text \<open>
  C40. For larger TTLs the product wraps: a running row with a TTL between 9223372037 and
  18446744073 seconds (292 to 584 years) counts as expired at once, at the very instant of its
  last heartbeat.
\<close>

theorem huge_ttl_expires_at_once:
  assumes "r_status r = StatusRunning" and "r_ttl_seconds r = Some n"
    and "r_last_heartbeat_at r = Some t" and "t \<le> now"
    and "9223372037 \<le> sint n" and "sint n \<le> 18446744073"
  shows "expired now r"
proof -
  have "sint (n * Second) < 0"
    using assms(5,6) by (rule sint_seconds_wrap)
  moreover have "0 \<le> sint (Sub now t)"
    using assms(4) by (simp add: sint_Sub)
  ultimately show ?thesis
    using assms(1-3) by (simp add: expired_def has_ttl_def within_ttl_def scan_candidate_def)
qed

theorem huge_ttl_expires_at_once_witness:
  "expired 1000000000 (sample_row ''a'' StatusRunning\<lparr>r_ttl_seconds := Some 10000000000\<rparr>)"
  by (rule huge_ttl_expires_at_once[where n = 10000000000 and t = 1000000000])
     (simp_all add: sample_row_def)

text \<open>
  Sweeping is idempotent: a second sweep at the same instant finds nothing to mark and leaves
  the table as it is.
\<close>

lemma SweepTimeouts_idempotent:
  assumes "no_faults eng" and "engine_ok eng" and "runs_ok (task_runs d)"
    and "d1 = snd (SweepTimeouts eng now d)"
  shows "fst (SweepTimeouts eng now d1) = ([], None) \<and>
    task_runs (snd (SweepTimeouts eng now d1)) = task_runs d1"
proof -
  have k: "keyed r_run_id (task_runs d)"
    using assms(3) by (simp add: runs_ok_def)
  have rows: "task_runs d1 = upd_where (expired now) (timed_out eng now) (task_runs d)"
    unfolding assms(4) by (rule SweepTimeouts_no_faults(2)[OF assms(1,2) k])
  have k1: "keyed r_run_id (task_runs d1)"
    using runs_ok_SweepTimeouts[OF assms(3)] by (simp add: runs_ok_def assms(4))
  have none: "\<not> expired now r" if "r \<in> set (task_runs d1)" for r
    using that by (auto simp: rows set_upd_where)
  then have "filter (expired now) (scan_runs eng (Suc (stmts d1)) (task_runs d1)) = []"
    using mset_eq_setD[of "scan_runs eng (Suc (stmts d1)) (task_runs d1)" "task_runs d1"] assms(2)
    by (auto simp: filter_empty_conv engine_ok_def)
  then show ?thesis
    using SweepTimeouts_no_faults[OF assms(1,2) k1, of now] none by (simp add: upd_where_none)
qed

lemma create_fresh:
  assumes "no_faults eng" and "RunID t \<notin> r_run_id ` set (task_runs d)"
  shows "fst (Create eng t d) = Inr ()"
    and "task_runs (snd (Create eng t d)) = task_runs d @ [new_run_row eng t]"
    and "fst (TaskGet eng k (snd (Create eng t d))) =
      (if k = RunID t
       then Inr (t\<lparr>StartedAt := stamp eng (StartedAt t), FinishedAt := None,
                   LastHeartbeatAt := Some (stamp eng (StartedAt t)), DurationMs := None, ErrorMessage := ''''\<rparr>)
       else fst (TaskGet eng k d))"
proof -
  show "fst (Create eng t d) = Inr ()"
    and d1: "task_runs (snd (Create eng t d)) = task_runs d @ [new_run_row eng t]"
    using assms(2) by (simp_all add: Create_def Exec_no_faults[OF assms(1)] insert_run_def new_run_row_def)
  have "at_key r_run_id (RunID t) (task_runs d) = None"
    using assms(2) by (simp add: at_key_None)
  then show "fst (TaskGet eng k (snd (Create eng t d))) =
      (if k = RunID t
       then Inr (t\<lparr>StartedAt := stamp eng (StartedAt t), FinishedAt := None,
                   LastHeartbeatAt := Some (stamp eng (StartedAt t)), DurationMs := None, ErrorMessage := ''''\<rparr>)
       else fst (TaskGet eng k d))"
    by (auto simp: TaskGet_no_faults[OF assms(1)] d1 at_key_append scanTaskRun_def new_run_row_def
        split: option.split)
qed

text \<open>
  \<open>Create\<close> then \<open>Get\<close>: a run with a fresh id is stored and read back with its start as its
  first heartbeat and no outcome, and no other run is touched; an id that is in use is refused
  with the engine's key error and nothing changes.
\<close>

lemma Create_then_Get:
  assumes "no_faults eng" and "d1 = snd (Create eng t d)"
  shows "(if RunID t \<in> r_run_id ` set (task_runs d)
     then fst (Create eng t d) = Inl (DriverError (key_error eng)) \<and> task_runs d1 = task_runs d
     else fst (Create eng t d) = Inr () \<and>
       (\<forall>k. fst (TaskGet eng k d1) =
          (if k = RunID t
           then Inr (t\<lparr>StartedAt := stamp eng (StartedAt t), FinishedAt := None,
                       LastHeartbeatAt := Some (stamp eng (StartedAt t)),
                       DurationMs := None, ErrorMessage := ''''\<rparr>)
           else fst (TaskGet eng k d))))"
proof (cases "RunID t \<in> r_run_id ` set (task_runs d)")
  case True
  then show ?thesis
    by (simp add: assms(2) Create_def Exec_no_faults[OF assms(1)] insert_run_def new_run_row_def)
next
  case False
  then show ?thesis
    using create_fresh[OF assms(1) False] by (simp add: assms(2))
qed

text \<open>
  \<open>Heartbeat\<close> succeeds exactly on a running run and then moves only its \<open>last_heartbeat_at\<close>;
  a finished or unknown run is reported as not found and stays as it was, so a late heartbeat
  cannot resurrect it.
\<close>

lemma Heartbeat_spec:
  assumes "no_faults eng" and "runs_ok (task_runs d)"
  shows "fst (Heartbeat eng k at d) =
      (case at_key r_run_id k (task_runs d) of
         None \<Rightarrow> Inl ErrNotFound
       | Some r \<Rightarrow> if r_status r = StatusRunning then Inr () else Inl ErrNotFound) \<and>
    (\<forall>j. at_key r_run_id j (task_runs (snd (Heartbeat eng k at d))) =
       map_option (\<lambda>r. if j = k \<and> r_status r = StatusRunning
                        then r\<lparr>r_last_heartbeat_at := Some (stamp eng at)\<rparr> else r)
         (at_key r_run_id j (task_runs d)))"
proof -
  have k: "keyed r_run_id (task_runs d)"
    using assms(2) by (simp add: runs_ok_def)
  show ?thesis
    by (auto simp: Heartbeat_no_faults[OF assms(1) k] hb.at_key_upd set_heartbeat_def
        dest: at_key_SomeD intro!: map_option_cong)
qed

text \<open>
  \<open>Finish\<close> succeeds exactly on a known run, whatever its status (a run that timed out or
  already finished is finished again), stores the outcome with the milliseconds between
  \<open>started_at\<close> and \<open>finishedAt\<close>, and touches no other run.
\<close>

lemma Finish_spec:
  assumes "no_faults eng"
  shows "fst (Finish eng k status msg at d) =
      (if k \<in> r_run_id ` set (task_runs d) then Inr () else Inl ErrNotFound) \<and>
    (\<forall>j. at_key r_run_id j (task_runs (snd (Finish eng k status msg at d))) =
       map_option (\<lambda>r. if j = k
            then r\<lparr>r_status := status, r_finished_at := Some (stamp eng at),
                   r_duration_ms := Some (Milliseconds (Sub at (r_started_at r))),
                   r_error_message := Some msg\<rparr>
            else r)
         (at_key r_run_id j (task_runs d)))"
proof (cases "at_key r_run_id k (task_runs d)")
  case None
  have "at_key r_run_id j (task_runs d) = map_option (\<lambda>r. if j = k then f r else r) (at_key r_run_id j (task_runs d))"
    for j f
    using None by (cases "at_key r_run_id j (task_runs d)") auto
  moreover have "k \<notin> r_run_id ` set (task_runs d)"
    using None by (simp add: at_key_None)
  moreover have "Finish eng k status msg at d = (Inl ErrNotFound, d\<lparr>stmts := Suc (stmts d)\<rparr>)"
    using None by (simp add: Finish_no_faults[OF assms])
  ultimately show ?thesis by simp
next
  case (Some r)
  have "k \<in> r_run_id ` set (task_runs d)"
    using at_key_SomeD[OF Some] by auto
  moreover have "map_option (\<lambda>x. if j = k then set_finished eng (status, at, Milliseconds (Sub at (r_started_at r)), msg) x else x)
      (at_key r_run_id j (task_runs d)) =
    map_option (\<lambda>x. if j = k then x\<lparr>r_status := status, r_finished_at := Some (stamp eng at),
                     r_duration_ms := Some (Milliseconds (Sub at (r_started_at x))),
                     r_error_message := Some msg\<rparr> else x)
      (at_key r_run_id j (task_runs d))" for j
    using Some by (cases "at_key r_run_id j (task_runs d)") (auto simp: set_finished_def)
  ultimately show ?thesis
    by (simp add: Finish_no_faults[OF assms] Some fin.at_key_point)
qed

text \<open>
  Retention deletes exactly the finished runs whose \<open>finished_at\<close> is before the cutoff and
  reports how many they were. The statement tests only \<open>finished_at\<close>; that a running run is
  never deleted rests on the invariant.
\<close>

lemma DeleteOlderThan_spec:
  assumes "no_faults eng" and "runs_ok (task_runs d)"
    and "doomed = (\<lambda>r. r_status r \<noteq> StatusRunning \<and>
           (\<exists>t. r_finished_at r = Some t \<and> t < stamp eng cutoff))"
  shows "DeleteOlderThan eng cutoff d =
     (Inr (length (filter doomed (task_runs d))),
      d\<lparr>task_runs := filter (\<lambda>r. \<not> doomed r) (task_runs d), stmts := Suc (stmts d)\<rparr>) \<and>
   (\<forall>r\<in>set (task_runs d). r_status r = StatusRunning \<longrightarrow>
      r \<in> set (task_runs (snd (DeleteOlderThan eng cutoff d))))"
proof -
  have old: "older_than (stamp eng cutoff) r = doomed r" if "r \<in> set (task_runs d)" for r
    using that assms(2)
    by (auto simp: older_than_def runs_ok_def run_ok_def assms(3) split: option.split)
  have cnt: "cnt_where (older_than (stamp eng cutoff)) (task_runs d) = length (filter doomed (task_runs d))"
    unfolding cnt_where_def using old by (metis (mono_tags, lifting) filter_cong)
  have del: "del_where (older_than (stamp eng cutoff)) (task_runs d) = filter (\<lambda>r. \<not> doomed r) (task_runs d)"
    unfolding del_where_def using old by (auto intro: filter_cong)
  have "DeleteOlderThan eng cutoff d =
     (Inr (length (filter doomed (task_runs d))),
      d\<lparr>task_runs := filter (\<lambda>r. \<not> doomed r) (task_runs d), stmts := Suc (stmts d)\<rparr>)"
    by (simp add: DeleteOlderThan_def Exec_no_faults[OF assms(1)] delete_runs_def RowsAffected_def cnt del)
  then show ?thesis
    by (simp add: assms(3))
qed

text \<open>
  C33. \<open>List\<close> returns at most 200 runs, newest first, all of them matching the status filter (the
  empty filter matches everything), and a matching run it leaves out is no newer than any it
  returns.
\<close>

theorem TaskList_spec:
  assumes "no_faults eng" and "engine_ok eng"
    and "matches = (\<lambda>r. status = '''' \<or> TaskStatusString (r_status r) = status)"
  shows "\<exists>kept left. fst (TaskList eng status d) = Inr (map scanTaskRun kept) \<and>
     mset (kept @ left) = filter_mset matches (mset (task_runs d)) \<and>
     length kept = min 200 (length (filter matches (task_runs d))) \<and>
     sorted_wrt newest_first kept \<and>
     (\<forall>a\<in>set kept. \<forall>b\<in>set left. r_started_at b \<le> r_started_at a)"
proof -
  let ?scanned = "scan_runs eng (Suc (stmts d)) (task_runs d)"
  let ?all = "order_by newest_first (filter matches ?scanned)"
  have perm: "mset ?scanned = mset (task_runs d)"
    using assms(2) by (simp add: engine_ok_def)
  have "fst (TaskList eng status d) = Inr (map scanTaskRun (take 200 ?all))"
    by (simp add: TaskList_def Query_no_faults[OF assms(1)] list_rows_def assms(3))
  moreover have "mset (take 200 ?all @ drop 200 ?all) = filter_mset matches (mset (task_runs d))"
    by (simp add: perm)
  moreover have "length (filter matches ?scanned) = length (filter matches (task_runs d))"
    using perm by (metis mset_filter size_mset)
  moreover have "sorted_wrt newest_first (take 200 ?all)"
    using newest.sorted_order_by by (rule sorted_wrt_take)
  moreover have "\<forall>a\<in>set (take 200 ?all). \<forall>b\<in>set (drop 200 ?all). r_started_at b \<le> r_started_at a"
    using newest.limit_keeps_first by (simp add: newest_first_def)
  ultimately show ?thesis
    by (intro exI[of _ "take 200 ?all"] exI[of _ "drop 200 ?all"]) (simp add: min.commute)
qed

theorem TaskList_spec_witness:
  "\<exists>kept. fst (TaskList plain_engine ''success'' sample_db) = Inr (map scanTaskRun kept) \<and> length kept = 1"
proof -
  have "length (filter (\<lambda>r. ''success'' = [] \<or> TaskStatusString (r_status r) = ''success'') (task_runs sample_db)) = 1"
    by (simp add: sample_db_def sample_row_def)
  then show ?thesis
    using TaskList_spec[OF no_faults_plain engine_ok_plain refl, of "''success''" sample_db] by fastforce
qed

end
