(* ===== verification/ScheduleStore.thy ===== *)
theory ScheduleStore
  imports TaskStore
begin

text \<open>
  \<open>internal/store/schedule_store.go\<close>: every method of \<open>ScheduleStore\<close>. The cron library
  (github.com/robfig/cron) is the parameter \<open>ParseStandard\<close>: an error, or the schedule's \<open>Next\<close>
  function on instants. \<open>DetectMissed\<close> has the shape of \<open>SweepTimeouts\<close>: the same two interfaces
  of the prelude are discharged here on the schedule table.
\<close>

type_synonym cron = "string \<Rightarrow> string + (time \<Rightarrow> time)"

section \<open>The methods\<close>

definition new_sched_row ::
  "engine \<Rightarrow> string \<Rightarrow> int64 option \<Rightarrow> string option \<Rightarrow> int64 \<Rightarrow> time \<Rightarrow> sched_row"
where
  "new_sched_row eng taskName interval cronExpr grace now =
     \<lparr>s_task_name = taskName, s_expected_interval_seconds = interval, s_cron_expression = cronExpr,
      s_grace_period_seconds = grace, s_last_seen_at = None, s_status = ScheduleStatusOK,
      s_updated_at = stamp eng now\<rparr>"

definition set_registered :: "sched_row \<Rightarrow> sched_row \<Rightarrow> sched_row" where
  "set_registered excluded r =
     r\<lparr>s_expected_interval_seconds := s_expected_interval_seconds excluded,
       s_cron_expression := s_cron_expression excluded,
       s_grace_period_seconds := s_grace_period_seconds excluded,
       s_updated_at := s_updated_at excluded\<rparr>"

definition Upsert ::
  "engine \<Rightarrow> string \<Rightarrow> int64 option \<Rightarrow> string option \<Rightarrow> int64 \<Rightarrow> time \<Rightarrow> db \<Rightarrow> (store_error + unit) \<times> db"
where
  "Upsert eng taskName interval cronExpr grace now d =
     (let row = new_sched_row eng taskName interval cronExpr grace now in
      case Exec eng (upsert_schedule row (set_registered row)) d of
        (Inl err, d1) \<Rightarrow> (Inl err, d1)
      | (Inr _, d1) \<Rightarrow> (Inr (), d1))"

definition set_touched :: "engine \<Rightarrow> time \<Rightarrow> sched_row \<Rightarrow> sched_row" where
  "set_touched eng at r =
     r\<lparr>s_last_seen_at := Some (stamp eng at), s_status := ScheduleStatusOK, s_updated_at := stamp eng at\<rparr>"

definition Touch :: "engine \<Rightarrow> string \<Rightarrow> time \<Rightarrow> db \<Rightarrow> (store_error + unit) \<times> db" where
  "Touch eng taskName at d =
     (case Exec eng (update_schedules (\<lambda>r. s_task_name r = taskName) (set_touched eng at)) d of
        (Inl err, d1) \<Rightarrow> (Inl err, d1)
      | (Inr _, d1) \<Rightarrow> (Inr (), d1))"

definition scanSchedule :: "sched_row \<Rightarrow> Schedule" where
  "scanSchedule r =
     \<lparr>sched_TaskName = s_task_name r, ExpectedIntervalSeconds = s_expected_interval_seconds r,
      CronExpression = s_cron_expression r, GracePeriodSeconds = s_grace_period_seconds r,
      LastSeenAt = s_last_seen_at r, sched_Status = s_status r, UpdatedAt = s_updated_at r\<rparr>"

definition ScheduleGet :: "engine \<Rightarrow> string \<Rightarrow> db \<Rightarrow> (store_error + Schedule) \<times> db" where
  "ScheduleGet eng taskName d =
     (case Query eng (\<lambda>d0. at_key s_task_name taskName (task_schedules d0)) d of
        (Inl err, d1) \<Rightarrow> (Inl err, d1)
      | (Inr None, d1) \<Rightarrow> (Inl ErrNotFound, d1)
      | (Inr (Some row), d1) \<Rightarrow> (Inr (scanSchedule row), d1))"

definition by_task_name :: "engine \<Rightarrow> sched_row \<Rightarrow> sched_row \<Rightarrow> bool" where
  "by_task_name eng a b \<longleftrightarrow> collate eng (s_task_name a) (s_task_name b)"

definition ScheduleList :: "engine \<Rightarrow> db \<Rightarrow> (store_error + Schedule list) \<times> db" where
  "ScheduleList eng d =
     (case Query eng (\<lambda>d0. order_by (by_task_name eng) (scan_schedules eng (stmts d0) (task_schedules d0))) d of
        (Inl err, d1) \<Rightarrow> (Inl err, d1)
      | (Inr rows, d1) \<Rightarrow> (Inr (map scanSchedule rows), d1))"

definition ScheduleDelete :: "engine \<Rightarrow> string \<Rightarrow> db \<Rightarrow> (store_error + unit) \<times> db" where
  "ScheduleDelete eng taskName d =
     (let (res, d1) = Exec eng (delete_schedules (\<lambda>r. s_task_name r = taskName)) d
      in (checkRowsAffected res, d1))"

section \<open>DetectMissed\<close>

record sched_candidate =
  c_taskName :: string
  c_deadline :: time

definition seen_reference :: "sched_row \<Rightarrow> time" where
  "seen_reference r = (case s_last_seen_at r of Some t \<Rightarrow> t | None \<Rightarrow> s_updated_at r)"

text \<open>The deadline of a row; \<open>None\<close> when its stored cron expression does not parse.\<close>

definition row_deadline :: "cron \<Rightarrow> sched_row \<Rightarrow> time option" where
  "row_deadline ParseStandard r =
     (let grace = s_grace_period_seconds r * Second in
      case s_cron_expression r of
        Some expr \<Rightarrow>
          (case ParseStandard expr of
             Inl err \<Rightarrow> None
           | Inr nxt \<Rightarrow> Some (Add (nxt (seen_reference r)) grace))
      | None \<Rightarrow>
          Some (Add (seen_reference r)
            ((case s_expected_interval_seconds r of Some i \<Rightarrow> i | None \<Rightarrow> 0) * Second + grace)))"

definition scan_sched_candidate :: "cron \<Rightarrow> sched_row \<Rightarrow> sched_candidate option" where
  "scan_sched_candidate ParseStandard r =
     map_option (\<lambda>dl. \<lparr>c_taskName = s_task_name r, c_deadline = dl\<rparr>) (row_deadline ParseStandard r)"

definition select_ok_schedules :: "cron \<Rightarrow> engine \<Rightarrow> db \<Rightarrow> (store_error + sched_candidate list) \<times> db" where
  "select_ok_schedules ParseStandard eng d =
     Query eng (\<lambda>d0. List.map_filter (scan_sched_candidate ParseStandard)
       (filter (\<lambda>r. s_status r = ScheduleStatusOK)
         (scan_schedules eng (stmts d0) (task_schedules d0)))) d"

definition set_missed :: "engine \<Rightarrow> time \<Rightarrow> sched_row \<Rightarrow> sched_row" where
  "set_missed eng now r = r\<lparr>s_status := ScheduleStatusMissed, s_updated_at := stamp eng now\<rparr>"

definition missed_stmt :: "engine \<Rightarrow> time \<Rightarrow> sched_candidate \<Rightarrow> db \<Rightarrow> string + (nat \<times> db)" where
  "missed_stmt eng now c =
     update_schedules (\<lambda>r. s_task_name r = c_taskName c \<and> s_status r = ScheduleStatusOK)
       (set_missed eng now)"

fun detect_loop ::
  "engine \<Rightarrow> time \<Rightarrow> Schedule list \<Rightarrow> sched_candidate list \<Rightarrow> db \<Rightarrow> (Schedule list \<times> store_error option) \<times> db"
where
  "detect_loop eng now missed [] d = ((missed, None), d)"
| "detect_loop eng now missed (c # cs) d =
     (if Before now (c_deadline c) then detect_loop eng now missed cs d
      else (case Exec eng (missed_stmt eng now c) d of
              (Inl err, d1) \<Rightarrow> ((missed, Some err), d1)
            | (Inr res, d1) \<Rightarrow>
                (if fst (RowsAffected res) = 0 then detect_loop eng now missed cs d1
                 else (case ScheduleGet eng (c_taskName c) d1 of
                         (Inl err, d2) \<Rightarrow> ((missed, Some err), d2)
                       | (Inr sched, d2) \<Rightarrow> detect_loop eng now (missed @ [sched]) cs d2))))"

definition DetectMissed ::
  "cron \<Rightarrow> engine \<Rightarrow> time \<Rightarrow> db \<Rightarrow> (Schedule list \<times> store_error option) \<times> db"
where
  "DetectMissed ParseStandard eng now d =
     (case select_ok_schedules ParseStandard eng d of
        (Inl err, d1) \<Rightarrow> (([], Some err), d1)
      | (Inr candidates, d1) \<Rightarrow> detect_loop eng now [] candidates d1)"

section \<open>The contracts of the table, on this table\<close>

interpretation reg: key_kept s_task_name set_registered
  by unfold_locales (simp add: set_registered_def)

interpretation tch: key_kept s_task_name "set_touched eng" for eng
  by unfold_locales (simp add: set_touched_def)

interpretation mis: key_kept s_task_name "\<lambda>now. set_missed eng now" for eng
  by unfold_locales (simp add: set_missed_def)

interpretation detect: point_updates s_task_name "\<lambda>r. s_status r = ScheduleStatusOK" c_taskName
  "\<lambda>c. \<not> Before now (c_deadline c)" "\<lambda>c. set_missed eng now" for eng now
  by unfold_locales (simp_all add: set_missed_def)

lemma collation_by_task_name: "engine_ok eng \<Longrightarrow> collation (by_task_name eng)"
  unfolding engine_ok_def by unfold_locales (auto simp: by_task_name_def)

interpretation plain_names: collation "by_task_name plain_engine"
  by (rule collation_by_task_name) simp

section \<open>The invariant\<close>

definition scheds_ok :: "sched_row list \<Rightarrow> bool" where
  "scheds_ok rows \<longleftrightarrow> keyed s_task_name rows"

lemma snd_Upsert:
  "snd (Upsert eng n i c g now d) =
     snd (Exec eng (upsert_schedule (new_sched_row eng n i c g now)
                     (set_registered (new_sched_row eng n i c g now))) d)"
  by (simp add: Upsert_def Let_def split: prod.split sum.split)

lemma snd_Touch:
  "snd (Touch eng n at d) =
     snd (Exec eng (update_schedules (\<lambda>r. s_task_name r = n) (set_touched eng at)) d)"
  by (simp add: Touch_def split: prod.split sum.split)

lemma snd_ScheduleDelete:
  "snd (ScheduleDelete eng n d) = snd (Exec eng (delete_schedules (\<lambda>r. s_task_name r = n)) d)"
  by (simp add: ScheduleDelete_def Let_def split: prod.split)

lemma ScheduleGet_tables [simp]:
  "task_runs (snd (ScheduleGet eng k d)) = task_runs d"
  "task_schedules (snd (ScheduleGet eng k d)) = task_schedules d"
  by (auto simp: ScheduleGet_def Query_def Let_def split: option.splits)

lemma select_ok_schedules_tables [simp]:
  "task_runs (snd (select_ok_schedules cr eng d)) = task_runs d"
  "task_schedules (snd (select_ok_schedules cr eng d)) = task_schedules d"
  by (simp_all add: select_ok_schedules_def Query_tables)

lemma detect_loop_keeps:
  assumes upd: "\<And>(c :: sched_candidate) d. P d \<Longrightarrow> P (snd (Exec eng (missed_stmt eng now c) d))"
    and get: "\<And>k d. P d \<Longrightarrow> P (snd (ScheduleGet eng k d))"
  shows "P d \<Longrightarrow> P (snd (detect_loop eng now acc cs d))"
proof (induction cs arbitrary: acc d)
  case Nil
  then show ?case by simp
next
  case (Cons c cs)
  obtain res d1 where e: "Exec eng (missed_stmt eng now c) d = (res, d1)"
    by fastforce
  then have d1: "P d1"
    using upd[OF Cons.prems, of c] by simp
  obtain got d2 where g: "ScheduleGet eng (c_taskName c) d1 = (got, d2)"
    by fastforce
  then have d2: "P d2"
    using get[OF d1, of "c_taskName c"] by simp
  show ?case
    using Cons.prems d1 d2 by (simp add: e g Cons.IH split: sum.split)
qed

lemma DetectMissed_keeps:
  assumes upd: "\<And>(c :: sched_candidate) d. P d \<Longrightarrow> P (snd (Exec eng (missed_stmt eng now c) d))"
    and get: "\<And>k d. P d \<Longrightarrow> P (snd (ScheduleGet eng k d))"
    and sel: "\<And>d. P d \<Longrightarrow> P (snd (select_ok_schedules cr eng d))"
  shows "P d \<Longrightarrow> P (snd (DetectMissed cr eng now d))"
proof -
  assume "P d"
  obtain res d1 where s: "select_ok_schedules cr eng d = (res, d1)"
    by fastforce
  then have "P d1"
    using sel[OF \<open>P d\<close>] by simp
  then show "P (snd (DetectMissed cr eng now d))"
    using detect_loop_keeps[where P = P, OF upd get] by (simp add: DetectMissed_def s split: sum.split)
qed

lemma DetectMissed_inv:
  assumes "\<And>(c :: sched_candidate) rows. P rows \<Longrightarrow>
      P (upd_where (\<lambda>r. s_task_name r = c_taskName c \<and> s_status r = ScheduleStatusOK) (set_missed eng now) rows)"
    and "P (task_schedules d)"
  shows "P (task_schedules (snd (DetectMissed cr eng now d)))"
proof (rule DetectMissed_keeps[where P = "\<lambda>d. P (task_schedules d)"])
  fix c :: sched_candidate and d :: db
  assume P: "P (task_schedules d)"
  show "P (task_schedules (snd (Exec eng (missed_stmt eng now c) d)))"
    unfolding missed_stmt_def by (rule Exec_update_schedules_inv[where P = P, OF P assms(1)[OF P]])
qed (use assms(2) in simp_all)

lemma detect_runs [simp]:
  "task_runs (snd (detect_loop eng now acc cs d)) = task_runs d"
  "task_runs (snd (DetectMissed cr eng now d)) = task_runs d"
  using detect_loop_keeps[where P = "\<lambda>d'. task_runs d' = task_runs d" and d = d]
    DetectMissed_keeps[where P = "\<lambda>d'. task_runs d' = task_runs d" and d = d]
  by (simp_all add: missed_stmt_def)

lemma scheds_ok_Upsert [inv_intros]:
  "scheds_ok (task_schedules d) \<Longrightarrow> scheds_ok (task_schedules (snd (Upsert eng n i c g now d)))"
  unfolding snd_Upsert
  by (rule Exec_upsert_schedule_inv[where P = scheds_ok])
     (auto simp: scheds_ok_def intro: keyed_append reg.keyed_upd)

lemma scheds_ok_Touch [inv_intros]:
  "scheds_ok (task_schedules d) \<Longrightarrow> scheds_ok (task_schedules (snd (Touch eng n at d)))"
  unfolding snd_Touch
  by (rule Exec_update_schedules_inv[where P = scheds_ok]) (auto simp: scheds_ok_def intro: tch.keyed_upd)

lemma scheds_ok_ScheduleDelete [inv_intros]:
  "scheds_ok (task_schedules d) \<Longrightarrow> scheds_ok (task_schedules (snd (ScheduleDelete eng n d)))"
  unfolding snd_ScheduleDelete
  by (rule Exec_delete_schedules_inv[where P = scheds_ok]) (auto simp: scheds_ok_def intro: keyed_del)

lemma scheds_ok_DetectMissed [inv_intros]:
  "scheds_ok (task_schedules d) \<Longrightarrow> scheds_ok (task_schedules (snd (DetectMissed cr eng now d)))"
  by (rule DetectMissed_inv[where P = scheds_ok]) (auto simp: scheds_ok_def intro: mis.keyed_upd)

section \<open>Functional behaviour, without engine failures\<close>

lemma ScheduleGet_no_faults:
  "no_faults eng \<Longrightarrow> ScheduleGet eng k d =
     ((case at_key s_task_name k (task_schedules d) of None \<Rightarrow> Inl ErrNotFound | Some r \<Rightarrow> Inr (scanSchedule r)),
      d\<lparr>stmts := Suc (stmts d)\<rparr>)"
  by (simp add: ScheduleGet_def Query_no_faults split: option.split)

lemma Touch_no_faults:
  "no_faults eng \<Longrightarrow> Touch eng n at d =
     (Inr (), d\<lparr>task_schedules := upd_where (\<lambda>r. s_task_name r = n) (set_touched eng at) (task_schedules d),
               stmts := Suc (stmts d)\<rparr>)"
  by (simp add: Touch_def Exec_update_schedules)

lemma Upsert_no_faults:
  "no_faults eng \<Longrightarrow> Upsert eng n i c g now d =
     (Inr (), d\<lparr>task_schedules :=
        (if n \<in> s_task_name ` set (task_schedules d)
         then upd_where (\<lambda>r. s_task_name r = n) (set_registered (new_sched_row eng n i c g now)) (task_schedules d)
         else task_schedules d @ [new_sched_row eng n i c g now]),
        stmts := Suc (stmts d)\<rparr>)"
  by (simp add: Upsert_def Exec_no_faults upsert_schedule_def update_schedules_def new_sched_row_def Let_def)

text \<open>A row is overdue at \<open>now\<close> when it is \<open>ok\<close>, has a deadline and the deadline has come.\<close>

definition overdue :: "cron \<Rightarrow> time \<Rightarrow> sched_row \<Rightarrow> bool" where
  "overdue ParseStandard now r \<longleftrightarrow> s_status r = ScheduleStatusOK \<and>
     (case row_deadline ParseStandard r of None \<Rightarrow> False | Some dl \<Rightarrow> dl \<le> now)"

definition watched :: "cron \<Rightarrow> sched_row \<Rightarrow> bool" where
  "watched ParseStandard r \<longleftrightarrow> s_status r = ScheduleStatusOK \<and> row_deadline ParseStandard r \<noteq> None"

abbreviation cand_of :: "cron \<Rightarrow> sched_row \<Rightarrow> sched_candidate" where
  "cand_of ParseStandard r \<equiv> \<lparr>c_taskName = s_task_name r, c_deadline = the (row_deadline ParseStandard r)\<rparr>"

lemma select_as_filter:
  "List.map_filter (scan_sched_candidate cr) (filter (\<lambda>r. s_status r = ScheduleStatusOK) rows) =
     map (cand_of cr) (filter (watched cr) rows)"
  by (induction rows) (auto simp: List.map_filter_def scan_sched_candidate_def watched_def)

lemma overdue_watched: "overdue cr now r \<longleftrightarrow> watched cr r \<and> \<not> Before now (c_deadline (cand_of cr r))"
  by (auto simp: overdue_def watched_def Before_def split: option.split)

lemma detect_loop_no_faults:
  assumes nf: "no_faults eng"
  shows "keyed s_task_name (task_schedules d) \<Longrightarrow> distinct (map s_task_name rs) \<Longrightarrow>
    set rs \<subseteq> set (task_schedules d) \<Longrightarrow> (\<forall>r\<in>set rs. s_status r = ScheduleStatusOK) \<Longrightarrow>
    fst (detect_loop eng now acc (map (cand_of cr) rs) d) =
      (acc @ map (\<lambda>r. scanSchedule (set_missed eng now r))
              (filter (\<lambda>r. \<not> Before now (c_deadline (cand_of cr r))) rs), None) \<and>
    task_schedules (snd (detect_loop eng now acc (map (cand_of cr) rs) d)) =
      point_loop s_task_name (\<lambda>r. s_status r = ScheduleStatusOK) c_taskName
        (\<lambda>c. \<not> Before now (c_deadline c)) (\<lambda>c. set_missed eng now) (map (cand_of cr) rs) (task_schedules d) \<and>
    task_runs (snd (detect_loop eng now acc (map (cand_of cr) rs) d)) = task_runs d"
proof (induction rs arbitrary: acc d)
  case Nil
  then show ?case by simp
next
  case (Cons r rs)
  show ?case
  proof (cases "Before now (c_deadline (cand_of cr r))")
    case True
    then show ?thesis using Cons by simp
  next
    case False
    let ?p = "\<lambda>x. s_task_name x = s_task_name r \<and> s_status x = ScheduleStatusOK"
    let ?rows = "upd_where ?p (set_missed eng now) (task_schedules d)"
    let ?d1 = "d\<lparr>task_schedules := ?rows, stmts := Suc (stmts d)\<rparr>"
    have mem: "r \<in> set (task_schedules d)" "?p r"
      using Cons.prems by simp_all
    then have hit: "cnt_where ?p (task_schedules d) \<noteq> 0"
      by (auto simp: table_simps)
    have got: "at_key s_task_name (s_task_name r) ?rows = Some (set_missed eng now r)"
      using mem Cons.prems(1) by (simp add: mis.at_key_upd at_key_mem)
    have rest: "set rs \<subseteq> set ?rows"
      using Cons.prems(2,3) by (force simp: table_simps image_iff)
    have step: "detect_loop eng now acc (map (cand_of cr) (r # rs)) d =
      detect_loop eng now (acc @ [scanSchedule (set_missed eng now r)]) (map (cand_of cr) rs)
        (?d1\<lparr>stmts := Suc (Suc (stmts d))\<rparr>)"
      using False hit
      by (simp add: missed_stmt_def Exec_update_schedules[OF nf] RowsAffected_def
          ScheduleGet_no_faults[OF nf] got)
    show ?thesis
      unfolding step
      using False Cons.prems rest
        Cons.IH[of "?d1\<lparr>stmts := Suc (Suc (stmts d))\<rparr>" "acc @ [scanSchedule (set_missed eng now r)]"]
      by (simp add: mis.keyed_upd)
  qed
qed

lemma DetectMissed_no_faults:
  assumes nf: "no_faults eng" and ok: "engine_ok eng" and k: "keyed s_task_name (task_schedules d)"
  shows "fst (DetectMissed cr eng now d) =
      (map (\<lambda>r. scanSchedule (set_missed eng now r))
         (filter (overdue cr now) (scan_schedules eng (Suc (stmts d)) (task_schedules d))), None)"
    and "task_schedules (snd (DetectMissed cr eng now d)) =
      upd_where (overdue cr now) (set_missed eng now) (task_schedules d)"
    and "task_runs (snd (DetectMissed cr eng now d)) = task_runs d"
proof -
  let ?d1 = "d\<lparr>stmts := Suc (stmts d)\<rparr>"
  let ?scanned = "scan_schedules eng (Suc (stmts d)) (task_schedules d)"
  let ?rs = "filter (watched cr) ?scanned"
  have perm: "mset ?scanned = mset (task_schedules d)"
    using ok by (simp add: engine_ok_def)
  then have dist: "distinct (map s_task_name ?rs)"
    using mset_eq_distinct_map[OF perm k[unfolded keyed_def]] by (simp add: keyed_def distinct_map_filter)
  have sub: "set ?rs \<subseteq> set (task_schedules d)" "\<forall>r\<in>set ?rs. s_status r = ScheduleStatusOK"
    using mset_eq_setD[OF perm] by (auto simp: watched_def)
  have run: "DetectMissed cr eng now d = detect_loop eng now [] (map (cand_of cr) ?rs) ?d1"
    by (simp add: DetectMissed_def select_ok_schedules_def Query_no_faults[OF nf] select_as_filter)
  have due: "overdue cr now = (\<lambda>r. watched cr r \<and> \<not> Before now (c_deadline (cand_of cr r)))"
    by (rule ext) (rule overdue_watched)
  note loop = detect_loop_no_faults[OF nf, of ?d1 ?rs now "[]" cr]
  show "fst (DetectMissed cr eng now d) =
      (map (\<lambda>r. scanSchedule (set_missed eng now r)) (filter (overdue cr now) ?scanned), None)"
    using loop k dist sub by (simp add: run due)
  have "point_loop s_task_name (\<lambda>r. s_status r = ScheduleStatusOK) c_taskName
      (\<lambda>c. \<not> Before now (c_deadline c)) (\<lambda>c. set_missed eng now) (map (cand_of cr) ?rs) (task_schedules d) =
    upd_where (\<lambda>r. watched cr r \<and> \<not> Before now (c_deadline (cand_of cr r))) (set_missed eng now) (task_schedules d)"
    by (rule detect.point_loop_batch[OF refl perm _ k]) (auto simp: watched_def)
  then show "task_schedules (snd (DetectMissed cr eng now d)) =
      upd_where (overdue cr now) (set_missed eng now) (task_schedules d)"
    using loop k dist sub by (simp add: run due)
  show "task_runs (snd (DetectMissed cr eng now d)) = task_runs d"
    using loop k dist sub by (simp add: run)
qed

lemma not_overdue_missed [simp]: "\<not> overdue cr now (set_missed eng now' r)"
  by (simp add: overdue_def set_missed_def)

section \<open>Properties\<close>

text \<open>For the witnesses: a schedule of one run a minute with ten seconds of grace, and a stand-in
  for the cron library that accepts one expression, whose next occurrence is an hour later.\<close>

definition sample_sched :: "time option \<Rightarrow> sched_row" where
  "sample_sched seen =
     \<lparr>s_task_name = ''job'', s_expected_interval_seconds = Some 60, s_cron_expression = None,
      s_grace_period_seconds = 10, s_last_seen_at = seen, s_status = ScheduleStatusOK, s_updated_at = 0\<rparr>"

definition sample_scheds :: db where
  "sample_scheds = \<lparr>task_runs = [], task_schedules = [sample_sched None], stmts = 0\<rparr>"

definition hourly :: cron where
  "hourly expr = (if expr = ''@hourly'' then Inr (\<lambda>t. t + 3600000000000) else Inl ''parse error'')"

lemma scheds_ok_sample [simp]: "scheds_ok (task_schedules sample_scheds)"
  by (simp add: scheds_ok_def keyed_def sample_scheds_def)

lemma at_key_sample_sched [simp]:
  "at_key s_task_name ''job'' (task_schedules sample_scheds) = Some (sample_sched None)"
  by (simp add: at_key_def sample_scheds_def sample_sched_def)

lemma row_deadline_sample: "row_deadline cr (sample_sched None) = Some 70000000000"
  by (simp add: row_deadline_def sample_sched_def seen_reference_def Add_def Second_def)

text \<open>
  C2. One pass of \<open>DetectMissed\<close> flips to \<open>missed\<close> exactly the schedules that are \<open>ok\<close> and whose
  deadline has come, leaves every other schedule as it is (the ones whose stored cron
  expression does not parse included) and returns the flipped ones, each once.
\<close>

theorem DetectMissed_exact:
  assumes "no_faults eng" and "engine_ok eng" and "scheds_ok (task_schedules d)"
  shows "task_schedules (snd (DetectMissed cr eng now d)) =
      upd_where (overdue cr now) (set_missed eng now) (task_schedules d) \<and>
    snd (fst (DetectMissed cr eng now d)) = None \<and>
    mset (fst (fst (DetectMissed cr eng now d))) =
      image_mset (\<lambda>r. scanSchedule (set_missed eng now r))
        (filter_mset (overdue cr now) (mset (task_schedules d)))"
proof -
  have "mset (scan_schedules eng (Suc (stmts d)) (task_schedules d)) = mset (task_schedules d)"
    using assms(2) by (simp add: engine_ok_def)
  then show ?thesis
    using DetectMissed_no_faults[OF assms(1,2) assms(3)[unfolded scheds_ok_def], of cr now] by simp
qed

theorem DetectMissed_exact_witness:
  "s_status (hd (task_schedules (snd (DetectMissed hourly plain_engine 70000000000 sample_scheds)))) =
     ScheduleStatusMissed"
proof -
  have "overdue hourly 70000000000 (sample_sched None)"
    by (simp add: overdue_def row_deadline_sample) (simp add: sample_sched_def)
  then show ?thesis
    using DetectMissed_exact[OF no_faults_plain engine_ok_plain scheds_ok_sample, of hourly 70000000000]
    by (simp add: upd_where_def sample_scheds_def set_missed_def)
qed

text \<open>
  What the deadline means, while interval and grace are within 292 years: in interval mode a
  schedule is overdue once interval plus grace have passed since the last start (since
  \<open>updated_at\<close> when there was none), in cron mode once the grace has passed after the next
  occurrence following that instant.
\<close>

lemma overdue_meaning:
  assumes "s_status r = ScheduleStatusOK" and "\<bar>sint (s_grace_period_seconds r)\<bar> \<le> max_seconds"
    and "s_cron_expression r = None \<Longrightarrow> s_expected_interval_seconds r = Some i \<and>
      \<bar>sint i\<bar> \<le> max_seconds \<and> \<bar>sint i + sint (s_grace_period_seconds r)\<bar> \<le> max_seconds"
    and "\<And>e. s_cron_expression r = Some e \<Longrightarrow> cr e = Inr nxt"
  shows "overdue cr now r \<longleftrightarrow>
    (case s_cron_expression r of
       None \<Rightarrow> seen_reference r + (sint i + sint (s_grace_period_seconds r)) * 1000000000 \<le> now
     | Some e \<Rightarrow> nxt (seen_reference r) + sint (s_grace_period_seconds r) * 1000000000 \<le> now)"
proof (cases "s_cron_expression r")
  case None
  with assms(3) have i: "s_expected_interval_seconds r = Some i" "\<bar>sint i\<bar> \<le> max_seconds"
    "\<bar>sint i + sint (s_grace_period_seconds r)\<bar> \<le> max_seconds"
    by simp_all
  have "in_int64 (sint (i * Second) + sint (s_grace_period_seconds r * Second))"
    unfolding sint_seconds[OF i(2)] sint_seconds[OF assms(2)] in_int64_def
    using i(3) by (auto simp: max_seconds_def abs_le_iff)
  then show ?thesis
    using None assms(1,2) i
    by (simp add: overdue_def row_deadline_def Let_def Add_def sint_add_exact sint_seconds distrib_right)
next
  case (Some e)
  then show ?thesis
    using assms by (simp add: overdue_def row_deadline_def Let_def Add_def sint_seconds)
qed

text \<open>
  One alert per missed episode: whatever a pass of \<open>DetectMissed\<close> returns is not returned by a
  later pass, as long as no start, registration or deletion comes between them.
\<close>

lemma DetectMissed_alerts_once:
  assumes "no_faults eng" and "engine_ok eng" and "scheds_ok (task_schedules d)"
    and "d1 = snd (DetectMissed cr eng now d)"
  shows "sched_TaskName ` set (fst (fst (DetectMissed cr eng now d))) \<inter>
         sched_TaskName ` set (fst (fst (DetectMissed cr eng later d1))) = {}"
proof -
  have k: "keyed s_task_name (task_schedules d)"
    using assms(3) by (simp add: scheds_ok_def)
  have k1: "keyed s_task_name (task_schedules d1)"
    using scheds_ok_DetectMissed[OF assms(3)] by (simp add: assms(4) scheds_ok_def)
  have rows: "task_schedules d1 = upd_where (overdue cr now) (set_missed eng now) (task_schedules d)"
    using DetectMissed_no_faults(2)[OF assms(1,2) k] by (simp add: assms(4))
  have perm: "set (scan_schedules eng n rs) = set rs" for n rs
    using assms(2) by (metis engine_ok_def set_mset_mset)
  have first: "\<exists>r\<in>set (task_schedules d). overdue cr now r \<and> s_task_name r = n"
    if "n \<in> sched_TaskName ` set (fst (fst (DetectMissed cr eng now d)))" for n
    using that by (auto simp: DetectMissed_no_faults(1)[OF assms(1,2) k] perm scanSchedule_def set_missed_def)
  have second: "\<exists>r\<in>set (task_schedules d1). overdue cr later r \<and> s_task_name r = n"
    if "n \<in> sched_TaskName ` set (fst (fst (DetectMissed cr eng later d1)))" for n
    using that by (auto simp: DetectMissed_no_faults(1)[OF assms(1,2) k1] perm scanSchedule_def set_missed_def)
  have False if "r \<in> set (task_schedules d)" "overdue cr now r" "r' \<in> set (task_schedules d1)"
    "overdue cr later r'" "s_task_name r' = s_task_name r" for r r'
  proof -
    have "set_missed eng now r \<in> set (task_schedules d1)"
      using that(1,2) by (force simp: rows set_upd_where)
    moreover have "s_task_name (set_missed eng now r) = s_task_name r'"
      using that(5) by (simp add: set_missed_def)
    ultimately have "r' = set_missed eng now r"
      using k1 that(3) by (auto simp: keyed_def distinct_map dest: inj_onD)
    then show False using that(4) by simp
  qed
  then show ?thesis
    using first second by (metis disjoint_iff)
qed

text \<open>
  A start clears a missed schedule and restarts its deadline from that start; a start of a
  task without a schedule is no error and changes nothing.
\<close>

lemma Touch_spec:
  assumes "no_faults eng"
  shows "fst (Touch eng n at d) = Inr () \<and>
    (\<forall>j. at_key s_task_name j (task_schedules (snd (Touch eng n at d))) =
       map_option (\<lambda>r. if j = n then r\<lparr>s_last_seen_at := Some (stamp eng at),
                         s_status := ScheduleStatusOK, s_updated_at := stamp eng at\<rparr> else r)
         (at_key s_task_name j (task_schedules d))) \<and>
    (n \<notin> s_task_name ` set (task_schedules d) \<longrightarrow>
       task_schedules (snd (Touch eng n at d)) = task_schedules d)"
proof -
  have "n \<notin> s_task_name ` set (task_schedules d) \<Longrightarrow>
      upd_where (\<lambda>r. s_task_name r = n) (set_touched eng at) (task_schedules d) = task_schedules d"
    by (rule upd_where_none) auto
  then show ?thesis
    using tch.at_key_point[of _ n eng at "task_schedules d"]
    by (simp add: Touch_no_faults[OF assms] set_touched_def cong: if_cong)
qed

lemma schedule_after_Upsert:
  assumes "no_faults eng" and "d1 = snd (Upsert eng n i c g now d)"
  shows "at_key s_task_name j (task_schedules d1) =
      (if j = n
       then Some (case at_key s_task_name n (task_schedules d) of
           None \<Rightarrow> new_sched_row eng n i c g now
         | Some r \<Rightarrow> r\<lparr>s_expected_interval_seconds := i, s_cron_expression := c,
                        s_grace_period_seconds := g, s_updated_at := stamp eng now\<rparr>)
       else at_key s_task_name j (task_schedules d))"
proof (cases "at_key s_task_name n (task_schedules d)")
  case None
  then have "n \<notin> s_task_name ` set (task_schedules d)"
    by (simp add: at_key_None)
  then show ?thesis
    using None by (auto simp: assms(2) Upsert_no_faults[OF assms(1)] at_key_append new_sched_row_def
        split: option.split)
next
  case (Some r)
  then have "n \<in> s_task_name ` set (task_schedules d)"
    by (auto dest: at_key_SomeD)
  then show ?thesis
    using Some reg.at_key_point[of j n "new_sched_row eng n i c g now" "task_schedules d"]
    by (auto simp: assms(2) Upsert_no_faults[OF assms(1)] set_registered_def new_sched_row_def
        option.map_ident)
qed

text \<open>
  Registering a known task again replaces the expectation and \<open>updated_at\<close> but neither
  \<open>last_seen_at\<close> nor the status; an unknown task gets a fresh \<open>ok\<close> row; no other schedule is
  touched. For a schedule that was never seen this moves the instant its deadline counts from
  to the new registration.
\<close>

lemma Upsert_spec:
  assumes "no_faults eng" and "d1 = snd (Upsert eng n i c g now d)"
  shows "fst (Upsert eng n i c g now d) = Inr () \<and>
    (\<forall>j. at_key s_task_name j (task_schedules d1) =
       (if j = n
        then Some (case at_key s_task_name n (task_schedules d) of
            None \<Rightarrow> new_sched_row eng n i c g now
          | Some r \<Rightarrow> r\<lparr>s_expected_interval_seconds := i, s_cron_expression := c,
                         s_grace_period_seconds := g, s_updated_at := stamp eng now\<rparr>)
        else at_key s_task_name j (task_schedules d))) \<and>
    (\<forall>r. at_key s_task_name n (task_schedules d1) = Some r \<longrightarrow> s_last_seen_at r = None \<longrightarrow>
       seen_reference r = stamp eng now)"
  using schedule_after_Upsert[OF assms]
  by (auto simp: Upsert_no_faults[OF assms(1)] seen_reference_def new_sched_row_def split: option.splits)

text \<open>
  \<open>List\<close> returns every schedule once, ordered by task name as the engine compares names.
\<close>

lemma ScheduleList_spec:
  assumes "no_faults eng" and "engine_ok eng"
  shows "\<exists>rows. fst (ScheduleList eng d) = Inr (map scanSchedule rows) \<and>
     mset rows = mset (task_schedules d) \<and>
     sorted_wrt (\<lambda>a b. collate eng (s_task_name a) (s_task_name b)) rows"
proof -
  let ?rows = "order_by (by_task_name eng) (scan_schedules eng (Suc (stmts d)) (task_schedules d))"
  have "sorted_wrt (by_task_name eng) ?rows"
    by (rule collation.sorted_order_by[OF collation_by_task_name[OF assms(2)]])
  moreover have "mset ?rows = mset (task_schedules d)"
    using assms(2) by (simp add: engine_ok_def)
  ultimately show ?thesis
    by (intro exI[of _ ?rows])
       (simp add: ScheduleList_def Query_no_faults[OF assms(1)] by_task_name_def[abs_def])
qed

end
