(* ===== verification/Broker.thy ===== *)
theory Broker
  imports ScheduleStore
begin

text \<open>
  \<open>internal/broker/broker.go\<close>: the in-memory hub. A Go channel is an identifier into the heap of
  channels (\<open>chans\<close>): its buffered events and whether it is closed. \<open>subs\<close> lists the keys of the
  map \<open>h.subs\<close> in the order an iteration visits them, which
  turns out not to matter. Sending on a closed channel or closing one twice panics in Go: the model
  records it in \<open>panicked\<close>, and the invariant shows it never happens. The mutex makes each
  method one atomic step. A hub never blocks: the \<open>select\<close> of \<open>Publish\<close> has a \<open>default\<close>.
\<close>

datatype EventType =
    EventStarted | EventHeartbeat | EventSucceeded | EventFailed | EventTimeout | EventScheduleMissed

fun EventTypeString :: "EventType \<Rightarrow> string" where
  "EventTypeString EventStarted = ''task.started''"
| "EventTypeString EventHeartbeat = ''task.heartbeat''"
| "EventTypeString EventSucceeded = ''task.succeeded''"
| "EventTypeString EventFailed = ''task.failed''"
| "EventTypeString EventTimeout = ''task.timeout''"
| "EventTypeString EventScheduleMissed = ''schedule.missed''"

record Event =
  evt_Type :: EventType
  evt_Task :: TaskRun

record channel =
  buf :: "Event list"
  closed :: bool

record Hub =
  subs :: "nat list"
  chans :: "nat \<Rightarrow> channel"
  next_chan :: nat
  panicked :: bool

definition chan_size :: nat where "chan_size = 16"

definition empty_chan :: channel where
  "empty_chan = \<lparr>buf = [], closed = False\<rparr>"

section \<open>The methods\<close>

definition NewHub :: Hub where
  "NewHub = \<lparr>subs = [], chans = (\<lambda>_. empty_chan), next_chan = 0, panicked = False\<rparr>"

definition Subscribe :: "Hub \<Rightarrow> nat \<times> Hub" where
  "Subscribe h =
     (let ch = next_chan h in
      (ch, h\<lparr>subs := subs h @ [ch], chans := (chans h)(ch := empty_chan), next_chan := Suc ch\<rparr>))"

definition close_chan :: "nat \<Rightarrow> Hub \<Rightarrow> Hub" where
  "close_chan ch h =
     (if closed (chans h ch) then h\<lparr>panicked := True\<rparr>
      else h\<lparr>chans := (chans h)(ch := (chans h ch)\<lparr>closed := True\<rparr>)\<rparr>)"

definition unsubscribe :: "nat \<Rightarrow> Hub \<Rightarrow> Hub" where
  "unsubscribe ch h =
     (if ch \<in> set (subs h) then close_chan ch (h\<lparr>subs := removeAll ch (subs h)\<rparr>) else h)"

text \<open>One iteration of the loop of \<open>Publish\<close>: \<open>select { case ch <- evt: default: }\<close>.\<close>

definition try_send :: "Event \<Rightarrow> nat \<Rightarrow> Hub \<Rightarrow> Hub" where
  "try_send evt ch h =
     (if panicked h then h
      else if closed (chans h ch) then h\<lparr>panicked := True\<rparr>
      else if length (buf (chans h ch)) < chan_size
           then h\<lparr>chans := (chans h)(ch := (chans h ch)\<lparr>buf := buf (chans h ch) @ [evt]\<rparr>)\<rparr>
           else h)"

definition Publish :: "Event \<Rightarrow> Hub \<Rightarrow> Hub" where
  "Publish evt h = fold (try_send evt) (subs h) h"

text \<open>Receiving from a subscription: a closed channel is drained before it reports the end.\<close>

datatype received = Received Event | ChanClosed | WouldBlock

definition receive :: "nat \<Rightarrow> Hub \<Rightarrow> received \<times> Hub" where
  "receive ch h =
     (case buf (chans h ch) of
        e # es \<Rightarrow> (Received e, h\<lparr>chans := (chans h)(ch := (chans h ch)\<lparr>buf := es\<rparr>)\<rparr>)
      | [] \<Rightarrow> (if closed (chans h ch) then ChanClosed else WouldBlock, h))"

section \<open>The invariant\<close>

definition hub_ok :: "Hub \<Rightarrow> bool" where
  "hub_ok h \<longleftrightarrow> distinct (subs h) \<and> \<not> panicked h \<and>
     (\<forall>ch. ch \<in> set (subs h) \<longleftrightarrow> ch < next_chan h \<and> \<not> closed (chans h ch)) \<and>
     (\<forall>ch. length (buf (chans h ch)) \<le> chan_size)"

lemma hub_ok_New [simp]: "hub_ok NewHub"
  by (simp add: hub_ok_def NewHub_def empty_chan_def)

lemma subs_New [simp]: "subs NewHub = []"
  by (simp add: NewHub_def)

lemma hub_ok_Subscribe [inv_intros]: "hub_ok h \<Longrightarrow> hub_ok (snd (Subscribe h))"
  by (auto simp: hub_ok_def Subscribe_def Let_def empty_chan_def less_Suc_eq)

lemma hub_ok_unsubscribe [inv_intros]: "hub_ok h \<Longrightarrow> hub_ok (unsubscribe ch h)"
  by (auto simp: hub_ok_def unsubscribe_def close_chan_def distinct_removeAll)

lemma hub_ok_receive [inv_intros]: "hub_ok h \<Longrightarrow> hub_ok (snd (receive ch h))"
  by (auto simp: hub_ok_def receive_def split: list.split)
     (metis Suc_leD length_Cons)

lemma try_send_fields [simp]:
  "subs (try_send evt ch h) = subs h" "next_chan (try_send evt ch h) = next_chan h"
  "closed (chans (try_send evt ch h) c) = closed (chans h c)"
  by (auto simp: try_send_def)

lemma try_send_buf:
  "\<not> panicked h \<Longrightarrow> \<not> closed (chans h ch) \<Longrightarrow>
     \<not> panicked (try_send evt ch h) \<and>
     buf (chans (try_send evt ch h) c) =
       (if c = ch \<and> length (buf (chans h c)) < chan_size then buf (chans h c) @ [evt] else buf (chans h c))"
  by (auto simp: try_send_def)

lemma fold_try_send_fields [simp]:
  "subs (fold (try_send evt) chs h) = subs h" "next_chan (fold (try_send evt) chs h) = next_chan h"
  "closed (chans (fold (try_send evt) chs h) c) = closed (chans h c)"
  by (induction chs arbitrary: h) auto

lemma fold_try_send_buf:
  assumes "\<not> panicked h" and "\<forall>ch\<in>set chs. \<not> closed (chans h ch)" and "distinct chs"
  shows "\<not> panicked (fold (try_send evt) chs h) \<and>
    buf (chans (fold (try_send evt) chs h) c) =
      (if c \<in> set chs \<and> length (buf (chans h c)) < chan_size then buf (chans h c) @ [evt] else buf (chans h c))"
  using assms
proof (induction chs arbitrary: h)
  case Nil
  then show ?case by simp
next
  case (Cons ch chs)
  have "\<not> panicked (try_send evt ch h)"
    using Cons.prems try_send_buf by simp
  then show ?case
    using Cons.prems Cons.IH[of "try_send evt ch h"] try_send_buf[of h ch evt c] by auto
qed

lemma Publish_fields [simp]:
  "subs (Publish evt h) = subs h" "next_chan (Publish evt h) = next_chan h"
  "closed (chans (Publish evt h) c) = closed (chans h c)"
  by (simp_all add: Publish_def)

lemma Publish_buf:
  assumes "hub_ok h"
  shows "\<not> panicked (Publish evt h)"
    and "buf (chans (Publish evt h) c) =
      (if c \<in> set (subs h) \<and> length (buf (chans h c)) < chan_size
       then buf (chans h c) @ [evt] else buf (chans h c))"
  using assms fold_try_send_buf[of h "subs h" evt c] by (simp_all add: Publish_def hub_ok_def)

lemma hub_ok_Publish [inv_intros]: "hub_ok h \<Longrightarrow> hub_ok (Publish evt h)"
  using Publish_buf[of h evt] by (simp add: hub_ok_def)

section \<open>The contract publishers rely on\<close>

text \<open>
  A publisher sees the hub through its subscribers' queues: an event is appended to the queue of
  every live subscriber that has room, and nothing else changes. Publishing a batch then
  delivers the longest prefix of the batch that fits.
\<close>

locale pubsub =
  fixes publish :: "'e \<Rightarrow> 'h \<Rightarrow> 'h" and queue :: "'h \<Rightarrow> 'c \<Rightarrow> 'e list"
    and live :: "'h \<Rightarrow> 'c \<Rightarrow> bool" and capacity :: nat and ok :: "'h \<Rightarrow> bool"
  assumes ok_publish: "ok h \<Longrightarrow> ok (publish e h)"
    and live_publish: "live (publish e h) c = live h c"
    and queue_publish: "ok h \<Longrightarrow> queue (publish e h) c =
      (if live h c \<and> length (queue h c) < capacity then queue h c @ [e] else queue h c)"
begin

lemma ok_batch: "ok h \<Longrightarrow> ok (fold publish es h)"
  by (induction es arbitrary: h) (auto intro: ok_publish)

lemma live_batch: "live (fold publish es h) c = live h c"
  by (induction es arbitrary: h) (auto simp: live_publish)

lemma queue_batch:
  "ok h \<Longrightarrow> queue (fold publish es h) c =
     (if live h c then queue h c @ take (capacity - length (queue h c)) es else queue h c)"
proof (induction es arbitrary: h)
  case Nil
  then show ?case by simp
next
  case (Cons e es)
  then show ?case
    by (auto simp: ok_publish live_publish queue_publish Suc_diff_Suc[symmetric] not_less)
qed

end

interpretation hub: pubsub Publish "\<lambda>h c. buf (chans h c)" "\<lambda>h c. c \<in> set (subs h)" chan_size hub_ok
  by unfold_locales (auto simp: Publish_buf intro: hub_ok_Publish)

section \<open>Reachable hubs\<close>

inductive hub_step :: "Hub \<Rightarrow> Hub \<Rightarrow> bool" where
  subscribe: "hub_step h (snd (Subscribe h))"
| unsubscribe: "ch < next_chan h \<Longrightarrow> hub_step h (unsubscribe ch h)"
| publish: "hub_step h (Publish evt h)"
| receive: "hub_step h (snd (receive ch h))"

interpretation hubs: invariant_system "\<lambda>h. h = NewHub" hub_step hub_ok
proof unfold_locales
  fix h h'
  assume ok: "hub_ok h" and "hub_step h h'"
  from this(2) show "hub_ok h'"
    using ok by cases (auto intro: inv_intros)
qed simp

section \<open>Properties\<close>

definition sample_event :: Event where
  "sample_event = \<lparr>evt_Type = EventTimeout, evt_Task = scanTaskRun (sample_row ''a'' StatusTimeout)\<rparr>"

text \<open>
  C13. In every history of subscriptions, cancellations, publications and receptions the hub never
  panics (no send on a closed channel, no double close) and no subscriber ever holds more than
  16 pending events.
\<close>

theorem hub_never_panics:
  assumes "hub_step\<^sup>*\<^sup>* NewHub h"
  shows "\<not> panicked h \<and> (\<forall>ch. length (buf (chans h ch)) \<le> 16)"
  using hubs.inv_reachable[OF refl assms] by (simp add: hub_ok_def chan_size_def)

theorem hub_never_panics_witness:
  "\<not> panicked (unsubscribe 0 (Publish sample_event (snd (Subscribe NewHub))))"
proof -
  let ?h1 = "snd (Subscribe NewHub)" and ?h2 = "Publish sample_event (snd (Subscribe NewHub))"
  have "hub_step NewHub ?h1"
    by (rule hub_step.subscribe)
  moreover have "hub_step ?h1 ?h2"
    by (rule hub_step.publish)
  moreover have "hub_step ?h2 (unsubscribe 0 ?h2)"
    by (rule hub_step.unsubscribe) (simp add: Subscribe_def Let_def)
  ultimately have "hub_step\<^sup>*\<^sup>* NewHub (unsubscribe 0 ?h2)"
    by (meson r_into_rtranclp rtranclp_trans)
  then show ?thesis by (rule hub_never_panics[THEN conjunct1])
qed

text \<open>
  \<open>Publish\<close> appends the event to the queue of every subscriber that has room, drops it for the
  full ones and touches nothing else; the iteration order of the subscriber map is irrelevant.
\<close>

lemma Publish_any_order:
  assumes "hub_ok h" and "mset order = mset (subs h)"
  shows "fold (try_send evt) order h = Publish evt h \<and>
    (\<forall>ch. buf (chans (Publish evt h) ch) =
       (if ch \<in> set (subs h) \<and> length (buf (chans h ch)) < 16
        then buf (chans h ch) @ [evt] else buf (chans h ch)))"
proof -
  have s: "set order = set (subs h)" and d: "distinct order"
    using assms by (auto simp: hub_ok_def dest: mset_eq_setD mset_eq_imp_distinct_iff)
  have open_chans: "\<forall>ch\<in>set (subs h). \<not> closed (chans h ch)" and np: "\<not> panicked h" "distinct (subs h)"
    using assms(1) by (auto simp: hub_ok_def)
  let ?l = "fold (try_send evt) order h" and ?r = "Publish evt h"
  have l: "\<not> panicked ?l" "buf (chans ?l c) = buf (chans ?r c)" for c
    using fold_try_send_buf[of h order evt c] Publish_buf(2)[OF assms(1), of evt c] open_chans np d s by auto
  have "chans ?l c = chans ?r c" for c
    using l(2)[of c] by (intro channel.equality) simp_all
  then have "?l = ?r"
    using l(1) Publish_buf(1)[OF assms(1), of evt] by (intro Hub.equality) auto
  then show ?thesis
    using Publish_buf(2)[OF assms(1), of evt] by (simp add: chan_size_def)
qed

text \<open>
  A batch published without a reception in between reaches each subscriber in order, cut off
  where its 16 places are used up: the newest events are the ones dropped, and a subscriber
  with enough room misses nothing.
\<close>

lemma Publish_batch:
  assumes "hub_ok h"
  shows "buf (chans (fold Publish es h) ch) =
    (if ch \<in> set (subs h) then buf (chans h ch) @ take (16 - length (buf (chans h ch))) es
     else buf (chans h ch))"
  using hub.queue_batch[OF assms, of es ch] by (simp add: chan_size_def)

fun drain :: "nat \<Rightarrow> nat \<Rightarrow> Hub \<Rightarrow> received list" where
  "drain 0 ch h = []"
| "drain (Suc n) ch h = (let (r, h') = receive ch h in r # drain n ch h')"

lemma drain_closed:
  "closed (chans h ch) \<Longrightarrow> buf (chans h ch) = es \<Longrightarrow>
     drain (Suc (length es)) ch h = map Received es @ [ChanClosed]"
proof (induction es arbitrary: h)
  case Nil
  then show ?case by (simp add: receive_def)
next
  case (Cons e es)
  let ?h = "h\<lparr>chans := (chans h)(ch := (chans h ch)\<lparr>buf := es\<rparr>)\<rparr>"
  have "drain (Suc (length es)) ch ?h = map Received es @ [ChanClosed]"
    using Cons.prems(1) by (intro Cons.IH) simp_all
  then show ?case
    using Cons.prems(2) by (simp add: receive_def)
qed

text \<open>
  After \<open>unsubscribe\<close> a listener reads exactly the events that were pending, in order, and then
  the end of the channel, whatever is published meanwhile; calling it again changes nothing.
\<close>

lemma unsubscribe_drains:
  assumes "hub_ok h" and "ch \<in> set (subs h)"
    and "h1 = fold Publish es (unsubscribe ch h)"
  shows "drain (Suc (length (buf (chans h ch)))) ch h1 = map Received (buf (chans h ch)) @ [ChanClosed] \<and>
    unsubscribe ch (unsubscribe ch h) = unsubscribe ch h"
proof -
  have ok: "hub_ok (unsubscribe ch h)"
    using assms(1) by (rule hub_ok_unsubscribe)
  have out: "ch \<notin> set (subs (unsubscribe ch h))" and same: "buf (chans (unsubscribe ch h) ch) = buf (chans h ch)"
    by (auto simp: unsubscribe_def close_chan_def)
  have "closed (chans (unsubscribe ch h) ch)"
    using assms(1,2) by (simp add: unsubscribe_def close_chan_def hub_ok_def)
  moreover have "closed (chans (fold Publish es g) c) = closed (chans g c)" for g c
    by (induction es arbitrary: g) simp_all
  ultimately have "closed (chans h1 ch)"
    by (simp add: assms(3))
  moreover have "buf (chans h1 ch) = buf (chans h ch)"
    using hub.queue_batch[OF ok, of es ch] out same by (simp add: assms(3))
  ultimately have "drain (Suc (length (buf (chans h ch)))) ch h1 = map Received (buf (chans h ch)) @ [ChanClosed]"
    by (rule drain_closed)
  moreover have "unsubscribe ch (unsubscribe ch h) = unsubscribe ch h"
    using out by (subst unsubscribe_def) simp
  ultimately show ?thesis by blast
qed

end
