(* ===== verification/World.thy ===== *)
theory World
  imports Broker
begin

text \<open>
  The state the handlers and the background workers share: the database behind the two stores
  and the hub. A method of a store runs inside it with \<open>run_db\<close>; \<open>publish_each\<close> is the loop by
  which a worker announces a batch. \<open>world_ok\<close> joins the invariants of the three components.
\<close>

record world =
  w_db :: db
  w_hub :: Hub

definition run_db :: "(db \<Rightarrow> 'a \<times> db) \<Rightarrow> world \<Rightarrow> 'a \<times> world" where
  "run_db m w = (let (r, d1) = m (w_db w) in (r, w\<lparr>w_db := d1\<rparr>))"

definition publish :: "EventType \<Rightarrow> TaskRun \<Rightarrow> world \<Rightarrow> world" where
  "publish ty task w = w\<lparr>w_hub := Publish \<lparr>evt_Type = ty, evt_Task = task\<rparr> (w_hub w)\<rparr>"

fun publish_each :: "EventType \<Rightarrow> TaskRun list \<Rightarrow> world \<Rightarrow> world" where
  "publish_each ty [] w = w"
| "publish_each ty (t # ts) w = publish_each ty ts (publish ty t w)"

definition world_ok :: "world \<Rightarrow> bool" where
  "world_ok w \<longleftrightarrow> runs_ok (task_runs (w_db w)) \<and> scheds_ok (task_schedules (w_db w)) \<and> hub_ok (w_hub w)"

definition new_world :: world where
  "new_world = \<lparr>w_db = empty_db, w_hub = NewHub\<rparr>"

lemma world_ok_new [simp]: "world_ok new_world"
  by (simp add: world_ok_def new_world_def empty_db_def runs_ok_def scheds_ok_def keyed_def)

lemma run_db_fields [simp]:
  "fst (run_db m w) = fst (m (w_db w))" "w_db (snd (run_db m w)) = snd (m (w_db w))"
  "w_hub (snd (run_db m w)) = w_hub w"
  by (simp_all add: run_db_def split_beta Let_def)

lemma publish_fields [simp]:
  "w_db (publish ty t w) = w_db w"
  "w_hub (publish ty t w) = Publish \<lparr>evt_Type = ty, evt_Task = t\<rparr> (w_hub w)"
  by (simp_all add: publish_def)

lemma publish_each_fields:
  "w_db (publish_each ty ts w) = w_db w"
  "w_hub (publish_each ty ts w) = fold Publish (map (\<lambda>t. \<lparr>evt_Type = ty, evt_Task = t\<rparr>) ts) (w_hub w)"
  by (induction ts arbitrary: w) auto

lemma world_ok_publish [inv_intros]: "world_ok w \<Longrightarrow> world_ok (publish ty t w)"
  by (simp add: world_ok_def hub_ok_Publish)

lemma world_ok_publish_each [inv_intros]: "world_ok w \<Longrightarrow> world_ok (publish_each ty ts w)"
  by (induction ts arbitrary: w) (auto intro: world_ok_publish)

text \<open>Each store method leaves the table of the other store alone.\<close>

lemma Finish_schedules [simp]:
  "task_schedules (snd (Finish eng k st msg at d)) = task_schedules d"
proof -
  obtain res d1 where q:
      "Query eng (\<lambda>d0. map_option r_started_at (at_key r_run_id k (task_runs d0))) d = (res, d1)"
    by fastforce
  then have "task_schedules d1 = task_schedules d"
    using Query_tables(2)[of eng "\<lambda>d0. map_option r_started_at (at_key r_run_id k (task_runs d0))" d]
    by simp
  then show ?thesis
    by (simp add: Finish_def q Let_def split_beta split: sum.split option.split)
qed

lemma store_frames [simp]:
  "task_schedules (snd (Create eng t d)) = task_schedules d"
  "task_schedules (snd (Heartbeat eng k at d)) = task_schedules d"
  "task_schedules (snd (DeleteOlderThan eng cutoff d)) = task_schedules d"
  "task_runs (snd (Upsert eng n i c g at d)) = task_runs d"
  "task_runs (snd (Touch eng n at d)) = task_runs d"
  "task_runs (snd (ScheduleDelete eng n d)) = task_runs d"
  by (simp_all add: snd_Create snd_Heartbeat snd_DeleteOlderThan snd_Upsert snd_Touch snd_ScheduleDelete)

end
