(* ===== verification/Json.thy ===== *)
theory Json
  imports GoLang
begin

text \<open>
  What the program uses of \<open>encoding/json\<close>, on bytes: the encoder of \<open>Marshal\<close> with its string
  escapes, and the parser behind \<open>Decoder.Decode\<close>, which reads the first value of the input and
  leaves the rest. A number is its literal. \<open>render\<close> and \<open>parse_value\<close> are inverse to each
  other on the values the program writes.
\<close>

datatype json =
    JNull
  | JBool bool
  | JNumber string
  | JString string
  | JArray "json list"
  | JObject "(string \<times> json) list"

abbreviation quote_mark :: char where "quote_mark \<equiv> CHR 0x22"
abbreviation backslash :: char where "backslash \<equiv> CHR 0x5C"

section \<open>Encoding\<close>

definition hex_digit :: "nat \<Rightarrow> char" where
  "hex_digit n = (if n < 10 then char_of (48 + n) else char_of (87 + n))"

definition escape_unit :: "nat \<Rightarrow> string" where
  "escape_unit r =
     [backslash, CHR ''u'', hex_digit (r div 4096 mod 16), hex_digit (r div 256 mod 16),
      hex_digit (r div 16 mod 16), hex_digit (r mod 16)]"

text \<open>The escapes of one character, those of HTML (\<open><\<close>, \<open>>\<close>, \<open>&\<close>) and U+2028, U+2029 included.\<close>

definition quote_rune :: "nat \<Rightarrow> string" where
  "quote_rune r =
     (if r = 34 then [backslash, quote_mark]
      else if r = 92 then [backslash, backslash]
      else if r = 8 then [backslash, CHR ''b'']
      else if r = 12 then [backslash, CHR ''f'']
      else if r = 10 then [backslash, CHR ''n'']
      else if r = 13 then [backslash, CHR ''r'']
      else if r = 9 then [backslash, CHR ''t'']
      else if r < 32 \<or> r = 60 \<or> r = 62 \<or> r = 38 \<or> r = 8232 \<or> r = 8233 then escape_unit r
      else EncodeRune r)"

text \<open>An ill-formed byte becomes the escape of U+FFFD.\<close>

function quote_bytes :: "nat list \<Rightarrow> string" where
  "quote_bytes [] = []"
| "quote_bytes (b # bs) =
     (if b < 128 then quote_rune b @ quote_bytes bs
      else (let (r, k) = decode_multi b bs in
            (if k = 0 then escape_unit rune_error else quote_rune r) @ quote_bytes (drop k bs)))"
  by pat_completeness auto
termination
  by (relation "measure length") auto

definition quoted :: "string \<Rightarrow> string" where
  "quoted s = quote_mark # quote_bytes (map of_char s) @ [quote_mark]"

fun render :: "json \<Rightarrow> string"
  and render_elems :: "json list \<Rightarrow> string"
  and render_members :: "(string \<times> json) list \<Rightarrow> string"
where
  "render JNull = ''null''"
| "render (JBool b) = (if b then ''true'' else ''false'')"
| "render (JNumber lit) = lit"
| "render (JString s) = quoted s"
| "render (JArray []) = ''[]''"
| "render (JArray (v # vs)) = ''['' @ render v @ render_elems vs"
| "render (JObject []) = ''{}''"
| "render (JObject ((k, v) # ms)) = ''{'' @ quoted k @ '':'' @ render v @ render_members ms"
| "render_elems [] = '']''"
| "render_elems (v # vs) = '','' @ render v @ render_elems vs"
| "render_members [] = ''}''"
| "render_members ((k, v) # ms) = '','' @ quoted k @ '':'' @ render v @ render_members ms"

section \<open>Parsing\<close>

definition is_space :: "char \<Rightarrow> bool" where
  "is_space c \<longleftrightarrow> c = CHR '' '' \<or> c = CHR 0x09 \<or> c = CHR 0x0A \<or> c = CHR 0x0D"

definition skip_ws :: "string \<Rightarrow> string" where
  "skip_ws s = dropWhile is_space s"

text \<open>A number: sign, digits without a leading zero, fraction, exponent.\<close>

definition scan_int :: "string \<Rightarrow> (string \<times> string) option" where
  "scan_int s =
     (case s of
        [] \<Rightarrow> None
      | c # r \<Rightarrow> if c = CHR ''0'' then Some ([c], r)
                 else if is_digit c then Some (takeWhile is_digit s, dropWhile is_digit s) else None)"

definition scan_frac :: "string \<Rightarrow> (string \<times> string) option" where
  "scan_frac s =
     (case s of
        c # r \<Rightarrow>
          if c = CHR ''.'' then
            (if takeWhile is_digit r = [] then None else Some (c # takeWhile is_digit r, dropWhile is_digit r))
          else Some ([], s)
      | [] \<Rightarrow> Some ([], s))"

definition scan_exp :: "string \<Rightarrow> (string \<times> string) option" where
  "scan_exp s =
     (case s of
        c # r \<Rightarrow>
          if c = CHR ''e'' \<or> c = CHR ''E'' then
            (let (sign, r1) = (case r of d # r' \<Rightarrow> if d = CHR ''+'' \<or> d = CHR ''-'' then ([d], r') else ([], r)
                               | [] \<Rightarrow> ([], r))
             in if takeWhile is_digit r1 = [] then None
                else Some (c # sign @ takeWhile is_digit r1, dropWhile is_digit r1))
          else Some ([], s)
      | [] \<Rightarrow> Some ([], s))"

definition scan_number :: "string \<Rightarrow> (string \<times> string) option" where
  "scan_number s =
     (let (sign, s0) = (case s of c # r \<Rightarrow> if c = CHR ''-'' then ([c], r) else ([], s) | [] \<Rightarrow> ([], s)) in
      case scan_int s0 of
        None \<Rightarrow> None
      | Some (ds, s1) \<Rightarrow>
          (case scan_frac s1 of
             None \<Rightarrow> None
           | Some (fs, s2) \<Rightarrow>
               (case scan_exp s2 of
                  None \<Rightarrow> None
                | Some (es, s3) \<Rightarrow> Some (sign @ ds @ fs @ es, s3))))"

text \<open>A string from after its opening quote; the escapes are decoded on the way.\<close>

definition hex_val :: "char \<Rightarrow> nat option" where
  "hex_val c =
     (let n = of_char c in
      if 48 \<le> n \<and> n \<le> 57 then Some (n - 48)
      else if 97 \<le> n \<and> n \<le> 102 then Some (n - 87)
      else if 65 \<le> n \<and> n \<le> 70 then Some (n - 55)
      else None)"

definition getu4 :: "string \<Rightarrow> (nat \<times> string) option" where
  "getu4 s =
     (case s of
        a # b # c # d # r \<Rightarrow>
          (case (hex_val a, hex_val b, hex_val c, hex_val d) of
             (Some x, Some y, Some z, Some u) \<Rightarrow> Some (4096 * x + 256 * y + 16 * z + u, r)
           | _ \<Rightarrow> None)
      | _ \<Rightarrow> None)"

text \<open>The low half of a surrogate pair, when an escape with one follows the high half \<open>hi\<close>.\<close>

definition low_half :: "nat \<Rightarrow> string \<Rightarrow> (nat \<times> string) option" where
  "low_half hi s =
     (case s of
        a # b # r \<Rightarrow>
          if a = backslash \<and> b = CHR ''u'' then
            (case getu4 r of
               None \<Rightarrow> None
             | Some (lo, r1) \<Rightarrow>
                 if 55296 \<le> hi \<and> hi < 56320 \<and> 56320 \<le> lo \<and> lo < 57344
                 then Some ((hi - 55296) * 1024 + (lo - 56320) + 65536, r1) else None)
          else None
      | _ \<Rightarrow> None)"

definition simple_escape :: "char \<Rightarrow> string option" where
  "simple_escape e =
     (if e = quote_mark \<or> e = backslash \<or> e = CHR ''/'' then Some [e]
      else if e = CHR ''b'' then Some [CHR 0x08]
      else if e = CHR ''f'' then Some [CHR 0x0C]
      else if e = CHR ''n'' then Some [CHR 0x0A]
      else if e = CHR ''r'' then Some [CHR 0x0D]
      else if e = CHR ''t'' then Some [CHR 0x09]
      else None)"

text \<open>One character of a string literal: what it stands for and the rest.\<close>

definition unquote_step :: "string \<Rightarrow> (string \<times> string) option" where
  "unquote_step s =
     (case s of
        [] \<Rightarrow> None
      | c # r \<Rightarrow>
          if c = backslash then
            (case r of
               [] \<Rightarrow> None
             | e # r1 \<Rightarrow>
                 (case simple_escape e of
                    Some x \<Rightarrow> Some (x, r1)
                  | None \<Rightarrow>
                      if e = CHR ''u'' then
                        (case getu4 r1 of
                           None \<Rightarrow> None
                         | Some (u, r2) \<Rightarrow>
                             if 55296 \<le> u \<and> u < 57344 then
                               (case low_half u r2 of
                                  Some (x, r3) \<Rightarrow> Some (EncodeRune x, r3)
                                | None \<Rightarrow> Some (EncodeRune rune_error, r2))
                             else Some (EncodeRune u, r2))
                      else None))
          else if (of_char c :: nat) < 32 then None
          else if (of_char c :: nat) < 128 then Some ([c], r)
          else (let (x, k) = decode_multi (of_char c) (map of_char r) in Some (EncodeRune x, drop k r)))"

lemma getu4_shorter: "getu4 s = Some (u, r) \<Longrightarrow> length r < length s"
  by (auto simp: getu4_def split: list.splits option.splits)

lemma low_half_shorter: "low_half hi s = Some (u, r) \<Longrightarrow> length r < length s"
  by (auto simp: low_half_def dest!: getu4_shorter split: list.splits option.splits if_splits prod.splits)

lemma unquote_step_shorter:
  assumes "unquote_step s = Some (x, r)"
  shows "length r < length s"
proof (cases s)
  case Nil
  then show ?thesis using assms by (simp add: unquote_step_def)
next
  case (Cons c s1)
  show ?thesis
  proof (cases "c = backslash")
    case True
    then obtain e s2 where s1: "s1 = e # s2"
      using assms Cons by (cases s1) (simp_all add: unquote_step_def)
    show ?thesis
    proof (cases "simple_escape e")
      case None
      then obtain u s3 where u: "e = CHR ''u''" "getu4 s2 = Some (u, s3)"
        using assms Cons True s1
        by (cases "getu4 s2") (auto simp: unquote_step_def split: if_splits)
      then have "length s3 < length s2"
        by (simp add: getu4_shorter)
      moreover have "r = s3 \<or> (\<exists>y. low_half u s3 = Some (y, r))"
        using assms Cons True s1 None u by (auto simp: unquote_step_def split: if_splits option.splits)
      ultimately show ?thesis
        using low_half_shorter[of u s3 _ r] Cons s1 by auto
    next
      case (Some y)
      then show ?thesis using assms Cons True s1 by (simp add: unquote_step_def)
    qed
  next
    case False
    then show ?thesis
      using assms Cons by (auto simp: unquote_step_def split_beta split: if_splits)
  qed
qed

function unquote :: "string \<Rightarrow> (string \<times> string) option" where
  "unquote s =
     (case s of
        [] \<Rightarrow> None
      | c # r \<Rightarrow>
          if c = quote_mark then Some ([], r)
          else (case unquote_step s of
                  None \<Rightarrow> None
                | Some (x, r1) \<Rightarrow> map_option (map_prod ((@) x) id) (unquote r1)))"
  by pat_completeness auto
termination
  by (relation "measure length") (auto dest: unquote_step_shorter)

declare unquote.simps [simp del]

text \<open>
  Values, with fuel \<open>n\<close> (more than twice the length of the input is enough, \<open>parse_fuel\<close>) and
  the nesting depth \<open>d\<close> still allowed.
\<close>

fun parse_value :: "nat \<Rightarrow> nat \<Rightarrow> string \<Rightarrow> (json \<times> string) option"
  and parse_elems :: "nat \<Rightarrow> nat \<Rightarrow> string \<Rightarrow> (json list \<times> string) option"
  and parse_members :: "nat \<Rightarrow> nat \<Rightarrow> string \<Rightarrow> ((string \<times> json) list \<times> string) option"
where
  "parse_value 0 d s = None"
| "parse_value (Suc n) d s =
     (case skip_ws s of
        [] \<Rightarrow> None
      | c # r \<Rightarrow>
          if c = CHR ''{'' then
            (if d = 0 then None
             else if HasPrefix (skip_ws r) ''}'' then Some (JObject [], drop 1 (skip_ws r))
             else map_option (map_prod JObject id) (parse_members n (d - 1) r))
          else if c = CHR ''['' then
            (if d = 0 then None
             else if HasPrefix (skip_ws r) '']'' then Some (JArray [], drop 1 (skip_ws r))
             else map_option (map_prod JArray id) (parse_elems n (d - 1) r))
          else if c = quote_mark then map_option (map_prod JString id) (unquote r)
          else if HasPrefix (c # r) ''true'' then Some (JBool True, drop 3 r)
          else if HasPrefix (c # r) ''false'' then Some (JBool False, drop 4 r)
          else if HasPrefix (c # r) ''null'' then Some (JNull, drop 3 r)
          else map_option (map_prod JNumber id) (scan_number (c # r)))"
| "parse_elems 0 d s = None"
| "parse_elems (Suc n) d s =
     (case parse_value n d s of
        None \<Rightarrow> None
      | Some (v, r) \<Rightarrow>
          (case skip_ws r of
             [] \<Rightarrow> None
           | c # r1 \<Rightarrow>
               if c = CHR '','' then map_option (map_prod ((#) v) id) (parse_elems n d r1)
               else if c = CHR '']'' then Some ([v], r1) else None))"
| "parse_members 0 d s = None"
| "parse_members (Suc n) d s =
     (case skip_ws s of
        [] \<Rightarrow> None
      | q # r \<Rightarrow>
          if q \<noteq> quote_mark then None
          else
            (case unquote r of
               None \<Rightarrow> None
             | Some (k, r1) \<Rightarrow>
                 if \<not> HasPrefix (skip_ws r1) '':'' then None
                 else
                   (case parse_value n d (drop 1 (skip_ws r1)) of
                      None \<Rightarrow> None
                    | Some (v, r2) \<Rightarrow>
                        (case skip_ws r2 of
                           [] \<Rightarrow> None
                         | c # r3 \<Rightarrow>
                             if c = CHR '','' then map_option (map_prod ((#) (k, v)) id) (parse_members n d r3)
                             else if c = CHR ''}'' then Some ([(k, v)], r3) else None))))"

text \<open>\<open>Decoder.Decode\<close>: the first value of the input; at most 10000 nested containers.\<close>

definition parse_first :: "string \<Rightarrow> (json \<times> string) option" where
  "parse_first s = parse_value (2 * length s + 2) 10000 s"

section \<open>Strings survive the trip\<close>

lemma of_char_char_of: "n < 256 \<Longrightarrow> (of_char (char_of n :: char) :: nat) = n"
  by simp

lemma base64_digits:
  fixes r :: nat
  shows "r div 4096 * 4096 + r div 64 mod 64 * 64 + r mod 64 = r"
    and "r div 262144 * 262144 + r div 4096 mod 64 * 4096 + r div 64 mod 64 * 64 + r mod 64 = r"
proof -
  have d: "r div 4096 = r div 64 div 64" "r div 262144 = r div 64 div 64 div 64"
    by (simp_all add: div_mult2_eq[symmetric])
  have e: "n = n div 64 * 64 + n mod 64" for n :: nat
    by simp
  show "r div 4096 * 4096 + r div 64 mod 64 * 64 + r mod 64 = r"
    using e[of r] e[of "r div 64"] unfolding d by linarith
  show "r div 262144 * 262144 + r div 4096 mod 64 * 4096 + r div 64 mod 64 * 64 + r mod 64 = r"
    using e[of r] e[of "r div 64"] e[of "r div 64 div 64"] unfolding d by linarith
qed

lemma decode_digits:
  "a < 32 \<Longrightarrow> b < 64 \<Longrightarrow> r = a * 64 + b \<Longrightarrow> 128 \<le> r \<Longrightarrow> decode_multi (192 + a) ((128 + b) # t) = (r, 1)"
  "a < 16 \<Longrightarrow> b < 64 \<Longrightarrow> c < 64 \<Longrightarrow> r = a * 4096 + b * 64 + c \<Longrightarrow> 2048 \<le> r \<Longrightarrow> valid_rune r \<Longrightarrow>
     decode_multi (224 + a) ((128 + b) # (128 + c) # t) = (r, 2)"
  "a < 8 \<Longrightarrow> b < 64 \<Longrightarrow> c < 64 \<Longrightarrow> e < 64 \<Longrightarrow> r = a * 262144 + b * 4096 + c * 64 + e \<Longrightarrow> 65536 \<le> r \<Longrightarrow>
     valid_rune r \<Longrightarrow> decode_multi (240 + a) ((128 + b) # (128 + c) # (128 + e) # t) = (r, 3)"
  by (simp_all add: is_cont_def)

declare decode_multi.simps [simp del]

text \<open>A rune above 127, encoded and decoded.\<close>

lemma decode_EncodeRune:
  assumes "valid_rune r" and "128 \<le> r"
  obtains b bs where "map of_char (EncodeRune r) = b # bs" and "128 \<le> b" and "bs \<noteq> []"
    and "\<And>tail. decode_multi b (bs @ tail) = (r, length bs)"
proof -
  consider "r < 2048" | "2048 \<le> r" "r < 65536" | "65536 \<le> r" "r < 2097152"
    using assms(1) by (force simp: valid_rune_def)
  then show thesis
  proof cases
    case 1
    then have "r div 64 < 32"
      by (simp add: div_less_iff_less_mult)
    moreover from this have "map of_char (EncodeRune r) = [192 + r div 64, 128 + r mod 64]"
      using 1 assms by (simp add: EncodeRune_def)
    ultimately show thesis
      using decode_digits(1)[of "r div 64" "r mod 64" r] assms(2) by (elim that) simp_all
  next
    case 2
    then have "r div 4096 < 16"
      by (simp add: div_less_iff_less_mult)
    moreover from this have "map of_char (EncodeRune r) = [224 + r div 4096, 128 + r div 64 mod 64, 128 + r mod 64]"
      using 2 assms by (simp add: EncodeRune_def)
    ultimately show thesis
      using decode_digits(2)[OF _ _ _ base64_digits(1)[of r, symmetric] 2(1) assms(1)]
      by (elim that) simp_all
  next
    case 3
    then have "r div 262144 < 8"
      by (simp add: div_less_iff_less_mult)
    moreover from this have "map of_char (EncodeRune r) =
        [240 + r div 262144, 128 + r div 4096 mod 64, 128 + r div 64 mod 64, 128 + r mod 64]"
      using 3 assms by (simp add: EncodeRune_def)
    ultimately show thesis
      using decode_digits(3)[OF _ _ _ _ base64_digits(2)[of r, symmetric] 3(1) assms(1)]
      by (elim that) simp_all
  qed
qed

lemma runes_Cons: "runes (r # rs) = EncodeRune r @ runes rs"
  by (simp add: runes_def)

lemma range_string_runes: "list_all valid_rune rs \<Longrightarrow> range_string (runes rs) = rs"
proof (induction rs)
  case Nil
  then show ?case by (simp add: range_string_def runes_def)
next
  case (Cons r rs)
  show ?case
  proof (cases "r < 128")
    case True
    then show ?thesis
      using Cons by (simp add: runes_Cons EncodeRune_def valid_rune_def range_string_def)
  next
    case False
    then obtain b bs where "map of_char (EncodeRune r) = b # bs" "128 \<le> b" "bs \<noteq> []"
      "\<And>tail. decode_multi b (bs @ tail) = (r, length bs)"
      using decode_EncodeRune[of r] Cons.prems by auto
    then show ?thesis
      using Cons by (simp add: runes_Cons range_string_def)
  qed
qed

lemma valid_utf8_iff: "valid_utf8 s \<longleftrightarrow> (\<exists>rs. list_all valid_rune rs \<and> s = runes rs)"
  by (metis range_string_runes valid_utf8_def valid_utf8_runes)

lemma valid_utf8_append:
  assumes "valid_utf8 s" and "valid_utf8 t"
  shows "valid_utf8 (s @ t)"
proof -
  obtain rs qs where "list_all valid_rune rs" "s = runes rs" "list_all valid_rune qs" "t = runes qs"
    using assms unfolding valid_utf8_iff by blast
  then have "list_all valid_rune (rs @ qs) \<and> s @ t = runes (rs @ qs)"
    by (simp add: runes_def)
  then show ?thesis
    unfolding valid_utf8_iff by blast
qed

lemma valid_utf8_Nil: "valid_utf8 []"
  by (simp add: valid_utf8_ascii is_ascii_def)

lemma valid_utf8_Cons: "(of_char c :: nat) < 128 \<Longrightarrow> valid_utf8 s \<Longrightarrow> valid_utf8 (c # s)"
  using valid_utf8_append[of "[c]" s] by (simp add: valid_utf8_ascii is_ascii_def)

lemmas utf8_intros = valid_utf8_Nil valid_utf8_Cons valid_utf8_append

lemma quote_bytes_runes:
  "list_all valid_rune rs \<Longrightarrow> quote_bytes (map of_char (runes rs)) = concat (map quote_rune rs)"
proof (induction rs)
  case Nil
  then show ?case by (simp add: runes_def)
next
  case (Cons r rs)
  show ?case
  proof (cases "r < 128")
    case True
    then show ?thesis
      using Cons by (simp add: runes_Cons EncodeRune_def valid_rune_def)
  next
    case False
    then obtain b bs where "map of_char (EncodeRune r) = b # bs" "128 \<le> b" "bs \<noteq> []"
      "\<And>tail. decode_multi b (bs @ tail) = (r, length bs)"
      using decode_EncodeRune[of r] Cons.prems by auto
    then show ?thesis
      using Cons by (simp add: runes_Cons)
  qed
qed

lemma hex_val_digit: "n < 16 \<Longrightarrow> hex_val (hex_digit n) = Some n"
  by (simp add: hex_val_def hex_digit_def Let_def)

lemma base16_digits:
  fixes r :: nat
  assumes "r < 65536"
  shows "4096 * (r div 4096 mod 16) + 256 * (r div 256 mod 16) + 16 * (r div 16 mod 16) + r mod 16 = r"
proof -
  have d: "r div 256 = r div 16 div 16" "r div 4096 = r div 16 div 16 div 16"
    by (simp_all add: div_mult2_eq[symmetric])
  have e: "n = n div 16 * 16 + n mod 16" for n :: nat
    by simp
  have "r div 4096 mod 16 = r div 4096"
    using assms by (simp add: div_less_iff_less_mult)
  then show ?thesis
    using e[of r] e[of "r div 16"] e[of "r div 16 div 16"] unfolding d by linarith
qed

lemma unquote_escape_unit:
  assumes "r < 55296"
  shows "unquote (escape_unit r @ s) = map_option (map_prod ((@) (EncodeRune r)) id) (unquote s)"
proof -
  have "getu4 (drop 2 (escape_unit r) @ s) = Some (r, s)"
    using base16_digits[of r] assms by (simp add: getu4_def escape_unit_def hex_val_digit)
  then have "unquote_step (escape_unit r @ s) = Some (EncodeRune r, s)"
    using assms by (simp add: unquote_step_def escape_unit_def simple_escape_def)
  then show ?thesis
    by (subst unquote.simps) (simp add: escape_unit_def)
qed

text \<open>A rune that is copied as it is.\<close>

lemma unquote_step_EncodeRune:
  assumes "valid_rune r" and "32 \<le> r" and "r \<noteq> 34" and "r \<noteq> 92"
  shows "unquote_step (EncodeRune r @ s) = Some (EncodeRune r, s)" and "HasPrefix (EncodeRune r @ s) [quote_mark] = False"
    and "EncodeRune r \<noteq> []"
proof -
  have "unquote_step (EncodeRune r @ s) = Some (EncodeRune r, s) \<and> \<not> HasPrefix (EncodeRune r @ s) [quote_mark] \<and>
      EncodeRune r \<noteq> []"
  proof (cases "r < 128")
    case True
    have "(of_char (char_of r :: char) :: nat) = r" "(of_char backslash :: nat) = 92" "(of_char quote_mark :: nat) = 34"
      using True by simp_all
    then have "char_of r \<noteq> backslash" "char_of r \<noteq> quote_mark"
      using assms(3,4) by metis+
    then show ?thesis
      using True assms by (simp add: unquote_step_def EncodeRune_def HasPrefix_def)
  next
    case False
    then obtain b bs where e: "map of_char (EncodeRune r) = b # bs" "128 \<le> b" "bs \<noteq> []"
      "\<And>tail. decode_multi b (bs @ tail) = (r, length bs)"
      using decode_EncodeRune[of r] assms(1) by auto
    then obtain c cs where c: "EncodeRune r = c # cs" "of_char c = b" "map of_char cs = bs"
      by (cases "EncodeRune r") auto
    then have "c \<noteq> backslash" "c \<noteq> quote_mark" "length cs = length bs"
      using e(2) by (auto simp flip: c(3))
    then show ?thesis
      using e(2,4) c by (simp add: unquote_step_def HasPrefix_def)
  qed
  then show "unquote_step (EncodeRune r @ s) = Some (EncodeRune r, s)"
    and "HasPrefix (EncodeRune r @ s) [quote_mark] = False" and "EncodeRune r \<noteq> []"
    by simp_all
qed

lemma unquote_by_step:
  "unquote_step s = Some (x, r) \<Longrightarrow> \<not> HasPrefix s [quote_mark] \<Longrightarrow>
     unquote s = map_option (map_prod ((@) x) id) (unquote r)"
  by (subst unquote.simps) (cases s, auto simp: unquote_step_def HasPrefix_def)

lemma simple_escapes:
  "list_all (\<lambda>r. quote_rune r = [backslash, quote_rune r ! 1] \<and>
     simple_escape (quote_rune r ! 1) = Some (EncodeRune r)) [34, 92, 8, 12, 10, 13, 9]"
proof -
  have "EncodeRune (of_char c) = [c]" if "c \<in> {CHR 0x22, CHR 0x5C, CHR 0x08, CHR 0x0C, CHR 0x0A, CHR 0x0D, CHR 0x09}" for c
    using that by (intro EncodeRune_ascii) auto
  from this[of "CHR 0x22"] this[of "CHR 0x5C"] this[of "CHR 0x08"] this[of "CHR 0x0C"] this[of "CHR 0x0A"]
    this[of "CHR 0x0D"] this[of "CHR 0x09"]
  show ?thesis
    by (simp add: quote_rune_def simple_escape_def)
qed

lemma unquote_quote_rune:
  assumes "valid_rune r"
  shows "unquote (quote_rune r @ s) = map_option (map_prod ((@) (EncodeRune r)) id) (unquote s)"
proof (cases "r \<in> {34, 92, 8, 12, 10, 13, 9}")
  case True
  then have "r \<in> set [34, 92, 8, 12, 10, 13, 9]"
    by simp
  then have "\<exists>e. quote_rune r = [backslash, e] \<and> simple_escape e = Some (EncodeRune r)"
    using simple_escapes unfolding list_all_iff by blast
  then obtain e where "quote_rune r = [backslash, e]" "simple_escape e = Some (EncodeRune r)"
    by blast
  then have "unquote_step (quote_rune r @ s) = Some (EncodeRune r, s)" "\<not> HasPrefix (quote_rune r @ s) [quote_mark]"
    by (simp_all add: unquote_step_def HasPrefix_def)
  then show ?thesis by (rule unquote_by_step)
next
  case False
  show ?thesis
  proof (cases "r < 32 \<or> r = 60 \<or> r = 62 \<or> r = 38 \<or> r = 8232 \<or> r = 8233")
    case True
    then show ?thesis
      using False unquote_escape_unit[of r s] by (auto simp: quote_rune_def)
  next
    case plain: False
    then have "quote_rune r = EncodeRune r"
      using False by (simp add: quote_rune_def)
    then show ?thesis
      using unquote_by_step[OF unquote_step_EncodeRune(1)[OF assms]] unquote_step_EncodeRune(2)[OF assms] False plain
      by auto
  qed
qed

lemma unquote_quoted:
  assumes "valid_utf8 s"
  shows "unquote (drop 1 (quoted s) @ r) = Some (s, r)"
proof -
  obtain rs where rs: "list_all valid_rune rs" "s = runes rs"
    using assms by (rule valid_utf8_runes)
  have "list_all valid_rune rs \<Longrightarrow>
      unquote (concat (map quote_rune rs) @ quote_mark # r) = Some (runes rs, r)" for rs
  proof (induction rs)
    case Nil
    then show ?case by (subst unquote.simps) (simp add: runes_def)
  next
    case (Cons x rs)
    then show ?case by (simp add: unquote_quote_rune runes_Cons)
  qed
  then show ?thesis
    using rs by (simp add: quoted_def quote_bytes_runes)
qed

section \<open>Numbers survive the trip\<close>

definition ends_number :: "string \<Rightarrow> bool" where
  "ends_number s \<longleftrightarrow>
     (case s of [] \<Rightarrow> True | c # r \<Rightarrow> \<not> is_digit c \<and> c \<noteq> CHR ''.'' \<and> c \<noteq> CHR ''e'' \<and> c \<noteq> CHR ''E'')"

lemma decimal_head:
  assumes "0 < n"
  obtains c cs where "decimal n = c # cs" and "is_digit c" and "c \<noteq> CHR ''0''"
proof -
  have "\<exists>c cs. decimal n = c # cs \<and> is_digit c \<and> c \<noteq> CHR ''0''"
    using assms
  proof (induction n rule: decimal.induct)
    case (1 n)
    show ?case
    proof (cases "n < 10")
      case True
      have "(of_char (digit_char n) :: nat) \<noteq> of_char (CHR ''0'')"
        using True 1(2) by (subst of_char_digit_char) simp_all
      then have "digit_char n \<noteq> CHR ''0''"
        by metis
      then show ?thesis
        using True by (simp add: decimal.simps[of n] is_digit_char)
    next
      case False
      then have "0 < n div 10"
        by simp
      from 1(1)[OF False this] show ?thesis
        using False by (auto simp: decimal.simps[of n])
    qed
  qed
  then show thesis using that by blast
qed

lemma is_digit_not: "is_digit c \<Longrightarrow> c \<notin> {CHR ''-'', CHR ''.'', CHR ''{'', CHR ''['', quote_mark, CHR ''t'', CHR ''f'',
    CHR ''n'', CHR '']'', CHR ''}'', CHR '','', CHR '':''} \<and> \<not> is_space c"
  by (auto simp: is_digit_def is_space_def)

lemma takeWhile_digits:
  assumes "list_all is_digit ds" and "ends_number s"
  shows "takeWhile is_digit (ds @ s) = ds" and "dropWhile is_digit (ds @ s) = s"
proof -
  have "takeWhile is_digit s = []" "dropWhile is_digit s = s"
    using assms(2) by (auto simp: ends_number_def split: list.splits)
  then show "takeWhile is_digit (ds @ s) = ds" "dropWhile is_digit (ds @ s) = s"
    using assms(1) by (simp_all add: list_all_iff takeWhile_append dropWhile_append)
qed

lemma scan_int_decimal:
  assumes "ends_number s"
  shows "scan_int (decimal n @ s) = Some (decimal n, s)"
proof (cases "n = 0")
  case True
  have "decimal 0 = ''0''"
    by code_simp
  then show ?thesis
    by (simp add: True scan_int_def)
next
  case False
  then obtain c cs where c: "decimal n = c # cs" "is_digit c" "c \<noteq> CHR ''0''"
    using decimal_head[of n] by auto
  then show ?thesis
    using takeWhile_digits[OF decimal_digits assms, of n] by (simp add: scan_int_def)
qed

lemma scan_frac_exp_none: "ends_number s \<Longrightarrow> scan_frac s = Some ([], s) \<and> scan_exp s = Some ([], s)"
  by (auto simp: scan_frac_def scan_exp_def ends_number_def split: list.splits)

lemma Itoa_head:
  obtains c cs where "Itoa n = c # cs" and "c = CHR ''-'' \<or> is_digit c"
proof (cases "n < 0")
  case True
  then show thesis by (intro that) (auto simp: Itoa_def)
next
  case False
  obtain c cs where "decimal (nat n) = c # cs"
    by (cases "decimal (nat n)") auto
  then show thesis
    using False decimal_digits[of "nat n"] by (intro that[of c cs]) (simp_all add: Itoa_def)
qed

lemma scan_number_Itoa:
  assumes "ends_number s"
  shows "scan_number (Itoa n @ s) = Some (Itoa n, s)"
proof -
  obtain c cs where c: "decimal (nat n) = c # cs" "c \<noteq> CHR ''-''"
    using decimal_digits[of "nat n"] is_digit_not by (cases "decimal (nat n)") auto
  have "scan_int (c # cs @ s) = Some (c # cs, s)"
    using scan_int_decimal[OF assms, of "nat n"] c(1) by simp
  then show ?thesis
    using scan_int_decimal[OF assms] scan_frac_exp_none[OF assms] c
    by (simp add: scan_number_def Itoa_def)
qed

section \<open>Values survive the trip\<close>

text \<open>The values the program writes: valid UTF-8 and decimal integers.\<close>

definition integer_literal :: "string \<Rightarrow> bool" where
  "integer_literal lit \<longleftrightarrow> (case Atoi lit of None \<Rightarrow> False | Some n \<Rightarrow> lit = Itoa n)"

fun json_ok :: "json \<Rightarrow> bool"
  and elems_ok :: "json list \<Rightarrow> bool"
  and members_ok :: "(string \<times> json) list \<Rightarrow> bool"
where
  "json_ok JNull = True"
| "json_ok (JBool b) = True"
| "json_ok (JNumber lit) = integer_literal lit"
| "json_ok (JString s) = valid_utf8 s"
| "json_ok (JArray vs) = elems_ok vs"
| "json_ok (JObject ms) = members_ok ms"
| "elems_ok [] = True"
| "elems_ok (v # vs) = (json_ok v \<and> elems_ok vs)"
| "members_ok [] = True"
| "members_ok ((k, v) # ms) = (valid_utf8 k \<and> json_ok v \<and> members_ok ms)"

fun depth :: "json \<Rightarrow> nat"
  and depth_elems :: "json list \<Rightarrow> nat"
  and depth_members :: "(string \<times> json) list \<Rightarrow> nat"
where
  "depth JNull = 0"
| "depth (JBool b) = 0"
| "depth (JNumber lit) = 0"
| "depth (JString s) = 0"
| "depth (JArray vs) = Suc (depth_elems vs)"
| "depth (JObject ms) = Suc (depth_members ms)"
| "depth_elems [] = 0"
| "depth_elems (v # vs) = max (depth v) (depth_elems vs)"
| "depth_members [] = 0"
| "depth_members ((k, v) # ms) = max (depth v) (depth_members ms)"

lemma skip_ws_Cons [simp]: "\<not> is_space c \<Longrightarrow> skip_ws (c # r) = c # r"
  by (simp add: skip_ws_def)

lemma not_space [simp]:
  "\<not> is_space (CHR '','')" "\<not> is_space (CHR '':'')" "\<not> is_space (CHR '']'')" "\<not> is_space (CHR ''}'')"
  "\<not> is_space (CHR ''['')" "\<not> is_space (CHR ''{'')" "\<not> is_space quote_mark" "\<not> is_space (CHR ''n'')"
  "\<not> is_space (CHR ''t'')" "\<not> is_space (CHR ''f'')" "\<not> is_space (CHR ''-'')"
  by (simp_all add: is_space_def)

lemma integer_literal_Itoa: "integer_literal lit \<Longrightarrow> \<exists>n. lit = Itoa n"
  by (auto simp: integer_literal_def split: option.splits)

lemma render_head:
  assumes "json_ok v"
  obtains c r where "render v = c # r" and "\<not> is_space c" and "c \<noteq> CHR '']''" and "c \<noteq> CHR ''}''"
proof -
  have "\<exists>c r. render v = c # r \<and> \<not> is_space c \<and> c \<noteq> CHR '']'' \<and> c \<noteq> CHR ''}''"
  proof (cases v)
    case (JNumber lit)
    then obtain n where "lit = Itoa n"
      using assms integer_literal_Itoa by auto
    moreover obtain c cs where "Itoa n = c # cs" "c = CHR ''-'' \<or> is_digit c"
      by (rule Itoa_head)
    moreover from this(2) have "\<not> is_space c \<and> c \<noteq> CHR '']'' \<and> c \<noteq> CHR ''}''"
      by (elim disjE; use is_digit_not[of c] in simp)
    ultimately show ?thesis
      using JNumber by simp
  next
    case (JArray vs)
    then show ?thesis by (cases vs) simp_all
  next
    case (JObject ms)
    then show ?thesis by (cases ms) auto
  qed (simp_all add: quoted_def)
  then show thesis
    using that by blast
qed

lemma ends_number_elems: "ends_number (render_elems vs @ s)" "ends_number (render_members ms @ s)"
  by (cases vs, simp_all add: ends_number_def is_digit_def) (cases ms, auto simp: is_digit_def)

lemma quoted_Cons: "quoted s @ r = quote_mark # drop 1 (quoted s) @ r" "quoted s \<noteq> []"
  by (simp_all add: quoted_def)

lemma parse_string: "valid_utf8 s \<Longrightarrow> parse_value (Suc n) d (quoted s @ r) = Some (JString s, r)"
  using unquote_quoted[of s r] by (simp add: quoted_def)

lemma parse_number:
  assumes "integer_literal lit" and "ends_number s"
  shows "parse_value (Suc n) d (lit @ s) = Some (JNumber lit, s)"
proof -
  obtain i where i: "lit = Itoa i"
    using assms(1) integer_literal_Itoa by blast
  obtain c cs where c: "Itoa i = c # cs" "c = CHR ''-'' \<or> is_digit c"
    by (rule Itoa_head)
  have "scan_number (c # cs @ s) = Some (c # cs, s)"
    using scan_number_Itoa[OF assms(2), of i] c(1) by simp
  moreover have "\<not> is_space c" "c \<notin> {CHR ''{'', CHR ''['', quote_mark, CHR ''t'', CHR ''f'', CHR ''n''}"
    using c(2) is_digit_not[of c] by auto
  ultimately show ?thesis
    by (simp add: i c(1) HasPrefix_def)
qed

text \<open>The fuel a value needs: twice the length of its text.\<close>

lemma parse_render:
  "json_ok v \<Longrightarrow> depth v \<le> d \<Longrightarrow> ends_number s \<Longrightarrow> 2 * length (render v) \<le> n \<Longrightarrow>
     parse_value n d (render v @ s) = Some (v, s)"
  "elems_ok vs \<Longrightarrow> depth_elems vs \<le> d \<Longrightarrow>
     (\<And>m t. ends_number t \<Longrightarrow> 2 * length (render x) \<le> m \<Longrightarrow> parse_value m d (render x @ t) = Some (x, t)) \<Longrightarrow>
     2 * length (render x @ render_elems vs) < n \<Longrightarrow>
     parse_elems n d (render x @ render_elems vs @ s) = Some (x # vs, s)"
  "members_ok ms \<Longrightarrow> depth_members ms \<le> d \<Longrightarrow> valid_utf8 k \<Longrightarrow>
     (\<And>m t. ends_number t \<Longrightarrow> 2 * length (render x) \<le> m \<Longrightarrow> parse_value m d (render x @ t) = Some (x, t)) \<Longrightarrow>
     2 * length (quoted k @ '':'' @ render x @ render_members ms) < n \<Longrightarrow>
     parse_members n d (quoted k @ '':'' @ render x @ render_members ms @ s) = Some ((k, x) # ms, s)"
proof (induction v and vs and ms arbitrary: d n s and d n s x and d n s k x rule: render_render_elems_render_members.induct)
  case (1 d n s)
  then show ?case by (cases n) (simp_all add: HasPrefix_def)
next
  case (2 b d n s)
  then show ?case by (cases n) (simp_all add: HasPrefix_def split: if_splits)
next
  case (3 lit d n s)
  then show ?case
    using render_head[of "JNumber lit"] by (cases n) (auto simp: parse_number simp del: parse_value.simps)
next
  case (4 t d n s)
  then show ?case
    by (cases n) (simp_all add: parse_string quoted_Cons(2) del: parse_value.simps)
next
  case (5 d n s)
  then show ?case
    by (cases n) (simp_all add: HasPrefix_def)
next
  case (6 v vs d n s)
  then obtain m where m: "n = Suc m" "2 * length (render v @ render_elems vs) < m"
    by (cases n) auto
  obtain c r where c: "render v = c # r" "\<not> is_space c" "c \<noteq> CHR '']''" "c \<noteq> CHR ''}''"
    using 6(3) render_head[of v] by auto
  have "parse_elems m (d - 1) (render v @ render_elems vs @ s) = Some (v # vs, s)"
    using 6 m(2) by (intro 6(2)) auto
  then show ?case
    using m(1) c 6(4) by (simp add: HasPrefix_def)
next
  case (7 d n s)
  then show ?case
    by (cases n) (simp_all add: HasPrefix_def)
next
  case (8 k v ms d n s)
  then obtain m where m: "n = Suc m" "2 * length (quoted k @ '':'' @ render v @ render_members ms) < m"
    by (cases n) auto
  have "parse_members m (d - 1) (quoted k @ '':'' @ render v @ render_members ms @ s) = Some ((k, v) # ms, s)"
    using 8 m(2) by (intro 8(2)) auto
  then show ?case
    using m(1) 8(4) by (simp add: HasPrefix_def quoted_Cons(1))
next
  case (9 d n s x)
  then obtain m where "n = Suc m"
    by (cases n) auto
  then show ?case
    using 9(3)[of "CHR '']'' # s" m] 9(4) by (simp add: ends_number_def is_digit_def)
next
  case (10 v vs d n s x)
  then obtain m where m: "n = Suc m" "2 * length (render x @ '','' @ render v @ render_elems vs) \<le> m"
    by (cases n) auto
  have "parse_elems m d (render v @ render_elems vs @ s) = Some (v # vs, s)"
    using 10 m(2) by (intro 10(2)) auto
  moreover have "parse_value m d (render x @ CHR '','' # render v @ render_elems vs @ s) =
      Some (x, CHR '','' # render v @ render_elems vs @ s)"
    using m(2) by (intro 10(5)) (simp_all add: ends_number_def is_digit_def)
  ultimately show ?case
    using m(1) by simp
next
  case (11 d n s k x)
  then obtain m where m: "n = Suc m"
    by (cases n) auto
  then show ?case
    using 11(3,5) 11(4)[of "CHR ''}'' # s" m] unquote_quoted[of k]
    by (simp add: quoted_Cons(1) ends_number_def is_digit_def HasPrefix_def)
next
  case (12 k v ms d n s k' x)
  then obtain m where m: "n = Suc m"
      "2 * length (quoted k' @ '':'' @ render x @ '','' @ quoted k @ '':'' @ render v @ render_members ms) \<le> m"
    by (cases n) auto
  let ?t = "quoted k @ '':'' @ render v @ render_members ms @ s"
  have "parse_members m d ?t = Some ((k, v) # ms, s)"
    using 12 m(2) by (intro 12(2)) auto
  moreover have "parse_value m d (render x @ CHR '','' # ?t) = Some (x, CHR '','' # ?t)"
    using m(2) by (intro 12(6)) (simp_all add: ends_number_def is_digit_def)
  ultimately show ?case
    using m(1) 12(5) unquote_quoted[of k'] by (simp add: quoted_Cons(1)[of k'] HasPrefix_def)
qed

section \<open>The fuel is enough\<close>

lemma length_skip_ws: "length (skip_ws s) \<le> length s"
  by (simp add: skip_ws_def length_dropWhile_le)

lemma skip_ws_ConsD: "skip_ws s = c # r \<Longrightarrow> length r < length s"
  using length_skip_ws[of s] by simp

lemma unquote_shorter: "unquote s = Some (x, r) \<Longrightarrow> length r < length s"
proof (induction s arbitrary: x r rule: unquote.induct)
  case (1 s)
  show ?case
  proof (cases s)
    case Nil
    then show ?thesis using 1(2) by (simp add: unquote.simps)
  next
    case (Cons c r0)
    show ?thesis
    proof (cases "c = quote_mark")
      case True
      then show ?thesis using 1(2) Cons by (simp add: unquote.simps)
    next
      case False
      then obtain y r1 z where y: "unquote_step s = Some (y, r1)" "unquote r1 = Some (z, r)"
        using 1(2) Cons by (auto simp: unquote.simps[of "c # r0"] split: option.splits)
      then have "length r < length r1"
        using 1(1)[OF Cons False, of "(y, r1)" y r1] Cons by simp
      then show ?thesis
        using unquote_step_shorter[OF y(1)] by simp
    qed
  qed
qed

lemma scan_int_shorter: "scan_int s = Some (x, r) \<Longrightarrow> length r < length s"
  by (auto simp: scan_int_def length_dropWhile_le le_imp_less_Suc split: list.splits if_splits)

lemma scan_frac_shorter: "scan_frac s = Some (x, r) \<Longrightarrow> length r \<le> length s"
  by (auto simp: scan_frac_def intro: le_SucI[OF length_dropWhile_le] split: list.splits if_splits)

lemma scan_exp_shorter: "scan_exp s = Some (x, r) \<Longrightarrow> length r \<le> length s"
  by (auto simp: scan_exp_def Let_def intro: le_SucI[OF length_dropWhile_le] le_SucI[OF le_SucI[OF length_dropWhile_le]]
      split: list.splits if_splits)

lemma scan_number_shorter: "scan_number s = Some (x, r) \<Longrightarrow> length r < length s"
  by (force simp: scan_number_def split: list.splits if_splits option.splits prod.splits
      dest!: scan_int_shorter scan_frac_shorter scan_exp_shorter)

lemma HasPrefix_Cons: "HasPrefix s [c] \<Longrightarrow> \<exists>r. s = c # r"
  by (auto simp: HasPrefix_iff)

lemma parse_shorter:
  "parse_value n d s = Some (v, r) \<Longrightarrow> length r < length s"
  "parse_elems n d s = Some (vs, r) \<Longrightarrow> length r < length s"
  "parse_members n d s = Some (ms, r) \<Longrightarrow> length r < length s"
proof (induction n d s and n d s and n d s arbitrary: v r and vs r and ms r
    rule: parse_value_parse_elems_parse_members.induct)
  case (2 n d s)
  obtain c s1 where s: "skip_ws s = c # s1"
    using 2(3) by (auto split: list.splits)
  have "length r < Suc (length s1)"
    using 2 s length_skip_ws[of s1]
    by (force dest!: unquote_shorter scan_number_shorter HasPrefix_Cons split: if_splits)
  then show ?case
    using length_skip_ws[of s] s by simp
next
  case (4 n d s)
  then show ?case
    by (force dest!: skip_ws_ConsD split: option.splits list.splits if_splits)
next
  case (6 n d s)
  obtain s1 k r1 where k: "skip_ws s = quote_mark # s1" "unquote s1 = Some (k, r1)"
    using 6(3) by (auto split: list.splits option.splits if_splits)
  obtain r2 where r2: "skip_ws r1 = CHR '':'' # r2"
    using 6(3) k by (auto dest: HasPrefix_Cons split: if_splits)
  obtain v r3 where v: "parse_value n d r2 = Some (v, r3)"
    using 6(3) k r2 by (auto split: option.splits if_splits)
  obtain c r4 where r4: "skip_ws r3 = c # r4"
    using 6(3) k r2 v by (auto split: list.splits if_splits)
  have "length r3 < length r2"
    using 6(1)[of quote_mark s1 "(k, r1)" k r1 v r3] k r2 v by (simp add: HasPrefix_def)
  moreover have "length r \<le> length r4"
    using 6 k r2 v r4 by (force simp: HasPrefix_def split: if_splits)
  ultimately show ?case
    using skip_ws_ConsD[OF k(1)] unquote_shorter[OF k(2)] skip_ws_ConsD[OF r2] skip_ws_ConsD[OF r4] by simp
qed simp_all

lemma parse_fuel:
  "2 * length s < n \<Longrightarrow> parse_value (Suc n) d s = parse_value n d s"
  "2 * length s + 1 < n \<Longrightarrow> parse_elems (Suc n) d s = parse_elems n d s"
  "2 * length s + 1 < n \<Longrightarrow> parse_members (Suc n) d s = parse_members n d s"
proof (induction n arbitrary: d s)
  case 0
  {
    case 1
    then show ?case by simp
  next
    case 2
    then show ?case by simp
  next
    case 3
    then show ?case by simp
  }
next
  case (Suc n)
  {
    case 1
    have "parse_elems (Suc n) (d - 1) r = parse_elems n (d - 1) r"
      and "parse_members (Suc n) (d - 1) r = parse_members n (d - 1) r" if "skip_ws s = c # r" for c r
      using Suc.IH(2,3)[of r "d - 1"] skip_ws_ConsD[OF that] 1 by simp_all
    then show ?case
      by (simp del: parse_elems.simps parse_members.simps split: list.split)
  next
    case 2
    have "parse_value (Suc n) d s = parse_value n d s"
      using 2 by (intro Suc.IH) simp
    moreover have "parse_elems (Suc n) d r1 = parse_elems n d r1"
      if "parse_value n d s = Some (v, r)" "skip_ws r = c # r1" for v r c r1
      using parse_shorter(1)[OF that(1)] skip_ws_ConsD[OF that(2)] 2 by (intro Suc.IH) simp
    ultimately show ?case
      by (simp del: parse_value.simps split: option.split list.split)
  next
    case 3
    have "parse_value (Suc n) d (drop 1 (skip_ws r1)) = parse_value n d (drop 1 (skip_ws r1))"
      if "skip_ws s = q # r" "unquote r = Some (k, r1)" for q r k r1
      using skip_ws_ConsD[OF that(1)] unquote_shorter[OF that(2)] length_skip_ws[of r1] 3
      by (intro Suc.IH) simp
    moreover have "parse_members (Suc n) d r3 = parse_members n d r3"
      if "skip_ws s = q # r" "unquote r = Some (k, r1)" "parse_value n d (drop 1 (skip_ws r1)) = Some (v, r2)"
        "skip_ws r2 = c # r3" for q r k r1 v r2 c r3
      using skip_ws_ConsD[OF that(1)] unquote_shorter[OF that(2)] length_skip_ws[of r1]
        parse_shorter(1)[OF that(3)] skip_ws_ConsD[OF that(4)] 3
      by (intro Suc.IH) simp
    ultimately show ?case
      by (simp del: parse_value.simps split: option.split list.split)
  }
qed

text \<open>So \<open>parse_first\<close> is the parser without a bound on its fuel.\<close>

lemma parse_first_any_fuel: "2 * length s < n \<Longrightarrow> parse_value n 10000 s = parse_first s"
proof (induction n)
  case (Suc n)
  show ?case
  proof (cases "2 * length s < n")
    case True
    then show ?thesis
      using Suc.IH parse_fuel(1)[OF True, of 10000] by simp
  next
    case False
    then have "n = 2 * length s"
      using Suc.prems by simp
    then show ?thesis
      using parse_fuel(1)[of s "Suc n" 10000] by (simp add: parse_first_def del: parse_value.simps)
  qed
qed simp

lemma parse_first_render:
  "json_ok v \<Longrightarrow> depth v \<le> 10000 \<Longrightarrow> ends_number rest \<Longrightarrow> parse_first (render v @ rest) = Some (v, rest)"
  using parse_render(1)[of v 10000 rest "2 * length (render v @ rest) + 2"]
  by (simp add: parse_first_def del: parse_value.simps)

end
