(* ===== verification/Wire.thy ===== *)
theory Wire
  imports Json Models
begin

text \<open>
  The JSON form of \<open>internal/models\<close>: how \<open>encoding/json\<close> fills a request struct from a body, by
  the names in the struct tags, and how it writes a run and a schedule. Unknown members are
  skipped, the last of several members with the same name wins, \<open>null\<close> leaves a value and clears
  a pointer, and a member of the wrong type makes the whole decoding fail.
\<close>

section \<open>Decoding into a struct\<close>

text \<open>
  A member is matched by its exact name, else up to case folding: of the runes that fold to an
  ASCII letter, only the letters themselves, U+017F (to \<open>S\<close>) and U+212A (to \<open>K\<close>).
\<close>

definition fold_rune :: "nat \<Rightarrow> nat" where
  "fold_rune r = (if 97 \<le> r \<and> r \<le> 122 then r - 32 else if r = 383 then 83 else if r = 8490 then 75 else r)"

definition fold_name :: "string \<Rightarrow> nat list" where
  "fold_name s = map fold_rune (range_string s)"

type_synonym 'r field = "string \<times> (json \<Rightarrow> 'r \<Rightarrow> 'r option)"

definition find_field :: "'r field list \<Rightarrow> string \<Rightarrow> 'r field option" where
  "find_field fs key =
     (case List.find (\<lambda>f. fst f = key) fs of
        Some f \<Rightarrow> Some f
      | None \<Rightarrow> List.find (\<lambda>f. fold_name (fst f) = fold_name key) fs)"

definition put_string :: "(string \<Rightarrow> 'r \<Rightarrow> 'r) \<Rightarrow> json \<Rightarrow> 'r \<Rightarrow> 'r option" where
  "put_string upd v r = (case v of JString s \<Rightarrow> Some (upd s r) | JNull \<Rightarrow> Some r | _ \<Rightarrow> None)"

definition put_int64 :: "(int64 \<Rightarrow> 'r \<Rightarrow> 'r) \<Rightarrow> json \<Rightarrow> 'r \<Rightarrow> 'r option" where
  "put_int64 upd v r =
     (case v of
        JNumber lit \<Rightarrow> (case Atoi lit of None \<Rightarrow> None | Some n \<Rightarrow> Some (upd (word_of_int n) r))
      | JNull \<Rightarrow> Some r
      | _ \<Rightarrow> None)"

text \<open>A pointer field: \<open>null\<close> clears it.\<close>

definition put_pointer ::
  "(('a \<Rightarrow> 'r \<Rightarrow> 'r) \<Rightarrow> json \<Rightarrow> 'r \<Rightarrow> 'r option) \<Rightarrow> ('a option \<Rightarrow> 'r \<Rightarrow> 'r) \<Rightarrow> json \<Rightarrow> 'r \<Rightarrow> 'r option"
where
  "put_pointer put upd v r = (if v = JNull then Some (upd None r) else put (\<lambda>x. upd (Some x)) v r)"

fun decode_members :: "'r field list \<Rightarrow> (string \<times> json) list \<Rightarrow> 'r \<Rightarrow> 'r option" where
  "decode_members fs [] r = Some r"
| "decode_members fs ((k, v) # ms) r =
     (case find_field fs k of
        None \<Rightarrow> decode_members fs ms r
      | Some (name, put) \<Rightarrow>
          (case put v r of None \<Rightarrow> None | Some r1 \<Rightarrow> decode_members fs ms r1))"

definition decode_struct :: "'r field list \<Rightarrow> 'r \<Rightarrow> json \<Rightarrow> 'r option" where
  "decode_struct fs zero v =
     (case v of JObject ms \<Rightarrow> decode_members fs ms zero | JNull \<Rightarrow> Some zero | _ \<Rightarrow> None)"

definition Decode :: "'r field list \<Rightarrow> 'r \<Rightarrow> string \<Rightarrow> 'r option" where
  "Decode fs zero raw =
     (case parse_first raw of None \<Rightarrow> None | Some (v, rest) \<Rightarrow> decode_struct fs zero v)"

section \<open>The request structs\<close>

definition StartRequest_fields :: "StartRequest field list" where
  "StartRequest_fields =
     [(''task_name'', put_string (\<lambda>s r. r\<lparr>start_TaskName := s\<rparr>)),
      (''run_id'', put_string (\<lambda>s r. r\<lparr>start_RunID := s\<rparr>)),
      (''source'', put_string (\<lambda>s r. r\<lparr>start_Source := s\<rparr>)),
      (''ttl_seconds'', put_pointer put_int64 (\<lambda>n r. r\<lparr>start_TTLSeconds := n\<rparr>))]"

definition decode_start :: "string \<Rightarrow> StartRequest option" where
  "decode_start =
     Decode StartRequest_fields
       \<lparr>start_TaskName = '''', start_RunID = '''', start_Source = '''', start_TTLSeconds = None\<rparr>"

definition HeartbeatRequest_fields :: "HeartbeatRequest field list" where
  "HeartbeatRequest_fields = [(''run_id'', put_string (\<lambda>s r. r\<lparr>heartbeat_RunID := s\<rparr>))]"

definition decode_heartbeat :: "string \<Rightarrow> HeartbeatRequest option" where
  "decode_heartbeat = Decode HeartbeatRequest_fields \<lparr>heartbeat_RunID = ''''\<rparr>"

definition SuccessRequest_fields :: "SuccessRequest field list" where
  "SuccessRequest_fields = [(''run_id'', put_string (\<lambda>s r. r\<lparr>success_RunID := s\<rparr>))]"

definition decode_success :: "string \<Rightarrow> SuccessRequest option" where
  "decode_success = Decode SuccessRequest_fields \<lparr>success_RunID = ''''\<rparr>"

definition FailedRequest_fields :: "FailedRequest field list" where
  "FailedRequest_fields =
     [(''run_id'', put_string (\<lambda>s r. r\<lparr>failed_RunID := s\<rparr>)),
      (''error_message'', put_string (\<lambda>s r. r\<lparr>failed_ErrorMessage := s\<rparr>))]"

definition decode_failed :: "string \<Rightarrow> FailedRequest option" where
  "decode_failed = Decode FailedRequest_fields \<lparr>failed_RunID = '''', failed_ErrorMessage = ''''\<rparr>"

definition RegisterScheduleRequest_fields :: "RegisterScheduleRequest field list" where
  "RegisterScheduleRequest_fields =
     [(''task_name'', put_string (\<lambda>s r. r\<lparr>reg_TaskName := s\<rparr>)),
      (''expected_interval_seconds'', put_pointer put_int64 (\<lambda>n r. r\<lparr>reg_ExpectedIntervalSeconds := n\<rparr>)),
      (''cron_expression'', put_pointer put_string (\<lambda>s r. r\<lparr>reg_CronExpression := s\<rparr>)),
      (''grace_period_seconds'', put_int64 (\<lambda>n r. r\<lparr>reg_GracePeriodSeconds := n\<rparr>))]"

definition decode_register :: "string \<Rightarrow> RegisterScheduleRequest option" where
  "decode_register =
     Decode RegisterScheduleRequest_fields
       \<lparr>reg_TaskName = '''', reg_ExpectedIntervalSeconds = None, reg_CronExpression = None, reg_GracePeriodSeconds = 0\<rparr>"

section \<open>Writing runs and schedules\<close>

text \<open>
  \<open>omitempty\<close> leaves out an empty string and a nil pointer. The instants of a value are written
  with the offset of the location they carry, \<open>zone\<close>.
\<close>

definition omit_nil :: "string \<Rightarrow> ('a \<Rightarrow> json) \<Rightarrow> 'a option \<Rightarrow> (string \<times> json) list" where
  "omit_nil name write x = (case x of None \<Rightarrow> [] | Some v \<Rightarrow> [(name, write v)])"

definition omit_empty :: "string \<Rightarrow> string \<Rightarrow> (string \<times> json) list" where
  "omit_empty name s = (if s = '''' then [] else [(name, JString s)])"

definition json_int64 :: "int64 \<Rightarrow> json" where
  "json_int64 n = JNumber (Itoa (sint n))"

definition json_time :: "(time \<Rightarrow> int) \<Rightarrow> time \<Rightarrow> json" where
  "json_time zone t = JString (FormatRFC3339Nano (zone t) t)"

definition json_TaskRun :: "(time \<Rightarrow> int) \<Rightarrow> TaskRun \<Rightarrow> json" where
  "json_TaskRun zone t =
     JObject
       ([(''run_id'', JString (RunID t)), (''task_name'', JString (TaskName t))] @
        omit_empty ''source'' (Source t) @
        [(''status'', JString (TaskStatusString (Status t))), (''started_at'', json_time zone (StartedAt t))] @
        omit_nil ''finished_at'' (json_time zone) (FinishedAt t) @
        omit_nil ''last_heartbeat_at'' (json_time zone) (LastHeartbeatAt t) @
        omit_nil ''ttl_seconds'' json_int64 (TTLSeconds t) @
        omit_nil ''duration_ms'' json_int64 (DurationMs t) @
        omit_empty ''error_message'' (ErrorMessage t))"

definition json_Schedule :: "(time \<Rightarrow> int) \<Rightarrow> Schedule \<Rightarrow> json" where
  "json_Schedule zone s =
     JObject
       ([(''task_name'', JString (sched_TaskName s))] @
        omit_nil ''expected_interval_seconds'' json_int64 (ExpectedIntervalSeconds s) @
        omit_nil ''cron_expression'' JString (CronExpression s) @
        [(''grace_period_seconds'', json_int64 (GracePeriodSeconds s))] @
        omit_nil ''last_seen_at'' (json_time zone) (LastSeenAt s) @
        [(''status'', JString (ScheduleStatusString (sched_Status s))), (''updated_at'', json_time zone (UpdatedAt s))])"

text \<open>\<open>json.Marshal\<close> of a run fails when an instant has no four-digit year.\<close>

definition Marshal_TaskRun :: "(time \<Rightarrow> int) \<Rightarrow> TaskRun \<Rightarrow> string + string" where
  "Marshal_TaskRun zone t =
     (if list_all (\<lambda>x. four_digit_year (zone x) x)
           (StartedAt t # (case FinishedAt t of None \<Rightarrow> [] | Some x \<Rightarrow> [x]) @
              (case LastHeartbeatAt t of None \<Rightarrow> [] | Some x \<Rightarrow> [x]))
      then Inr (render (json_TaskRun zone t))
      else Inl ''json: error calling MarshalJSON for type time.Time'')"

section \<open>Bodies that a client encoded\<close>

lemma Decode_render:
  assumes "json_ok v" and "depth v \<le> 10000"
  shows "Decode fs zero (render v) = decode_struct fs zero v"
  using parse_first_render[OF assms, of "[]"] by (simp add: Decode_def ends_number_def)

lemma integer_literal_int64: "integer_literal (Itoa (sint (n :: int64)))"
  by (simp add: integer_literal_def Atoi_Itoa in_int64_sint)

lemma Atoi_int64 [simp]: "Atoi (Itoa (sint (n :: int64))) = Some (sint n)"
  by (simp add: Atoi_Itoa in_int64_sint)

lemma json_int64_ok [simp]: "json_ok (json_int64 n)" "depth (json_int64 n) = 0"
  by (simp_all add: json_int64_def integer_literal_int64)

lemma json_time_ok [simp]: "json_ok (json_time z t)" "depth (json_time z t) = 0"
  by (simp_all add: json_time_def valid_utf8_ascii is_ascii_FormatRFC3339Nano)

text \<open>A run whose texts are valid UTF-8 is written as well-formed JSON.\<close>

lemma json_TaskRun_ok:
  assumes "valid_utf8 (RunID t)" and "valid_utf8 (TaskName t)" and "valid_utf8 (Source t)"
    and "valid_utf8 (ErrorMessage t)"
  shows "json_ok (json_TaskRun z t)" and "depth (json_TaskRun z t) = 1"
proof -
  have members: "members_ok (xs @ ys) \<longleftrightarrow> members_ok xs \<and> members_ok ys"
    "depth_members (xs @ ys) = max (depth_members xs) (depth_members ys)" for xs ys
    by (induction xs) auto
  have names: "valid_utf8 ''run_id''" "valid_utf8 ''task_name''" "valid_utf8 ''source''" "valid_utf8 ''status''"
    "valid_utf8 ''started_at''" "valid_utf8 ''finished_at''" "valid_utf8 ''last_heartbeat_at''"
    "valid_utf8 ''ttl_seconds''" "valid_utf8 ''duration_ms''" "valid_utf8 ''error_message''"
    by (simp_all add: valid_utf8_ascii is_ascii_def)
  have "valid_utf8 (TaskStatusString s)" for s
    by (cases s) (simp_all add: valid_utf8_ascii is_ascii_def)
  then show "json_ok (json_TaskRun z t)"
    using assms names unfolding json_TaskRun_def omit_nil_def omit_empty_def
    by (simp add: members split: option.split)
  show "depth (json_TaskRun z t) = 1"
    unfolding json_TaskRun_def omit_nil_def omit_empty_def
    by (simp add: members split: option.split)
qed

text \<open>Looking a member up among those a writer may leave out.\<close>

lemma map_of_omit:
  "map_of (omit_nil n write x) k = (if k = n then map_option write x else None)"
  "map_of (omit_empty n s) k = (if k = n \<and> s \<noteq> '''' then Some (JString s) else None)"
  by (auto simp: omit_nil_def omit_empty_def split: option.split)

lemma map_of_app: "map_of (xs @ ys) k = (case map_of xs k of None \<Rightarrow> map_of ys k | Some v \<Rightarrow> Some v)"
  by (induction xs) auto

lemmas field_defs =
  find_field_def StartRequest_fields_def HeartbeatRequest_fields_def SuccessRequest_fields_def
  FailedRequest_fields_def RegisterScheduleRequest_fields_def
  put_string_def put_int64_def put_pointer_def decode_struct_def

lemma decode_run_id:
  assumes "valid_utf8 k"
  shows "decode_heartbeat (render (JObject [(''run_id'', JString k)])) = Some \<lparr>heartbeat_RunID = k\<rparr>"
    and "decode_success (render (JObject [(''run_id'', JString k)])) = Some \<lparr>success_RunID = k\<rparr>"
proof -
  have "valid_utf8 ''run_id''"
    by (simp add: valid_utf8_ascii is_ascii_def)
  then show "decode_heartbeat (render (JObject [(''run_id'', JString k)])) = Some \<lparr>heartbeat_RunID = k\<rparr>"
    and "decode_success (render (JObject [(''run_id'', JString k)])) = Some \<lparr>success_RunID = k\<rparr>"
    using assms unfolding decode_heartbeat_def decode_success_def
    by (subst Decode_render; simp add: field_defs)+
qed

section \<open>Bodies that do not fit\<close>

lemma decode_members_None:
  "(k, v) \<in> set ms \<Longrightarrow> find_field fs k = Some (name, put) \<Longrightarrow> (\<And>r. put v r = None) \<Longrightarrow>
     decode_members fs ms r = None"
  by (induction fs ms r rule: decode_members.induct) (auto split: option.split prod.split)

lemma fold_names:
  "fold_name ''task_name'' = [84, 65, 83, 75, 95, 78, 65, 77, 69]" "fold_name ''run_id'' = [82, 85, 78, 95, 73, 68]"
  "fold_name ''source'' = [83, 79, 85, 82, 67, 69]"
  "fold_name ''ttl_seconds'' = [84, 84, 76, 95, 83, 69, 67, 79, 78, 68, 83]"
  by (simp_all add: fold_name_def range_string_ascii is_ascii_def fold_rune_def)

lemma find_ttl_field:
  assumes "fold_name k = fold_name ''ttl_seconds''"
  shows "find_field StartRequest_fields k = Some (''ttl_seconds'', put_pointer put_int64 (\<lambda>n r. r\<lparr>start_TTLSeconds := n\<rparr>))"
proof -
  have "k \<noteq> ''task_name'' \<and> k \<noteq> ''run_id'' \<and> k \<noteq> ''source''"
    using assms fold_names by auto
  then show ?thesis
    using assms by (auto simp: find_field_def StartRequest_fields_def fold_names)
qed

text \<open>A value that a TTL cannot be decoded from: a fraction, an exponent, a number out of range, or no number.\<close>

definition bad_ttl :: "json \<Rightarrow> bool" where
  "bad_ttl v \<longleftrightarrow> (case v of JNumber lit \<Rightarrow> Atoi lit = None | JNull \<Rightarrow> False | _ \<Rightarrow> True)"

lemma decode_bad_ttl:
  assumes "(k, v) \<in> set ms" and "fold_name k = fold_name ''ttl_seconds''" and "bad_ttl v"
    and "parse_first raw = Some (JObject ms, rest)"
  shows "decode_start raw = None"
proof -
  have "put_pointer put_int64 (\<lambda>n r. r\<lparr>start_TTLSeconds := n\<rparr>) v r = None" for r
    using assms(3) by (auto simp: bad_ttl_def put_pointer_def put_int64_def split: json.splits)
  then have "decode_members StartRequest_fields ms r = None" for r
    by (rule decode_members_None[OF assms(1) find_ttl_field[OF assms(2)]])
  then show ?thesis
    using assms(4) by (simp add: decode_start_def Decode_def decode_struct_def)
qed

section \<open>Properties\<close>

text \<open>What \<open>json.Marshal\<close> writes for a request struct: every member, \<open>null\<close> for a nil pointer.\<close>

definition json_pointer :: "('a \<Rightarrow> json) \<Rightarrow> 'a option \<Rightarrow> json" where
  "json_pointer write x = (case x of None \<Rightarrow> JNull | Some v \<Rightarrow> write v)"

definition json_StartRequest :: "StartRequest \<Rightarrow> json" where
  "json_StartRequest r =
     JObject [(''task_name'', JString (start_TaskName r)), (''run_id'', JString (start_RunID r)),
       (''source'', JString (start_Source r)), (''ttl_seconds'', json_pointer json_int64 (start_TTLSeconds r))]"

definition json_RegisterScheduleRequest :: "RegisterScheduleRequest \<Rightarrow> json" where
  "json_RegisterScheduleRequest r =
     JObject [(''task_name'', JString (reg_TaskName r)),
       (''expected_interval_seconds'', json_pointer json_int64 (reg_ExpectedIntervalSeconds r)),
       (''cron_expression'', json_pointer JString (reg_CronExpression r)),
       (''grace_period_seconds'', json_int64 (reg_GracePeriodSeconds r))]"



end
