(* ===== verification/TaskHandler.thy ===== *)
theory TaskHandler
  imports World Wire
begin

text \<open>
  \<open>internal/handlers/task_handler.go\<close>. A handler takes the request and the world to a response and
  the new world. A body is decoded by \<open>Wire\<close>, then the \<open>binding:"required"\<close> tags of \<open>models\<close> are
  checked; the texts of the errors are the parameter \<open>gin\<close>. \<open>time.Now().UTC()\<close> and
  \<open>uuid.NewString()\<close> are the arguments \<open>now\<close> and \<open>uuid\<close>. The response bodies are the Go values
  handed to \<open>c.JSON\<close>, with their JSON form.
\<close>

record gin =
  decode_error :: "string \<Rightarrow> string"
  required_error :: "string \<Rightarrow> string"

datatype payload =
    NoBody
  | JError string
  | JRunID string
  | JTask TaskRun
  | JTasks "TaskRun list"
  | JSchedules "Schedule list"
  | JStatus string
  | Content string
  | EventStream nat "(string \<times> string) list"

record response =
  code :: nat
  payload :: payload

definition reply :: "nat \<Rightarrow> payload \<Rightarrow> response" where
  "reply n b = \<lparr>code = n, payload = b\<rparr>"

lemma reply_fields [simp]: "code (reply n b) = n" "payload (reply n b) = b"
  by (simp_all add: reply_def)

text \<open>
  The JSON body of a response. The two list handlers pass on the slice of the store, which is nil
  when there is no row, and a nil slice is written as \<open>null\<close>. The instants are those of the
  server's clock, whose year has four digits.
\<close>

definition json_slice :: "('a \<Rightarrow> json) \<Rightarrow> 'a list \<Rightarrow> json" where
  "json_slice write xs = (if xs = [] then JNull else JArray (map write xs))"

definition payload_json :: "(time \<Rightarrow> int) \<Rightarrow> payload \<Rightarrow> json option" where
  "payload_json offset b =
     (case b of
        JError e \<Rightarrow> Some (JObject [(''error'', JString e)])
      | JRunID k \<Rightarrow> Some (JObject [(''run_id'', JString k)])
      | JTask t \<Rightarrow> Some (json_TaskRun offset t)
      | JTasks ts \<Rightarrow> Some (JObject [(''tasks'', json_slice (json_TaskRun offset) ts)])
      | JSchedules ss \<Rightarrow> Some (JObject [(''schedules'', json_slice (json_Schedule offset) ss)])
      | JStatus s \<Rightarrow> Some (JObject [(''status'', JString s)])
      | _ \<Rightarrow> None)"

section \<open>Binding the request bodies\<close>

definition required :: "gin \<Rightarrow> string \<Rightarrow> ('r \<Rightarrow> string) \<Rightarrow> string \<Rightarrow> 'r option \<Rightarrow> string + 'r" where
  "required g name field raw decoded =
     (case decoded of
        None \<Rightarrow> Inl (decode_error g raw)
      | Some req \<Rightarrow> if field req = [] then Inl (required_error g name) else Inr req)"

definition bind_start :: "gin \<Rightarrow> string \<Rightarrow> string + StartRequest" where
  "bind_start g raw = required g ''TaskName'' start_TaskName raw (decode_start raw)"

definition bind_heartbeat :: "gin \<Rightarrow> string \<Rightarrow> string + HeartbeatRequest" where
  "bind_heartbeat g raw = required g ''RunID'' heartbeat_RunID raw (decode_heartbeat raw)"

definition bind_success :: "gin \<Rightarrow> string \<Rightarrow> string + SuccessRequest" where
  "bind_success g raw = required g ''RunID'' success_RunID raw (decode_success raw)"

definition bind_failed :: "gin \<Rightarrow> string \<Rightarrow> string + FailedRequest" where
  "bind_failed g raw = required g ''RunID'' failed_RunID raw (decode_failed raw)"

section \<open>The handlers\<close>

definition respondStoreErr :: "store_error \<Rightarrow> string \<Rightarrow> response" where
  "respondStoreErr err notFoundMsg =
     (case err of
        ErrNotFound \<Rightarrow> reply 404 (JError notFoundMsg)
      | DriverError _ \<Rightarrow> reply 500 (JError ''internal error''))"

definition publishLatest :: "engine \<Rightarrow> string \<Rightarrow> EventType \<Rightarrow> world \<Rightarrow> world" where
  "publishLatest eng runID eventType w =
     (case run_db (TaskGet eng runID) w of
        (Inl err, w1) \<Rightarrow> w1
      | (Inr task, w1) \<Rightarrow> publish eventType task w1)"

definition started_task :: "StartRequest \<Rightarrow> string \<Rightarrow> time \<Rightarrow> TaskRun" where
  "started_task req runID now =
     \<lparr>RunID = runID, TaskName = start_TaskName req, Source = start_Source req, Status = StatusRunning,
      StartedAt = now, FinishedAt = None, LastHeartbeatAt = None, TTLSeconds = start_TTLSeconds req,
      DurationMs = None, ErrorMessage = ''''\<rparr>"

definition chosen_run_id :: "StartRequest \<Rightarrow> string \<Rightarrow> string" where
  "chosen_run_id req uuid = (if start_RunID req = '''' then uuid else start_RunID req)"

definition HandleStart :: "gin \<Rightarrow> engine \<Rightarrow> time \<Rightarrow> string \<Rightarrow> string \<Rightarrow> world \<Rightarrow> response \<times> world" where
  "HandleStart g eng now uuid raw w =
     (case bind_start g raw of
        Inl e \<Rightarrow> (reply 400 (JError e), w)
      | Inr req \<Rightarrow>
          (let runID = chosen_run_id req uuid;
               task = started_task req runID now
           in case run_db (Create eng task) w of
                (Inl err, w1) \<Rightarrow> (reply 500 (JError ''failed to record task start''), w1)
              | (Inr _, w1) \<Rightarrow>
                  (let w2 = publish EventStarted (task\<lparr>LastHeartbeatAt := Some (StartedAt task)\<rparr>) w1;
                       (_, w3) = run_db (Touch eng (start_TaskName req) (StartedAt task)) w2
                   in (reply 201 (JRunID runID), w3))))"

definition HandleHeartbeat :: "gin \<Rightarrow> engine \<Rightarrow> time \<Rightarrow> string \<Rightarrow> world \<Rightarrow> response \<times> world" where
  "HandleHeartbeat g eng now raw w =
     (case bind_heartbeat g raw of
        Inl e \<Rightarrow> (reply 400 (JError e), w)
      | Inr req \<Rightarrow>
          (case run_db (Heartbeat eng (heartbeat_RunID req) now) w of
             (Inl err, w1) \<Rightarrow> (respondStoreErr err ''task run not found'', w1)
           | (Inr _, w1) \<Rightarrow> (reply 204 NoBody, publishLatest eng (heartbeat_RunID req) EventHeartbeat w1)))"

definition HandleSuccess :: "gin \<Rightarrow> engine \<Rightarrow> time \<Rightarrow> string \<Rightarrow> world \<Rightarrow> response \<times> world" where
  "HandleSuccess g eng now raw w =
     (case bind_success g raw of
        Inl e \<Rightarrow> (reply 400 (JError e), w)
      | Inr req \<Rightarrow>
          (case run_db (Finish eng (success_RunID req) StatusSuccess '''' now) w of
             (Inl err, w1) \<Rightarrow> (respondStoreErr err ''task run not found'', w1)
           | (Inr _, w1) \<Rightarrow> (reply 204 NoBody, publishLatest eng (success_RunID req) EventSucceeded w1)))"

definition HandleFailed :: "gin \<Rightarrow> engine \<Rightarrow> time \<Rightarrow> string \<Rightarrow> world \<Rightarrow> response \<times> world" where
  "HandleFailed g eng now raw w =
     (case bind_failed g raw of
        Inl e \<Rightarrow> (reply 400 (JError e), w)
      | Inr req \<Rightarrow>
          (case run_db (Finish eng (failed_RunID req) StatusFailed (failed_ErrorMessage req) now) w of
             (Inl err, w1) \<Rightarrow> (respondStoreErr err ''task run not found'', w1)
           | (Inr _, w1) \<Rightarrow> (reply 204 NoBody, publishLatest eng (failed_RunID req) EventFailed w1)))"

definition HandleGet :: "engine \<Rightarrow> string \<Rightarrow> world \<Rightarrow> response \<times> world" where
  "HandleGet eng runID w =
     (case run_db (TaskGet eng runID) w of
        (Inl err, w1) \<Rightarrow> (respondStoreErr err ''task run not found'', w1)
      | (Inr task, w1) \<Rightarrow> (reply 200 (JTask task), w1))"

definition HandleList :: "engine \<Rightarrow> string \<Rightarrow> world \<Rightarrow> response \<times> world" where
  "HandleList eng status w =
     (case run_db (TaskList eng status) w of
        (Inl err, w1) \<Rightarrow> (reply 500 (JError ''failed to list tasks''), w1)
      | (Inr tasks, w1) \<Rightarrow> (reply 200 (JTasks tasks), w1))"

section \<open>The invariant\<close>

lemma world_ok_run_db:
  assumes "world_ok w" and "runs_ok (task_runs (snd (m (w_db w))))"
    and "scheds_ok (task_schedules (snd (m (w_db w))))"
  shows "world_ok (snd (run_db m w))"
  using assms by (simp add: world_ok_def)

lemma world_okD:
  "world_ok w \<Longrightarrow> runs_ok (task_runs (w_db w))"
  "world_ok w \<Longrightarrow> scheds_ok (task_schedules (w_db w))"
  "world_ok w \<Longrightarrow> hub_ok (w_hub w)"
  by (simp_all add: world_ok_def)

lemma world_ok_TaskGet [inv_intros]: "world_ok w \<Longrightarrow> world_ok (snd (run_db (TaskGet eng k) w))"
  by (rule world_ok_run_db) (simp_all add: world_ok_def)

lemma world_ok_publishLatest [inv_intros]: "world_ok w \<Longrightarrow> world_ok (publishLatest eng k ty w)"
  using world_ok_TaskGet[of w eng k]
  by (auto simp: publishLatest_def intro: world_ok_publish split: prod.split sum.split)

lemma world_ok_Create: "world_ok w \<Longrightarrow> Status t = StatusRunning \<Longrightarrow> world_ok (snd (run_db (Create eng t) w))"
  by (rule world_ok_run_db) (auto simp: world_ok_def intro: runs_ok_Create)

lemma world_ok_Touch: "world_ok w \<Longrightarrow> world_ok (snd (run_db (Touch eng n at) w))"
  by (rule world_ok_run_db) (auto simp: world_ok_def intro: scheds_ok_Touch)

lemma world_ok_Heartbeat: "world_ok w \<Longrightarrow> world_ok (snd (run_db (Heartbeat eng k at) w))"
  by (rule world_ok_run_db) (auto simp: world_ok_def intro: runs_ok_Heartbeat)

lemma world_ok_Finish:
  "world_ok w \<Longrightarrow> st \<noteq> StatusRunning \<Longrightarrow> st \<noteq> StatusMissed \<Longrightarrow>
     world_ok (snd (run_db (Finish eng k st msg at) w))"
  by (rule world_ok_run_db) (auto simp: world_ok_def intro: runs_ok_Finish)

lemma world_ok_HandleStart [inv_intros]:
  assumes "world_ok w"
  shows "world_ok (snd (HandleStart g eng now uuid raw w))"
proof (cases "bind_start g raw")
  case (Inl e)
  then show ?thesis using assms by (simp add: HandleStart_def)
next
  case (Inr req)
  let ?t = "started_task req (chosen_run_id req uuid) now"
  obtain res w1 where c: "run_db (Create eng ?t) w = (res, w1)"
    by fastforce
  then have "world_ok w1"
    using world_ok_Create[OF assms, of ?t eng] by (simp add: started_task_def)
  obtain touched w3 where t: "run_db (Touch eng (start_TaskName req) (StartedAt ?t))
      (publish EventStarted (?t\<lparr>LastHeartbeatAt := Some (StartedAt ?t)\<rparr>) w1) = (touched, w3)"
    by fastforce
  have "world_ok w3"
    using world_ok_Touch[OF world_ok_publish[OF \<open>world_ok w1\<close>]] t by (metis snd_conv)
  then show ?thesis
    using \<open>world_ok w1\<close> by (cases res) (simp_all add: HandleStart_def Inr c t Let_def)
qed

lemma world_ok_HandleHeartbeat [inv_intros]:
  "world_ok w \<Longrightarrow> world_ok (snd (HandleHeartbeat g eng now raw w))"
  using world_ok_Heartbeat[of w eng]
  by (auto simp: HandleHeartbeat_def split_beta intro!: world_ok_publishLatest split: sum.split)

lemma world_ok_HandleSuccess [inv_intros]:
  "world_ok w \<Longrightarrow> world_ok (snd (HandleSuccess g eng now raw w))"
  using world_ok_Finish[of w StatusSuccess eng]
  by (auto simp: HandleSuccess_def split_beta intro!: world_ok_publishLatest split: sum.split)

lemma world_ok_HandleFailed [inv_intros]:
  "world_ok w \<Longrightarrow> world_ok (snd (HandleFailed g eng now raw w))"
  using world_ok_Finish[of w StatusFailed eng]
  by (auto simp: HandleFailed_def split_beta intro!: world_ok_publishLatest split: sum.split)

lemma world_ok_HandleGet [inv_intros]: "world_ok w \<Longrightarrow> world_ok (snd (HandleGet eng k w))"
  using world_ok_TaskGet[of w eng k] by (auto simp: HandleGet_def split: prod.split sum.split)

lemma TaskList_tables [simp]:
  "task_runs (snd (TaskList eng st d)) = task_runs d"
  "task_schedules (snd (TaskList eng st d)) = task_schedules d"
  by (auto simp: TaskList_def Query_def Let_def split: option.splits)

lemma world_ok_HandleList [inv_intros]: "world_ok w \<Longrightarrow> world_ok (snd (HandleList eng st w))"
  using world_ok_run_db[of w "TaskList eng st"]
  by (auto simp: HandleList_def world_ok_def split_beta split: sum.split)

section \<open>Properties\<close>

text \<open>For the witnesses: error texts and well-formed bodies.\<close>

definition sample_gin :: gin where
  "sample_gin = \<lparr>decode_error = (\<lambda>_. ''invalid request''), required_error = (\<lambda>f. f @ '' is required'')\<rparr>"

definition start_body :: string where
  "start_body = render (JObject [(''task_name'', JString ''job''), (''source'', JString ''cron''), (''ttl_seconds'', JNumber ''5'')])"

definition run_body :: "string \<Rightarrow> string" where
  "run_body k = render (JObject [(''run_id'', JString k)])"

definition failed_body :: "string \<Rightarrow> string" where
  "failed_body k = render (JObject [(''run_id'', JString k), (''error_message'', JString ''boom'')])"

lemma sample_bodies:
  "bind_start sample_gin start_body =
     Inr \<lparr>start_TaskName = ''job'', start_RunID = [], start_Source = ''cron'', start_TTLSeconds = Some 5\<rparr>"
  "bind_heartbeat sample_gin (run_body ''a'') = Inr \<lparr>heartbeat_RunID = ''a''\<rparr>"
  "bind_failed sample_gin (failed_body ''a'') = Inr \<lparr>failed_RunID = ''a'', failed_ErrorMessage = ''boom''\<rparr>"
  "bind_failed sample_gin (failed_body ''z'') = Inr \<lparr>failed_RunID = ''z'', failed_ErrorMessage = ''boom''\<rparr>"
proof -
  have five: "integer_literal ''5'' \<and> Atoi ''5'' = Some 5"
    by code_simp
  have ascii: "is_ascii s \<Longrightarrow> valid_utf8 s" for s
    by (rule valid_utf8_ascii)
  show "bind_start sample_gin start_body =
      Inr \<lparr>start_TaskName = ''job'', start_RunID = [], start_Source = ''cron'', start_TTLSeconds = Some 5\<rparr>"
    using five unfolding bind_start_def start_body_def decode_start_def
    by (subst Decode_render; simp add: ascii is_ascii_def field_defs required_def)+
  show "bind_heartbeat sample_gin (run_body ''a'') = Inr \<lparr>heartbeat_RunID = ''a''\<rparr>"
    unfolding bind_heartbeat_def run_body_def
    by (subst decode_run_id) (simp_all add: ascii is_ascii_def required_def)
  show "bind_failed sample_gin (failed_body ''a'') = Inr \<lparr>failed_RunID = ''a'', failed_ErrorMessage = ''boom''\<rparr>"
    "bind_failed sample_gin (failed_body ''z'') = Inr \<lparr>failed_RunID = ''z'', failed_ErrorMessage = ''boom''\<rparr>"
    unfolding bind_failed_def failed_body_def decode_failed_def
    by (subst Decode_render; simp add: ascii is_ascii_def field_defs required_def)+
qed

definition sample_world :: world where
  "sample_world =
     \<lparr>w_db = sample_db\<lparr>task_schedules := [sample_sched (Some 0)]\<rparr>, w_hub = snd (Subscribe NewHub)\<rparr>"

lemma world_ok_sample [simp]: "world_ok sample_world"
  using runs_ok_sample hub_ok_Subscribe[OF hub_ok_New]
  by (simp add: world_ok_def sample_world_def scheds_ok_def keyed_def)

lemma HandleStart_created:
  assumes "bind_start g raw = Inr req"
    and "run_db (Create eng (started_task req (chosen_run_id req uuid) now)) w = (Inr (), w1)"
  shows "HandleStart g eng now uuid raw w =
    (reply 201 (JRunID (chosen_run_id req uuid)),
     snd (run_db (Touch eng (start_TaskName req) now)
       (publish EventStarted ((started_task req (chosen_run_id req uuid) now)\<lparr>LastHeartbeatAt := Some now\<rparr>) w1)))"
proof -
  have at: "StartedAt (started_task req i now) = now" for i
    by (simp add: started_task_def)
  show ?thesis
    unfolding HandleStart_def Let_def assms(1) sum.case assms(2) at
    by (simp add: split_beta)
qed

text \<open>
  C19. \<open>POST /events/start\<close> with a fresh run id answers 201 with that id, stores the run as
  running, announces it to the subscribers and restarts the deadline of the task's schedule,
  in one request.
\<close>

theorem HandleStart_accepts:
  assumes "no_faults eng" and "bind_start g raw = Inr req"
    and "i = chosen_run_id req uuid" and "i \<notin> r_run_id ` set (task_runs (w_db w))"
    and "HandleStart g eng now uuid raw w = (r, w')"
  shows "r = reply 201 (JRunID i) \<and>
    fst (TaskGet eng i (w_db w')) =
      Inr ((started_task req i now)\<lparr>StartedAt := stamp eng now, LastHeartbeatAt := Some (stamp eng now)\<rparr>) \<and>
    w_hub w' = Publish \<lparr>evt_Type = EventStarted,
      evt_Task = (started_task req i now)\<lparr>LastHeartbeatAt := Some now\<rparr>\<rparr> (w_hub w) \<and>
    at_key s_task_name (start_TaskName req) (task_schedules (w_db w')) =
      map_option (set_touched eng now) (at_key s_task_name (start_TaskName req) (task_schedules (w_db w)))"
proof -
  let ?t = "started_task req i now"
  let ?d1 = "snd (Create eng ?t (w_db w))"
  have id: "RunID ?t = i" and at: "StartedAt ?t = now" and fr: "RunID ?t \<notin> r_run_id ` set (task_runs (w_db w))"
    using assms(4) by (simp_all add: started_task_def)
  have created: "fst (Create eng ?t (w_db w)) = Inr ()"
    and stored: "fst (TaskGet eng i ?d1) = Inr (?t\<lparr>StartedAt := stamp eng now, FinishedAt := None,
        LastHeartbeatAt := Some (stamp eng now), DurationMs := None, ErrorMessage := ''''\<rparr>)"
    using create_fresh[OF assms(1) fr] id at by simp_all
  have run: "run_db (Create eng ?t) w = (Inr (), w\<lparr>w_db := ?d1\<rparr>)"
    using created by (simp add: run_db_def Let_def split_beta)
  have w': "r = reply 201 (JRunID i)" "w_db w' = snd (Touch eng (start_TaskName req) now ?d1)"
    "w_hub w' = Publish \<lparr>evt_Type = EventStarted, evt_Task = ?t\<lparr>LastHeartbeatAt := Some now\<rparr>\<rparr> (w_hub w)"
    using assms(5) HandleStart_created[OF assms(2) run[unfolded assms(3)]] by (auto simp: assms(3))
  have "task_runs (w_db w') = task_runs ?d1"
    by (simp add: w')
  then have "fst (TaskGet eng i (w_db w')) = fst (TaskGet eng i ?d1)"
    by (simp add: TaskGet_no_faults[OF assms(1)])
  moreover have "at_key s_task_name (start_TaskName req) (task_schedules (w_db w')) =
      map_option (set_touched eng now) (at_key s_task_name (start_TaskName req) (task_schedules (w_db w)))"
    by (simp add: w' Touch_no_faults[OF assms(1)] tch.at_key_point)
  ultimately show ?thesis
    using w' stored by (simp add: started_task_def)
qed

theorem HandleStart_accepts_witness:
  "fst (HandleStart sample_gin plain_engine 9 ''u'' start_body sample_world) = reply 201 (JRunID ''u'') \<and>
   map_option s_last_seen_at (at_key s_task_name ''job'' (task_schedules (w_db
     (snd (HandleStart sample_gin plain_engine 9 ''u'' start_body sample_world))))) = Some (Some 9)"
proof -
  let ?req = "\<lparr>start_TaskName = ''job'', start_RunID = '''', start_Source = ''cron'', start_TTLSeconds = Some 5\<rparr>"
  have i: "''u'' = chosen_run_id ?req ''u''" and fresh: "''u'' \<notin> r_run_id ` set (task_runs (w_db sample_world))"
    by (simp_all add: chosen_run_id_def sample_world_def sample_db_def sample_row_def)
  have "at_key s_task_name ''job'' (task_schedules (w_db sample_world)) = Some (sample_sched (Some 0))"
    by (simp add: sample_world_def at_key_def sample_sched_def)
  then show ?thesis
    using HandleStart_accepts[OF no_faults_plain sample_bodies(1) i fresh prod.collapse[symmetric], of 9]
    by (simp add: set_touched_def)
qed

text \<open>
  C20. A start that is refused, because the body does not bind (400) or because its run id is
  already in use (500), leaves both tables and the hub as they were: no event, no schedule reset.
\<close>

theorem HandleStart_refuses:
  assumes "no_faults eng"
    and "(\<exists>e. bind_start g raw = Inl e) \<or>
      (\<exists>req. bind_start g raw = Inr req \<and> chosen_run_id req uuid \<in> r_run_id ` set (task_runs (w_db w)))"
    and "HandleStart g eng now uuid raw w = (r, w')"
  shows "code r \<in> {400, 500} \<and> task_runs (w_db w') = task_runs (w_db w) \<and>
    task_schedules (w_db w') = task_schedules (w_db w) \<and> w_hub w' = w_hub w"
  using assms(2)
proof (elim disjE exE conjE)
  fix e
  assume "bind_start g raw = Inl e"
  then show ?thesis
    using assms(3) by (auto simp: HandleStart_def)
next
  fix req
  assume b: "bind_start g raw = Inr req"
    and used: "chosen_run_id req uuid \<in> r_run_id ` set (task_runs (w_db w))"
  let ?t = "started_task req (chosen_run_id req uuid) now"
  have "RunID ?t \<in> r_run_id ` set (task_runs (w_db w))"
    using used by (simp add: started_task_def)
  then have "Create eng ?t (w_db w) = (Inl (DriverError (key_error eng)), w_db w\<lparr>stmts := Suc (stmts (w_db w))\<rparr>)"
    by (simp add: Create_def Exec_no_faults[OF assms(1)] insert_run_def new_run_row_def)
  then show ?thesis
    using assms(3) by (auto simp: HandleStart_def b run_db_def Let_def)
qed

theorem HandleStart_refuses_witness:
  "code (fst (HandleStart sample_gin plain_engine 9 ''a'' start_body sample_world)) \<in> {400, 500} \<and>
   w_hub (snd (HandleStart sample_gin plain_engine 9 ''a'' start_body sample_world)) = w_hub sample_world"
proof -
  have "\<exists>req. bind_start sample_gin start_body = Inr req \<and>
      chosen_run_id req ''a'' \<in> r_run_id ` set (task_runs (w_db sample_world))"
    by (simp add: sample_bodies chosen_run_id_def sample_world_def sample_db_def sample_row_def)
  then show ?thesis
    using HandleStart_refuses[OF no_faults_plain disjI2 prod.collapse[symmetric], of sample_gin start_body "''a''" sample_world 9]
    by blast
qed



text \<open>
  C25. What a client of \<open>GET /tasks/:runID\<close> reads: for a stored run whose texts are valid UTF-8, the body
  of the answer decodes to one JSON object whose members are the columns of the row, in which an
  absent finish time, TTL or duration and an empty source or message have no member at all.
\<close>

theorem run_read_over_http:
  assumes "no_faults eng" and "at_key r_run_id k (task_runs (w_db w)) = Some row"
    and "valid_utf8 k" and "valid_utf8 (r_task_name row)"
    and "\<And>s. r_source row = Some s \<Longrightarrow> valid_utf8 s" and "\<And>s. r_error_message row = Some s \<Longrightarrow> valid_utf8 s"
  shows "\<exists>body ms. code (fst (HandleGet eng k w)) = 200 \<and>
    map_option render (payload_json tz (payload (fst (HandleGet eng k w)))) = Some body \<and>
    parse_first body = Some (JObject ms, []) \<and>
    map_of ms ''run_id'' = Some (JString k) \<and>
    map_of ms ''task_name'' = Some (JString (r_task_name row)) \<and>
    map_of ms ''status'' = Some (JString (TaskStatusString (r_status row))) \<and>
    map_of ms ''started_at'' = Some (json_time tz (r_started_at row)) \<and>
    map_of ms ''finished_at'' = map_option (json_time tz) (r_finished_at row) \<and>
    map_of ms ''last_heartbeat_at'' = map_option (json_time tz) (r_last_heartbeat_at row) \<and>
    map_of ms ''ttl_seconds'' = map_option json_int64 (r_ttl_seconds row) \<and>
    map_of ms ''duration_ms'' = map_option json_int64 (r_duration_ms row) \<and>
    map_of ms ''source'' = (if r_source row \<in> {None, Some ''''} then None else map_option JString (r_source row)) \<and>
    map_of ms ''error_message'' =
      (if r_error_message row \<in> {None, Some ''''} then None else map_option JString (r_error_message row))"
proof -
  let ?t = "scanTaskRun row"
  have get: "fst (HandleGet eng k w) = reply 200 (JTask ?t)"
    by (simp add: HandleGet_def run_db_def TaskGet_no_faults[OF assms(1)] assms(2))
  have row: "r_run_id row = k"
    using at_key_SomeD[OF assms(2)] by simp
  have "valid_utf8 (RunID ?t)" "valid_utf8 (TaskName ?t)" "valid_utf8 (Source ?t)" "valid_utf8 (ErrorMessage ?t)"
    using assms(3-6) row by (auto simp: scanTaskRun_def valid_utf8_ascii split: option.split)
  from json_TaskRun_ok[OF this, of tz] parse_first_render[of "json_TaskRun tz ?t" "[]"]
  have parsed: "parse_first (render (json_TaskRun tz ?t)) = Some (json_TaskRun tz ?t, [])"
    by (simp add: ends_number_def)
  obtain ms where ms: "json_TaskRun tz ?t = JObject ms"
    by (simp add: json_TaskRun_def)
  have members: "map_of ms name = (case json_TaskRun tz ?t of JObject xs \<Rightarrow> map_of xs name)" for name
    by (simp add: ms)
  have "map_of ms ''run_id'' = Some (JString k) \<and> map_of ms ''task_name'' = Some (JString (r_task_name row)) \<and>
    map_of ms ''status'' = Some (JString (TaskStatusString (r_status row))) \<and>
    map_of ms ''started_at'' = Some (json_time tz (r_started_at row)) \<and>
    map_of ms ''finished_at'' = map_option (json_time tz) (r_finished_at row) \<and>
    map_of ms ''last_heartbeat_at'' = map_option (json_time tz) (r_last_heartbeat_at row) \<and>
    map_of ms ''ttl_seconds'' = map_option json_int64 (r_ttl_seconds row) \<and>
    map_of ms ''duration_ms'' = map_option json_int64 (r_duration_ms row) \<and>
    map_of ms ''source'' = (if r_source row \<in> {None, Some ''''} then None else map_option JString (r_source row)) \<and>
    map_of ms ''error_message'' =
      (if r_error_message row \<in> {None, Some ''''} then None else map_option JString (r_error_message row))"
    unfolding members json_TaskRun_def json.case map_of_app
    by (simp add: map_of_omit scanTaskRun_def row split: option.split)
  then show ?thesis
    using parsed by (intro exI[of _ "render (json_TaskRun tz ?t)"] exI[of _ ms]) (simp add: get payload_json_def ms)
qed

theorem run_read_over_http_witness:
  "\<exists>body ms. map_option render (payload_json (\<lambda>_. 0) (payload (fst (HandleGet plain_engine ''a'' sample_world)))) = Some body \<and>
     parse_first body = Some (JObject ms, []) \<and> map_of ms ''status'' = Some (JString ''running'') \<and>
     map_of ms ''finished_at'' = None \<and> map_of ms ''error_message'' = None"
proof -
  have "valid_utf8 ''a''" "valid_utf8 ''job''" "valid_utf8 ''cron''"
    by (simp_all add: valid_utf8_ascii is_ascii_def)
  moreover have "at_key r_run_id ''a'' (task_runs (w_db sample_world)) = Some (sample_row ''a'' StatusRunning)"
    by (simp add: sample_world_def)
  ultimately show ?thesis
    using run_read_over_http[OF no_faults_plain, of "''a''" sample_world "sample_row ''a'' StatusRunning" "\<lambda>_. 0"]
    by (auto simp: sample_row_def)
qed

text \<open>
  C21. \<open>POST /events/failed\<close> on a known run answers 204, stores the failure with its message, and the
  \<open>task.failed\<close> event it broadcasts is exactly the record a \<open>GET\<close> now returns; on an unknown run
  it answers 404, broadcasts nothing and stores nothing.
\<close>

theorem HandleFailed_spec:
  assumes "no_faults eng" and "bind_failed g raw = Inr req"
    and "HandleFailed g eng now raw w = (r, w')"
  shows "case at_key r_run_id (failed_RunID req) (task_runs (w_db w)) of
      None \<Rightarrow> r = reply 404 (JError ''task run not found'') \<and>
        task_runs (w_db w') = task_runs (w_db w) \<and> w_hub w' = w_hub w
    | Some row \<Rightarrow> r = reply 204 NoBody \<and>
        (\<exists>task. fst (TaskGet eng (failed_RunID req) (w_db w')) = Inr task \<and>
           w_hub w' = Publish \<lparr>evt_Type = EventFailed, evt_Task = task\<rparr> (w_hub w) \<and>
           Status task = StatusFailed \<and> ErrorMessage task = failed_ErrorMessage req \<and>
           FinishedAt task = Some (stamp eng now) \<and>
           DurationMs task = Some (Milliseconds (Sub now (r_started_at row))))"
proof (cases "at_key r_run_id (failed_RunID req) (task_runs (w_db w))")
  case None
  then show ?thesis
    using assms(3)
    by (auto simp: HandleFailed_def assms(2) run_db_def Finish_no_faults[OF assms(1)] respondStoreErr_def)
next
  case (Some row)
  let ?u = "(StatusFailed, now, Milliseconds (Sub now (r_started_at row)), failed_ErrorMessage req)"
  have "at_key r_run_id (failed_RunID req)
      (upd_where (\<lambda>r. r_run_id r = failed_RunID req) (set_finished eng ?u) (task_runs (w_db w))) =
    Some (set_finished eng ?u row)"
    using Some by (simp add: fin.at_key_point)
  then show ?thesis
    using assms(3) Some
    by (auto simp: HandleFailed_def assms(2) run_db_def Finish_no_faults[OF assms(1)] Let_def
        publishLatest_def TaskGet_no_faults[OF assms(1)] publish_def set_finished_def scanTaskRun_def)
qed

theorem HandleFailed_spec_witness:
  "fst (HandleFailed sample_gin plain_engine 4000000000 (failed_body ''a'') sample_world) = reply 204 NoBody \<and>
   fst (HandleFailed sample_gin plain_engine 4000000000 (failed_body ''z'') sample_world) =
     reply 404 (JError ''task run not found'')"
proof -
  have rows: "task_runs (w_db sample_world) = task_runs sample_db"
    "at_key r_run_id ''z'' (task_runs sample_db) = None"
    by (simp_all add: sample_world_def at_key_def sample_db_def sample_row_def)
  show ?thesis
    using HandleFailed_spec[OF no_faults_plain sample_bodies(3) prod.collapse[symmetric], of 4000000000 sample_world]
      HandleFailed_spec[OF no_faults_plain sample_bodies(4) prod.collapse[symmetric], of 4000000000 sample_world] rows
    by simp
qed

text \<open>
  C22. \<open>POST /events/heartbeat\<close> answers 204 exactly for a running run and then broadcasts the record
  with the new heartbeat; for a finished or unknown run it answers 404 and neither the tables nor
  the hub change.
\<close>

theorem HandleHeartbeat_spec:
  assumes "no_faults eng" and "world_ok w" and "bind_heartbeat g raw = Inr req"
    and "HandleHeartbeat g eng now raw w = (r, w')"
    and "row = at_key r_run_id (heartbeat_RunID req) (task_runs (w_db w))"
  shows "if (\<exists>x. row = Some x \<and> r_status x = StatusRunning)
    then r = reply 204 NoBody \<and>
      (\<exists>task. fst (TaskGet eng (heartbeat_RunID req) (w_db w')) = Inr task \<and>
         w_hub w' = Publish \<lparr>evt_Type = EventHeartbeat, evt_Task = task\<rparr> (w_hub w) \<and>
         Status task = StatusRunning \<and> LastHeartbeatAt task = Some (stamp eng now))
    else r = reply 404 (JError ''task run not found'') \<and>
      task_runs (w_db w') = task_runs (w_db w) \<and> w_hub w' = w_hub w"
proof -
  have k: "keyed r_run_id (task_runs (w_db w))"
    using assms(2) by (simp add: world_ok_def runs_ok_def)
  let ?p = "\<lambda>r. r_run_id r = heartbeat_RunID req \<and> r_status r = StatusRunning"
  show ?thesis
  proof (cases "\<exists>x. row = Some x \<and> r_status x = StatusRunning")
    case True
    then obtain x where x: "at_key r_run_id (heartbeat_RunID req) (task_runs (w_db w)) = Some x"
      "r_status x = StatusRunning"
      using assms(5) by auto
    then have "at_key r_run_id (heartbeat_RunID req) (upd_where ?p (set_heartbeat eng now) (task_runs (w_db w))) =
        Some (set_heartbeat eng now x)"
      by (simp add: hb.at_key_point_guarded)
    then show ?thesis
      using assms(4) x
      by (auto simp: assms(3,5) HandleHeartbeat_def run_db_def Heartbeat_no_faults[OF assms(1) k] Let_def
          publishLatest_def TaskGet_no_faults[OF assms(1)] publish_def set_heartbeat_def scanTaskRun_def)
  next
    case False
    then have "upd_where ?p (set_heartbeat eng now) (task_runs (w_db w)) = task_runs (w_db w)"
      using no_match_at_key[OF k, of "heartbeat_RunID req" "\<lambda>r. r_status r = StatusRunning"]
      by (intro upd_where_none) (auto simp: assms(5) split: option.splits)
    then show ?thesis
      using assms(4) False
      by (auto simp: assms(3,5) HandleHeartbeat_def run_db_def Heartbeat_no_faults[OF assms(1) k]
          respondStoreErr_def split: option.splits)
  qed
qed

theorem HandleHeartbeat_spec_witness:
  "fst (HandleHeartbeat sample_gin plain_engine 4000000000 (run_body ''a'') sample_world) = reply 204 NoBody"
proof -
  have "task_runs (w_db sample_world) = task_runs sample_db"
    by (simp add: sample_world_def)
  moreover have "r_status (sample_row ''a'' StatusRunning) = StatusRunning"
    by (simp add: sample_row_def)
  ultimately show ?thesis
    using HandleHeartbeat_spec[OF no_faults_plain world_ok_sample sample_bodies(2) prod.collapse[symmetric] refl, of 4000000000]
    by simp
qed

end
