(* ===== verification/ScheduleHandler.thy ===== *)
theory ScheduleHandler
  imports TaskHandler
begin

text \<open>
  \<open>internal/handlers/schedule_handler.go\<close>: registration with its validation switch, listing and
  deletion, over the schedule store and the cron parameter.
\<close>

definition bind_register :: "gin \<Rightarrow> string \<Rightarrow> string + RegisterScheduleRequest" where
  "bind_register g raw = required g ''TaskName'' reg_TaskName raw (decode_register raw)"

text \<open>The checks of \<open>Register\<close>, in order: the error text of the first one that fails.\<close>

definition register_error :: "cron \<Rightarrow> RegisterScheduleRequest \<Rightarrow> string option" where
  "register_error ParseStandard req =
     (let hasInterval = (reg_ExpectedIntervalSeconds req \<noteq> None);
          hasCron = (case reg_CronExpression req of None \<Rightarrow> False | Some e \<Rightarrow> e \<noteq> '''');
          switched =
            (if hasInterval = hasCron then
               Some ''exactly one of expected_interval_seconds or cron_expression is required''
             else if hasInterval \<and> (case reg_ExpectedIntervalSeconds req of None \<Rightarrow> False | Some i \<Rightarrow> sint i \<le> 0) then
               Some ''expected_interval_seconds must be positive''
             else if hasCron then
               (case ParseStandard (case reg_CronExpression req of None \<Rightarrow> '''' | Some e \<Rightarrow> e) of
                  Inl err \<Rightarrow> Some (''invalid cron_expression: '' @ err)
                | Inr _ \<Rightarrow> None)
             else None)
      in case switched of
           Some msg \<Rightarrow> Some msg
         | None \<Rightarrow> if sint (reg_GracePeriodSeconds req) < 0
                   then Some ''grace_period_seconds must not be negative'' else None)"

definition HandleRegister ::
  "gin \<Rightarrow> cron \<Rightarrow> engine \<Rightarrow> time \<Rightarrow> string \<Rightarrow> world \<Rightarrow> response \<times> world"
where
  "HandleRegister g ParseStandard eng now raw w =
     (case bind_register g raw of
        Inl e \<Rightarrow> (reply 400 (JError e), w)
      | Inr req \<Rightarrow>
          (case register_error ParseStandard req of
             Some msg \<Rightarrow> (reply 400 (JError msg), w)
           | None \<Rightarrow>
               (case run_db (Upsert eng (reg_TaskName req) (reg_ExpectedIntervalSeconds req)
                               (reg_CronExpression req) (reg_GracePeriodSeconds req) now) w of
                  (Inl err, w1) \<Rightarrow> (reply 500 (JError ''failed to register schedule''), w1)
                | (Inr _, w1) \<Rightarrow> (reply 204 NoBody, w1))))"

definition HandleSchedules :: "engine \<Rightarrow> world \<Rightarrow> response \<times> world" where
  "HandleSchedules eng w =
     (case run_db (ScheduleList eng) w of
        (Inl err, w1) \<Rightarrow> (reply 500 (JError ''failed to list schedules''), w1)
      | (Inr schedules, w1) \<Rightarrow> (reply 200 (JSchedules schedules), w1))"

definition HandleDelete :: "engine \<Rightarrow> string \<Rightarrow> world \<Rightarrow> response \<times> world" where
  "HandleDelete eng taskName w =
     (case run_db (ScheduleDelete eng taskName) w of
        (Inl err, w1) \<Rightarrow> (respondStoreErr err ''schedule not found'', w1)
      | (Inr _, w1) \<Rightarrow> (reply 204 NoBody, w1))"

lemmas handler_defs =
  HandleStart_def HandleHeartbeat_def HandleSuccess_def HandleFailed_def HandleGet_def HandleList_def
  HandleRegister_def HandleSchedules_def HandleDelete_def

section \<open>The invariant\<close>

lemma world_ok_HandleRegister [inv_intros]:
  assumes "world_ok w"
  shows "world_ok (snd (HandleRegister g cr eng now raw w))"
proof -
  have "world_ok (snd (run_db (Upsert eng n i c gr at) w))" for n i c gr at
    using assms by (intro world_ok_run_db) (auto simp: world_ok_def intro: scheds_ok_Upsert)
  then show ?thesis
    using assms by (auto simp: HandleRegister_def split_beta split: sum.split option.split)
qed

lemma ScheduleList_tables [simp]:
  "task_runs (snd (ScheduleList eng d)) = task_runs d"
  "task_schedules (snd (ScheduleList eng d)) = task_schedules d"
  by (auto simp: ScheduleList_def Query_def Let_def split: option.splits)

lemma world_ok_HandleSchedules [inv_intros]: "world_ok w \<Longrightarrow> world_ok (snd (HandleSchedules eng w))"
  using world_ok_run_db[of w "ScheduleList eng"]
  by (auto simp: HandleSchedules_def world_ok_def split_beta split: sum.split)

lemma world_ok_HandleDelete [inv_intros]:
  assumes "world_ok w"
  shows "world_ok (snd (HandleDelete eng n w))"
proof -
  have "world_ok (snd (run_db (ScheduleDelete eng n) w))"
    using assms by (intro world_ok_run_db) (auto simp: world_ok_def intro: scheds_ok_ScheduleDelete)
  then show ?thesis
    by (auto simp: HandleDelete_def split_beta split: sum.split)
qed

section \<open>Properties\<close>

text \<open>For the witnesses: a registration by cron expression, and one with an empty expression.\<close>

definition cron_body :: string where
  "cron_body = render (JObject [(''task_name'', JString ''job''), (''cron_expression'', JString ''@hourly'')])"

definition both_body :: string where
  "both_body = render (JObject [(''task_name'', JString ''job''), (''expected_interval_seconds'', JNumber ''60''),
     (''cron_expression'', JString '''')])"

lemma sample_registrations:
  "bind_register sample_gin cron_body =
     Inr \<lparr>reg_TaskName = ''job'', reg_ExpectedIntervalSeconds = None, reg_CronExpression = Some ''@hourly'',
          reg_GracePeriodSeconds = 0\<rparr>"
  "bind_register sample_gin both_body =
     Inr \<lparr>reg_TaskName = ''job'', reg_ExpectedIntervalSeconds = Some 60, reg_CronExpression = Some '''',
          reg_GracePeriodSeconds = 0\<rparr>"
proof -
  have "integer_literal ''60'' \<and> Atoi ''60'' = Some 60"
    by code_simp
  then show "bind_register sample_gin cron_body =
      Inr \<lparr>reg_TaskName = ''job'', reg_ExpectedIntervalSeconds = None, reg_CronExpression = Some ''@hourly'',
           reg_GracePeriodSeconds = 0\<rparr>"
    "bind_register sample_gin both_body =
      Inr \<lparr>reg_TaskName = ''job'', reg_ExpectedIntervalSeconds = Some 60, reg_CronExpression = Some '''',
           reg_GracePeriodSeconds = 0\<rparr>"
    unfolding bind_register_def cron_body_def both_body_def decode_register_def
    by (subst Decode_render; simp add: valid_utf8_ascii is_ascii_def field_defs required_def)+
qed

definition valid_registration :: "cron \<Rightarrow> RegisterScheduleRequest \<Rightarrow> bool" where
  "valid_registration ParseStandard req \<longleftrightarrow> 0 \<le> sint (reg_GracePeriodSeconds req) \<and>
     ((\<exists>i. reg_ExpectedIntervalSeconds req = Some i \<and> 0 < sint i \<and>
           reg_CronExpression req \<in> {None, Some ''''}) \<or>
      (\<exists>e nxt. reg_ExpectedIntervalSeconds req = None \<and> reg_CronExpression req = Some e \<and>
           e \<noteq> '''' \<and> ParseStandard e = Inr nxt))"

lemma register_error_None: "register_error cr req = None \<longleftrightarrow> valid_registration cr req"
proof (cases "reg_CronExpression req")
  case None
  then show ?thesis
    by (auto simp: register_error_def valid_registration_def Let_def not_le split: option.split if_splits)
next
  case (Some e)
  then show ?thesis
    by (auto simp: register_error_def valid_registration_def Let_def not_le
        split: option.split sum.split if_splits)
qed

lemma HandleRegister_valid:
  assumes "no_faults eng" and "bind_register g raw = Inr req" and "valid_registration cr req"
  shows "HandleRegister g cr eng now raw w =
    (reply 204 NoBody,
     w\<lparr>w_db := snd (Upsert eng (reg_TaskName req) (reg_ExpectedIntervalSeconds req)
                      (reg_CronExpression req) (reg_GracePeriodSeconds req) now (w_db w))\<rparr>)"
  using assms(3)
  by (simp add: register_error_None[symmetric] HandleRegister_def assms(2) run_db_def Upsert_no_faults[OF assms(1)])

text \<open>
  C28. The validation of \<open>POST /schedules\<close>: a bound request is accepted (204) exactly when it gives a
  positive interval and no non-empty cron expression, or no interval and a non-empty cron
  expression that parses, and in both cases a grace that is not negative; every other request
  is answered 400 and nothing is stored.
\<close>

theorem HandleRegister_validates:
  assumes "no_faults eng" and "bind_register g raw = Inr req"
    and "HandleRegister g cr eng now raw w = (r, w')"
  shows "if valid_registration cr req
    then r = reply 204 NoBody \<and>
      w_db w' = snd (Upsert eng (reg_TaskName req) (reg_ExpectedIntervalSeconds req)
                       (reg_CronExpression req) (reg_GracePeriodSeconds req) now (w_db w))
    else code r = 400 \<and> w' = w"
proof (cases "register_error cr req")
  case None
  then show ?thesis
    using assms(3) HandleRegister_valid[OF assms(1,2), of cr] by (auto simp: register_error_None[symmetric])
next
  case (Some msg)
  then have "\<not> valid_registration cr req"
    using register_error_None[of cr req] by simp
  then show ?thesis
    using assms(3) Some by (auto simp: HandleRegister_def assms(2))
qed

theorem HandleRegister_validates_witness:
  "fst (HandleRegister sample_gin hourly plain_engine 5 cron_body sample_world) = reply 204 NoBody"
proof -
  have "valid_registration hourly \<lparr>reg_TaskName = ''job'', reg_ExpectedIntervalSeconds = None,
      reg_CronExpression = Some ''@hourly'', reg_GracePeriodSeconds = 0 :: int64\<rparr>"
    by (simp add: valid_registration_def hourly_def)
  then show ?thesis
    using HandleRegister_validates[OF no_faults_plain sample_registrations(1) prod.collapse[symmetric],
        of hourly 5 sample_world]
    by simp
qed

text \<open>
  A registration with a positive interval and an empty \<open>cron_expression\<close> is accepted, but stores
  the empty expression, which the cron library does not parse; from then on \<open>DetectMissed\<close> skips
  the schedule, so that it is never reported as missed, however late the task is.
\<close>

lemma empty_cron_never_missed:
  assumes "no_faults eng" and "engine_ok eng" and "world_ok w"
    and "bind_register g raw = Inr req" and "reg_ExpectedIntervalSeconds req = Some i" and "0 < sint i"
    and "reg_CronExpression req = Some ''''" and "0 \<le> sint (reg_GracePeriodSeconds req)"
    and "cr '''' = Inl err"
    and "HandleRegister g cr eng now raw w = (r, w')"
  shows "r = reply 204 NoBody \<and>
    (\<forall>later. reg_TaskName req \<notin> sched_TaskName ` set (fst (fst (DetectMissed cr eng later (w_db w')))))"
proof -
  have "valid_registration cr req"
    using assms(5-8) by (simp add: valid_registration_def)
  then have r: "r = reply 204 NoBody"
    and d: "w_db w' = snd (Upsert eng (reg_TaskName req) (Some i) (Some '''') (reg_GracePeriodSeconds req) now (w_db w))"
    using HandleRegister_valid[OF assms(1,4) \<open>valid_registration cr req\<close>, of now w] assms(5,7,10) by simp_all
  have k: "keyed s_task_name (task_schedules (w_db w'))"
    using scheds_ok_Upsert assms(3) unfolding d scheds_ok_def by (simp add: world_ok_def scheds_ok_def)
  obtain x where x: "at_key s_task_name (reg_TaskName req) (task_schedules (w_db w')) = Some x"
    and "s_cron_expression x = Some ''''"
    using schedule_after_Upsert[OF assms(1) d]
    by (cases "at_key s_task_name (reg_TaskName req) (task_schedules (w_db w))")
       (auto simp: new_sched_row_def)
  then have dead: "\<not> overdue cr later x" for later
    by (simp add: overdue_def row_deadline_def Let_def assms(9))
  have "reg_TaskName req \<notin> sched_TaskName ` set (fst (fst (DetectMissed cr eng later (w_db w'))))" for later
  proof
    assume "reg_TaskName req \<in> sched_TaskName ` set (fst (fst (DetectMissed cr eng later (w_db w'))))"
    then obtain y where y: "y \<in> set (scan_schedules eng (Suc (stmts (w_db w'))) (task_schedules (w_db w')))"
      "overdue cr later y" "s_task_name y = reg_TaskName req"
      by (auto simp: DetectMissed_no_faults(1)[OF assms(1,2) k] scanSchedule_def set_missed_def)
    have "y \<in> set (task_schedules (w_db w'))"
      using y(1) assms(2) by (metis engine_ok_def mset_eq_setD)
    then have "y = x"
      using at_key_mem[OF k, of y] x y(3) by simp
    then show False using y(2) dead by simp
  qed
  with r show ?thesis by blast
qed

text \<open>
  \<open>DELETE /schedules/:taskName\<close> removes exactly that schedule and answers 204, or answers 404
  without a change when there is none.
\<close>

lemma HandleDelete_spec:
  assumes "no_faults eng" and "world_ok w" and "HandleDelete eng n w = (r, w')"
  shows "r = (if n \<in> s_task_name ` set (task_schedules (w_db w)) then reply 204 NoBody
              else reply 404 (JError ''schedule not found'')) \<and>
    (\<forall>j. at_key s_task_name j (task_schedules (w_db w')) =
       (if j = n then None else at_key s_task_name j (task_schedules (w_db w)))) \<and>
    task_runs (w_db w') = task_runs (w_db w) \<and> w_hub w' = w_hub w"
proof -
  have k: "keyed s_task_name (task_schedules (w_db w))"
    using assms(2) by (simp add: world_ok_def scheds_ok_def)
  have del: "ScheduleDelete eng n (w_db w) =
    (if n \<in> s_task_name ` set (task_schedules (w_db w)) then Inr () else Inl ErrNotFound,
     w_db w\<lparr>task_schedules := del_where (\<lambda>r. s_task_name r = n) (task_schedules (w_db w)),
            stmts := Suc (stmts (w_db w))\<rparr>)"
    by (auto simp: ScheduleDelete_def Exec_no_faults[OF assms(1)] delete_schedules_def Let_def
        checkRowsAffected_def RowsAffected_def cnt_where_0)
  have "at_key s_task_name j (del_where (\<lambda>r. s_task_name r = n) (task_schedules (w_db w))) =
      (if j = n then None else at_key s_task_name j (task_schedules (w_db w)))" for j
    by (auto simp: at_key_del[OF k] dest: at_key_SomeD split: option.split)
  then show ?thesis
    using assms(3) by (auto simp: HandleDelete_def run_db_def del respondStoreErr_def split: if_splits)
qed

end
