(* ===== verification/Subscriber.thy ===== *)
theory Subscriber
  imports Broker
begin

text \<open>
  The loop both subscribers of the hub share (\<open>Dispatcher.Run\<close> and \<open>StreamHandler.Stream\<close>): a
  \<open>select\<close> between the end of the context and a receive on the subscription, whose event is given
  to \<open>react\<close>; the loop ends on the first and on a closed channel, and the deferred \<open>unsubscribe\<close>
  runs. The Boolean says whether the loop has returned. A receive that would block is a case
  that is not ready.
\<close>

definition consume_select ::
  "('t \<Rightarrow> Event \<Rightarrow> 's \<Rightarrow> 's) \<Rightarrow> nat \<Rightarrow> 't signal \<Rightarrow> 's \<times> Hub \<Rightarrow> bool \<times> 's \<times> Hub"
where
  "consume_select react ch s xh =
     (let (x, h) = xh in
      case s of
        CtxDone \<Rightarrow> (True, x, unsubscribe ch h)
      | Ticked now \<Rightarrow>
          (case receive ch h of
             (Received evt, h1) \<Rightarrow> (False, react now evt x, h1)
           | (ChanClosed, h1) \<Rightarrow> (True, x, unsubscribe ch h1)
           | (WouldBlock, h1) \<Rightarrow> (False, x, h1)))"

fun consume ::
  "('t \<Rightarrow> Event \<Rightarrow> 's \<Rightarrow> 's) \<Rightarrow> nat \<Rightarrow> 't signal list \<Rightarrow> 's \<times> Hub \<Rightarrow> bool \<times> 's \<times> Hub"
where
  "consume react ch [] xh = (False, xh)"
| "consume react ch (s # ss) xh =
     (case consume_select react ch s xh of
        (True, xh1) \<Rightarrow> (True, xh1)
      | (False, xh1) \<Rightarrow> consume react ch ss xh1)"

text \<open>The three ways a turn of the loop goes.\<close>

lemma consume_select_cases:
  obtains (ended) "consume_select react ch s (x, h) = (True, x, unsubscribe ch h)"
  | (event) now evt h1 where "s = Ticked now" and "receive ch h = (Received evt, h1)"
      and "consume_select react ch s (x, h) = (False, react now evt x, h1)"
  | (idle) "consume_select react ch s (x, h) = (False, x, h)"
proof (cases s)
  case CtxDone
  then show thesis
    by (intro ended) (simp add: consume_select_def)
next
  case (Ticked now)
  show thesis
  proof (cases "buf (chans h ch)")
    case Nil
    then show thesis
      using Ticked ended idle by (cases "closed (chans h ch)") (auto simp: consume_select_def receive_def)
  next
    case (Cons e es)
    then show thesis
      using Ticked event by (auto simp: consume_select_def receive_def)
  qed
qed

lemma hub_ok_consume_select:
  assumes "hub_ok h"
  shows "hub_ok (snd (snd (consume_select react ch s (x, h))))"
proof (cases rule: consume_select_cases[of react ch s x h])
  case (event now evt h1)
  then show ?thesis
    using hub_ok_receive[OF assms, of ch] by simp
qed (use assms in \<open>auto intro: hub_ok_unsubscribe\<close>)

lemma hub_ok_consume: "hub_ok h \<Longrightarrow> hub_ok (snd (snd (consume react ch ss (x, h))))"
proof (induction ss arbitrary: x h)
  case Nil
  then show ?case by simp
next
  case (Cons s ss)
  obtain b x' h' where c: "consume_select react ch s (x, h) = (b, x', h')"
    by (metis prod_cases3)
  then show ?case
    using Cons.IH[of h' x'] hub_ok_consume_select[OF Cons.prems, of react ch s x] by (cases b) simp_all
qed

text \<open>Once the loop has returned, the subscription is gone; and it returns when the context ends.\<close>

lemma unsubscribe_out: "ch \<notin> set (subs (unsubscribe ch h))"
  by (simp add: unsubscribe_def close_chan_def)

lemma consume_returned:
  "consume react ch ss (x, h) = (True, x', h') \<Longrightarrow> ch \<notin> set (subs h')"
proof (induction ss arbitrary: x h)
  case Nil
  then show ?case by simp
next
  case (Cons s ss)
  show ?case
  proof (cases rule: consume_select_cases[of react ch s x h])
    case ended
    then show ?thesis using Cons.prems unsubscribe_out by auto
  next
    case (event now evt h1)
    then show ?thesis using Cons by simp
  next
    case idle
    then show ?thesis using Cons by simp
  qed
qed

lemma consume_returns: "CtxDone \<in> set ss \<Longrightarrow> fst (consume react ch ss xh)"
proof (induction ss arbitrary: xh)
  case Nil
  then show ?case by simp
next
  case (Cons s ss)
  obtain x h where xh: "xh = (x, h)" by fastforce
  show ?case
  proof (cases rule: consume_select_cases[of react ch s x h])
    case (event now evt h1)
    then show ?thesis using Cons xh by simp
  next
    case idle
    show ?thesis
    proof (cases s)
      case CtxDone
      then show ?thesis by (simp add: xh consume_select_def)
    next
      case (Ticked now)
      then show ?thesis using Cons idle xh by simp
    qed
  qed (simp add: xh)
qed

text \<open>Reading what is pending hands each event to \<open>react\<close>, in order, and leaves the rest alone.\<close>

lemma consume_pending:
  "buf (chans h ch) = es @ rest \<Longrightarrow> length nows = length es \<Longrightarrow>
   consume react ch (map Ticked nows) (x, h) =
     (False, fold (\<lambda>(now, evt). react now evt) (zip nows es) x,
      h\<lparr>chans := (chans h)(ch := (chans h ch)\<lparr>buf := rest\<rparr>)\<rparr>)"
proof (induction es arbitrary: x h nows)
  case Nil
  then have "(chans h ch)\<lparr>buf := rest\<rparr> = chans h ch"
    by (intro channel.equality) simp_all
  with Nil show ?case by (simp add: fun_upd_idem)
next
  case (Cons e es)
  obtain now nows' where n: "nows = now # nows'" and len: "length nows' = length es"
    using Cons.prems(2) by (cases nows) auto
  let ?h = "h\<lparr>chans := (chans h)(ch := (chans h ch)\<lparr>buf := es @ rest\<rparr>)\<rparr>"
  have "consume_select react ch (Ticked now) (x, h) = (False, react now e x, ?h)"
    using Cons.prems(1) by (simp add: consume_select_def receive_def)
  then show ?case
    using Cons.IH[of ?h nows' "react now e x"] len by (simp add: n cong: if_cong)
qed

end
