(* ===== verification/StreamHandler.thy ===== *)
theory StreamHandler
  imports TaskHandler Subscriber
begin

text \<open>
  \<open>internal/handlers/stream_handler.go\<close>: Server-Sent Events. \<open>OpenStream\<close> subscribes and answers with
  the headers; \<open>StreamRun\<close> is the loop that \<open>c.Stream\<close> drives: each event it receives becomes one
  frame, the name of the event and the run.
\<close>

type_synonym frame = "string \<times> TaskRun"

definition stream_headers :: "(string \<times> string) list" where
  "stream_headers =
     [(''Content-Type'', ''text/event-stream''), (''Cache-Control'', ''no-cache''),
      (''Connection'', ''keep-alive''), (''X-Accel-Buffering'', ''no'')]"

definition send_frame :: "unit \<Rightarrow> Event \<Rightarrow> frame list \<Rightarrow> frame list" where
  "send_frame u evt frames = frames @ [(EventTypeString (evt_Type evt), evt_Task evt)]"

definition OpenStream :: "world \<Rightarrow> response \<times> world" where
  "OpenStream w =
     (let (ch, h1) = Subscribe (w_hub w)
      in (reply 200 (EventStream ch stream_headers), w\<lparr>w_hub := h1\<rparr>))"

definition StreamRun :: "unit signal list \<Rightarrow> Hub \<Rightarrow> bool \<times> frame list \<times> Hub" where
  "StreamRun signals h = (let (ch, h1) = Subscribe h in consume send_frame ch signals ([], h1))"

lemma fold_send_frame:
  "length nows = length es \<Longrightarrow>
   fold (\<lambda>(now, evt). send_frame now evt) (zip nows es) frames =
     frames @ map (\<lambda>e. (EventTypeString (evt_Type e), evt_Task e)) es"
  by (induction nows es arbitrary: frames rule: list_induct2) (simp_all add: send_frame_def)

lemma world_ok_OpenStream [inv_intros]: "world_ok w \<Longrightarrow> world_ok (snd (OpenStream w))"
  using hub_ok_Subscribe[of "w_hub w"] by (simp add: world_ok_def OpenStream_def split_beta Let_def)

end
