(* ===== verification/Router.thy ===== *)
theory Router
  imports ScheduleHandler StreamHandler
begin

text \<open>
  \<open>internal/router/router.go\<close>: the route table, the API-key middleware and the fallback to the
  embedded dashboard. Which registered route a method and a path select, and the value of its
  path parameter, is gin's decision and the parameter \<open>lookup\<close>; the file system of the embedded
  assets and \<open>http.FileServer\<close> are the parameter \<open>assets\<close>. Gin runs the middleware of a group
  before the handler, and \<open>AbortWithStatusJSON\<close> keeps the handler from running.
\<close>

record request =
  q_method :: string
  q_path :: string
  q_authorization :: string
  q_token :: string
  q_status :: string
  q_body :: string

record assets =
  fs_stat :: "string \<Rightarrow> bool"
  fs_readFile :: "string \<Rightarrow> string option"
  fileServer :: "string \<Rightarrow> nat \<times> string"

section \<open>The API key\<close>

definition bearerToken :: "request \<Rightarrow> string" where
  "bearerToken q =
     (if HasPrefix (q_authorization q) ''Bearer '' then TrimPrefix (q_authorization q) ''Bearer ''
      else q_token q)"

text \<open>
  \<open>subtle.ConstantTimeCompare\<close>: the exclusive ors of the bytes are collected with \<open>|\<close>, and the
  result is 1 when the collected byte is 0: \<open>uint32(v ^ 0) - 1\<close> has its top bit set exactly then.
\<close>

unbundle bit_operations_syntax

definition xor_collect :: "8 word list \<Rightarrow> 8 word list \<Rightarrow> 8 word" where
  "xor_collect xs ys = foldl (\<lambda>v (x, y). v OR (x XOR y)) 0 (zip xs ys)"

definition ConstantTimeByteEq :: "8 word \<Rightarrow> 8 word \<Rightarrow> 32 word" where
  "ConstantTimeByteEq x y = drop_bit 31 (ucast (x XOR y) - 1)"

definition ConstantTimeCompare :: "8 word list \<Rightarrow> 8 word list \<Rightarrow> 32 word" where
  "ConstantTimeCompare xs ys =
     (if length xs \<noteq> length ys then 0 else ConstantTimeByteEq (xor_collect xs ys) 0)"

definition bytes :: "string \<Rightarrow> 8 word list" where
  "bytes s = map (\<lambda>c. of_nat (of_char c)) s"

definition constantTimeEqual :: "string \<Rightarrow> string \<Rightarrow> bool" where
  "constantTimeEqual a b \<longleftrightarrow> length a = length b \<and> ConstantTimeCompare (bytes a) (bytes b) = 1"

definition requireAPIKey ::
  "string \<Rightarrow> (world \<Rightarrow> response \<times> world) \<Rightarrow> request \<Rightarrow> world \<Rightarrow> response \<times> world"
where
  "requireAPIKey apiKey next_handler q w =
     (if apiKey = '''' then next_handler w
      else if \<not> constantTimeEqual (bearerToken q) apiKey
           then (reply 401 (JError ''invalid or missing API key''), w)
      else next_handler w)"

text \<open>The comparison decides equality.\<close>

lemma collect_0: "(v OR (x XOR y) = 0) = (v = 0 \<and> x = (y :: 8 word))"
proof -
  have "x = y" if "x XOR y = 0"
  proof -
    have "x = (x XOR y) XOR y"
      by (simp add: xor.assoc)
    with that show ?thesis by simp
  qed
  then have "(x XOR y = 0) = (x = y)"
    by auto
  then show ?thesis
    by (metis or_eq_0_iff)
qed

lemma xor_collect_0: "length xs = length ys \<Longrightarrow> xor_collect xs ys = 0 \<longleftrightarrow> xs = ys"
proof -
  assume len: "length xs = length ys"
  have "(foldl (\<lambda>v (x, y). v OR (x XOR y)) v (zip xs ys) = 0) = (v = 0 \<and> xs = ys)" for v
    using len by (induction xs ys arbitrary: v rule: list_induct2) (auto simp: collect_0)
  then show ?thesis
    by (simp add: xor_collect_def)
qed

lemma ByteEq_0: "ConstantTimeByteEq v 0 = 1 \<longleftrightarrow> v = 0"
proof (cases "v = 0")
  case True
  then show ?thesis by (simp add: ConstantTimeByteEq_def)
next
  case False
  have "unat v < 256"
    by (rule order.strict_trans2[OF unsigned_less]) simp
  then have eq: "unat (ucast v :: 32 word) = unat v" and small: "unat (ucast v :: 32 word) < 256"
    by (simp_all add: unsigned_ucast_eq take_bit_nat_eq_self)
  then have pos: "(ucast v :: 32 word) \<noteq> 0"
    using False by (metis unsigned_0 unsigned_eq_0_iff)
  then have "unat (ucast v - 1 :: 32 word) < 256"
    using small by (simp add: unat_minus_one)
  then have "unat (drop_bit 31 (ucast v - 1 :: 32 word)) = 0"
    unfolding unsigned_drop_bit_eq by (simp add: drop_bit_eq_div take_bit_nat_eq_self)
  then have "drop_bit 31 (ucast v - 1 :: 32 word) = 0"
    by (simp only: unsigned_eq_0_iff)
  then show ?thesis
    using False by (simp add: ConstantTimeByteEq_def)
qed

lemma constantTimeEqual_iff: "constantTimeEqual a b \<longleftrightarrow> a = b"
proof -
  have "inj (\<lambda>c. of_nat (of_char c) :: 8 word)"
    by (rule injI) (simp add: word_of_nat_eq_iff take_bit_nat_eq_self)
  then have "bytes a = bytes b \<longleftrightarrow> a = b"
    by (simp add: bytes_def inj_map_eq_map)
  then show ?thesis
    using xor_collect_0[of "bytes a" "bytes b"] ByteEq_0
    by (auto simp: constantTimeEqual_def ConstantTimeCompare_def bytes_def)
qed

section \<open>The routes\<close>

datatype endpoint =
    Healthz | EventsStart | EventsHeartbeat | EventsSuccess | EventsFailed
  | TasksList | TasksGet | StreamEvents | SchedulesRegister | SchedulesList | SchedulesDelete

type_synonym route = "string \<times> string \<times> endpoint"

definition grouped :: "string \<Rightarrow> route list \<Rightarrow> route list" where
  "grouped prefix routes = map (\<lambda>(m, p, e). (m, prefix @ p, e)) routes"

definition api_routes :: "route list" where
  "api_routes =
     grouped ''/api/v1''
       (grouped ''/events''
          [(''POST'', ''/start'', EventsStart), (''POST'', ''/heartbeat'', EventsHeartbeat),
           (''POST'', ''/success'', EventsSuccess), (''POST'', ''/failed'', EventsFailed)] @
        [(''GET'', ''/tasks'', TasksList), (''GET'', ''/tasks/:runID'', TasksGet),
         (''GET'', ''/stream'', StreamEvents), (''POST'', ''/schedules'', SchedulesRegister),
         (''GET'', ''/schedules'', SchedulesList), (''DELETE'', ''/schedules/:taskName'', SchedulesDelete)])"

definition route_table :: "route list" where
  "route_table = (''GET'', ''/healthz'', Healthz) # api_routes"

text \<open>What the router is built from, and what one request reads from outside.\<close>

record site =
  site_gin :: gin
  site_cron :: cron
  site_assets :: assets
  site_apiKey :: string
  lookup :: "route list \<Rightarrow> string \<Rightarrow> string \<Rightarrow> (endpoint \<times> string) option"

record moment =
  m_engine :: engine
  m_now :: time
  m_uuid :: string

definition run_endpoint ::
  "site \<Rightarrow> moment \<Rightarrow> endpoint \<Rightarrow> string \<Rightarrow> request \<Rightarrow> world \<Rightarrow> response \<times> world"
where
  "run_endpoint st m e param q w =
     (case e of
        Healthz \<Rightarrow> (reply 200 (JStatus ''ok''), w)
      | EventsStart \<Rightarrow> HandleStart (site_gin st) (m_engine m) (m_now m) (m_uuid m) (q_body q) w
      | EventsHeartbeat \<Rightarrow> HandleHeartbeat (site_gin st) (m_engine m) (m_now m) (q_body q) w
      | EventsSuccess \<Rightarrow> HandleSuccess (site_gin st) (m_engine m) (m_now m) (q_body q) w
      | EventsFailed \<Rightarrow> HandleFailed (site_gin st) (m_engine m) (m_now m) (q_body q) w
      | TasksList \<Rightarrow> HandleList (m_engine m) (q_status q) w
      | TasksGet \<Rightarrow> HandleGet (m_engine m) param w
      | StreamEvents \<Rightarrow> OpenStream w
      | SchedulesRegister \<Rightarrow> HandleRegister (site_gin st) (site_cron st) (m_engine m) (m_now m) (q_body q) w
      | SchedulesList \<Rightarrow> HandleSchedules (m_engine m) w
      | SchedulesDelete \<Rightarrow> HandleDelete (m_engine m) param w)"

definition serveEmbeddedUI :: "assets \<Rightarrow> request \<Rightarrow> response" where
  "serveEmbeddedUI fs q =
     (if HasPrefix (q_path q) ''/api/'' then reply 404 (JError ''not found'')
      else let path = TrimPrefix (q_path q) ''/'' in
        if path \<noteq> '''' \<and> fs_stat fs path then (let (status, content) = fileServer fs (q_path q) in reply status (Content content))
        else (case fs_readFile fs ''index.html'' of
                None \<Rightarrow> reply 404 (JError ''not found'')
              | Some index \<Rightarrow> reply 200 (Content index)))"

definition ServeHTTP :: "site \<Rightarrow> moment \<Rightarrow> request \<Rightarrow> world \<Rightarrow> response \<times> world" where
  "ServeHTTP st m q w =
     (case lookup st route_table (q_method q) (q_path q) of
        None \<Rightarrow> (serveEmbeddedUI (site_assets st) q, w)
      | Some (e, param) \<Rightarrow>
          if e = Healthz then run_endpoint st m e param q w
          else requireAPIKey (site_apiKey st) (run_endpoint st m e param q) q w)"

lemma world_ok_run_endpoint [inv_intros]:
  "world_ok w \<Longrightarrow> world_ok (snd (run_endpoint st m e param q w))"
  by (cases e) (simp_all add: run_endpoint_def inv_intros)

lemma requireAPIKey_cases:
  "requireAPIKey key handler q w =
     (if key = '''' \<or> bearerToken q = key then handler w
      else (reply 401 (JError ''invalid or missing API key''), w))"
  by (simp add: requireAPIKey_def constantTimeEqual_iff)

lemma world_ok_ServeHTTP [inv_intros]:
  assumes "world_ok w"
  shows "world_ok (snd (ServeHTTP st m q w))"
  using assms world_ok_run_endpoint[OF assms, of st m _ _ q]
  by (auto simp: ServeHTTP_def requireAPIKey_cases split: option.split)

section \<open>Properties\<close>

text \<open>For the witnesses: a site with a key whose router knows the route of the heartbeat only.\<close>

definition sample_site :: site where
  "sample_site =
     \<lparr>site_gin = sample_gin, site_cron = hourly,
      site_assets = \<lparr>fs_stat = (\<lambda>p. p = ''app.js''), fs_readFile = (\<lambda>_. Some ''<html>''),
                     fileServer = (\<lambda>p. (200, p))\<rparr>,
      site_apiKey = ''secret'',
      lookup = (\<lambda>rs m p. if m = ''POST'' \<and> p = ''/api/v1/events/heartbeat''
                          then Some (EventsHeartbeat, '''') else None)\<rparr>"

definition sample_moment :: moment where
  "sample_moment = \<lparr>m_engine = plain_engine, m_now = 3000000000, m_uuid = ''u''\<rparr>"

definition sample_request :: "string \<Rightarrow> request" where
  "sample_request auth =
     \<lparr>q_method = ''POST'', q_path = ''/api/v1/events/heartbeat'', q_authorization = auth, q_token = '''',
      q_status = '''', q_body = run_body ''a''\<rparr>"

lemma api_route_not_Healthz:
  "(mth, pat, e) \<in> set route_table \<Longrightarrow> HasPrefix pat ''/api/v1'' \<Longrightarrow> e \<noteq> Healthz"
  by (auto simp: route_table_def api_routes_def grouped_def HasPrefix_def)

text \<open>
  C9. Authentication: with an API key configured, a request that selects a route below \<open>/api/v1\<close>
  reaches its handler exactly when its \<open>Authorization\<close> header is \<open>Bearer \<close> and the key, or it has
  no bearer header and its \<open>token\<close> parameter is the key; every other one is answered 401 and
  changes nothing. The constant-time comparison is equality.
\<close>

theorem api_requires_key:
  assumes "lookup st route_table (q_method q) (q_path q) = Some (e, param)"
    and "(q_method q, pat, e) \<in> set route_table" and "HasPrefix pat ''/api/v1''"
    and "site_apiKey st \<noteq> ''''"
  shows "ServeHTTP st m q w =
    (if q_authorization q = ''Bearer '' @ site_apiKey st \<or>
        \<not> HasPrefix (q_authorization q) ''Bearer '' \<and> q_token q = site_apiKey st
     then run_endpoint st m e param q w
     else (reply 401 (JError ''invalid or missing API key''), w))"
proof -
  have "bearerToken q = site_apiKey st \<longleftrightarrow>
      q_authorization q = ''Bearer '' @ site_apiKey st \<or>
      \<not> HasPrefix (q_authorization q) ''Bearer '' \<and> q_token q = site_apiKey st"
    unfolding bearerToken_def by (metis HasPrefix_iff TrimPrefix_append)
  then show ?thesis
    using assms(1,4) api_route_not_Healthz[OF assms(2,3)]
    by (simp add: ServeHTTP_def requireAPIKey_cases)
qed

theorem api_requires_key_witness:
  "ServeHTTP sample_site sample_moment (sample_request ''Bearer secret'') sample_world =
     run_endpoint sample_site sample_moment EventsHeartbeat '''' (sample_request ''Bearer secret'') sample_world \<and>
   ServeHTTP sample_site sample_moment (sample_request ''Bearer secreT'') sample_world =
     (reply 401 (JError ''invalid or missing API key''), sample_world)"
proof -
  have route: "(''POST'', ''/api/v1/events/heartbeat'', EventsHeartbeat) \<in> set route_table"
    by (simp add: route_table_def api_routes_def grouped_def)
  show ?thesis
    using api_requires_key[of sample_site "sample_request ''Bearer secret''" EventsHeartbeat "''''"
        "''/api/v1/events/heartbeat''" sample_moment sample_world]
      api_requires_key[of sample_site "sample_request ''Bearer secreT''" EventsHeartbeat "''''"
        "''/api/v1/events/heartbeat''" sample_moment sample_world] route
    by (simp add: sample_request_def sample_site_def HasPrefix_def)
qed

text \<open>
  A request no route takes changes nothing, key or no key: below \<open>/api/\<close> it is answered 404, a
  path that names an embedded file is given to the file server, and every other path gets the
  page of the dashboard.
\<close>

lemma unrouted_request_spec:
  assumes "lookup st route_table (q_method q) (q_path q) = None" and "q_path q = ''/'' @ file"
    and "fs_readFile (site_assets st) ''index.html'' = Some index"
  shows "ServeHTTP st m q w =
    ((if \<exists>rest. file = ''api/'' @ rest then reply 404 (JError ''not found'')
      else if file \<noteq> '''' \<and> fs_stat (site_assets st) file then reply (fst (fileServer (site_assets st) (q_path q))) (Content (snd (fileServer (site_assets st) (q_path q))))
      else reply 200 (Content index)), w)"
proof -
  have "TrimPrefix (q_path q) ''/'' = file"
    unfolding assms(2) by (rule TrimPrefix_append)
  moreover have "HasPrefix (q_path q) ''/api/'' \<longleftrightarrow> (\<exists>rest. file = ''api/'' @ rest)"
    by (simp add: HasPrefix_iff assms(2))
  ultimately show ?thesis
    using assms(1,3) by (simp add: ServeHTTP_def serveEmbeddedUI_def Let_def split_beta)
qed

end
