(* ===== verification/Sweeper.thy ===== *)
theory Sweeper
  imports ScheduleHandler
begin

text \<open>
  \<open>internal/sweeper/sweeper.go\<close>: the background sweep of silent runs. \<open>sweepOnce\<close> is one tick;
  \<open>SweeperRun\<close> is the goroutine, over the cases its \<open>select\<close> takes (\<open>tick_loop\<close>), a tick carrying
  the instant at which it is served. \<open>Inl\<close> is the panic of \<open>time.NewTicker\<close>. Log lines are left out.
\<close>

record Sweeper =
  sweeper_interval :: duration

definition sweepOnce :: "engine \<Rightarrow> time \<Rightarrow> world \<Rightarrow> world" where
  "sweepOnce eng now w =
     (case run_db (SweepTimeouts eng now) w of
        ((tasks, Some err), w1) \<Rightarrow> w1
      | ((tasks, None), w1) \<Rightarrow> if tasks = [] then w1 else publish_each EventTimeout tasks w1)"

definition SweeperRun :: "engine \<Rightarrow> Sweeper \<Rightarrow> time signal list \<Rightarrow> world \<Rightarrow> string + bool \<times> world" where
  "SweeperRun eng s signals w =
     (case NewTicker (sweeper_interval s) of
        Inl panic \<Rightarrow> Inl panic
      | Inr _ \<Rightarrow> Inr (tick_loop (sweepOnce eng) signals w))"

section \<open>The invariant\<close>

lemma world_ok_sweepOnce [inv_intros]:
  assumes "world_ok w"
  shows "world_ok (sweepOnce eng now w)"
proof -
  have "world_ok (snd (run_db (SweepTimeouts eng now) w))"
    using assms by (intro world_ok_run_db) (auto simp: world_ok_def intro: runs_ok_SweepTimeouts)
  then show ?thesis
    by (auto simp: sweepOnce_def split_beta intro: world_ok_publish_each split: option.split)
qed

interpretation sweeper: worker "sweepOnce eng" world_ok for eng
  by unfold_locales (rule world_ok_sweepOnce)

section \<open>One tick\<close>

lemma sweepOnce_fields:
  "w_db (sweepOnce eng now w) = snd (SweepTimeouts eng now (w_db w))"
  "w_hub (sweepOnce eng now w) =
     (case snd (fst (SweepTimeouts eng now (w_db w))) of
        Some _ \<Rightarrow> w_hub w
      | None \<Rightarrow> fold Publish (map (\<lambda>t. \<lparr>evt_Type = EventTimeout, evt_Task = t\<rparr>)
                            (fst (fst (SweepTimeouts eng now (w_db w))))) (w_hub w))"
  by (auto simp: sweepOnce_def run_db_def split_beta Let_def publish_each_fields split: option.split)

text \<open>
  C17. One tick of the sweeper: exactly the expired runs become \<open>timeout\<close>, and every subscriber of the
  hub finds, after what it had pending, one \<open>task.timeout\<close> event for each of them, carrying the
  run as stored, as far as its buffer of 16 has room.
\<close>

theorem sweepOnce_spec:
  assumes "no_faults eng" and "engine_ok eng" and "world_ok w"
  shows "\<exists>alerts.
    mset alerts = image_mset (\<lambda>r. \<lparr>evt_Type = EventTimeout,
        evt_Task = scanTaskRun (set_timeout eng now (scan_candidate r) r)\<rparr>)
      (filter_mset (expired now) (mset (task_runs (w_db w)))) \<and>
    (\<forall>ch\<in>set (subs (w_hub w)). buf (chans (w_hub (sweepOnce eng now w)) ch) =
       buf (chans (w_hub w) ch) @ take (16 - length (buf (chans (w_hub w) ch))) alerts) \<and>
    task_runs (w_db (sweepOnce eng now w)) =
      upd_where (expired now) (\<lambda>r. set_timeout eng now (scan_candidate r) r) (task_runs (w_db w))"
proof -
  have k: "keyed r_run_id (task_runs (w_db w))" and hub: "hub_ok (w_hub w)"
    using assms(3) by (simp_all add: world_ok_def runs_ok_def)
  have perm: "mset (scan_runs eng (Suc (stmts (w_db w))) (task_runs (w_db w))) = mset (task_runs (w_db w))"
    using assms(2) by (simp add: engine_ok_def)
  let ?alerts = "map (\<lambda>t. \<lparr>evt_Type = EventTimeout, evt_Task = t\<rparr>)
      (fst (fst (SweepTimeouts eng now (w_db w))))"
  note sweep = SweepTimeouts_no_faults[OF assms(1,2) k, of now]
  have "mset ?alerts = image_mset (\<lambda>r. \<lparr>evt_Type = EventTimeout,
        evt_Task = scanTaskRun (set_timeout eng now (scan_candidate r) r)\<rparr>)
      (filter_mset (expired now) (mset (task_runs (w_db w))))"
    by (simp add: sweep(1) perm image_mset.compositionality comp_def)
  moreover have "\<forall>ch\<in>set (subs (w_hub w)). buf (chans (w_hub (sweepOnce eng now w)) ch) =
      buf (chans (w_hub w) ch) @ take (16 - length (buf (chans (w_hub w) ch))) ?alerts"
    using hub.queue_batch[OF hub, of ?alerts] by (simp add: sweepOnce_fields sweep(1) chan_size_def)
  ultimately show ?thesis
    using sweep(2) by (intro exI[of _ ?alerts]) (simp add: sweepOnce_fields)
qed

theorem sweepOnce_spec_witness:
  "\<exists>alerts. size (mset alerts) = 1 \<and>
     buf (chans (w_hub (sweepOnce plain_engine 7000000000 sample_world)) 0) = alerts"
  using sweepOnce_spec[OF no_faults_plain engine_ok_plain world_ok_sample, of 7000000000]
  by (auto simp: sample_world_def sample_db_def Subscribe_def NewHub_def Let_def empty_chan_def)

text \<open>
  C38. A sweep that fails halfway loses alerts for good: the runs it had already marked are not
  announced (the hub is as before), and no later sweep returns them, since they no longer run.
\<close>

theorem failed_sweep_loses_alerts:
  assumes "world_ok w" and "snd (fst (SweepTimeouts eng now (w_db w))) = Some err"
    and "w1 = sweepOnce eng now w"
    and "at_key r_run_id k (task_runs (w_db w1)) = Some r" and "r_status r = StatusTimeout"
    and "no_faults eng'" and "engine_ok eng'"
  shows "w_hub w1 = w_hub w \<and> (\<forall>later. k \<notin> RunID ` set (fst (fst (SweepTimeouts eng' later (w_db w1)))))"
proof -
  have k1: "keyed r_run_id (task_runs (w_db w1))"
    using world_ok_sweepOnce[OF assms(1)] by (simp add: assms(3) world_ok_def runs_ok_def)
  have "k \<notin> RunID ` set (fst (fst (SweepTimeouts eng' later (w_db w1))))" for later
  proof
    assume "k \<in> RunID ` set (fst (fst (SweepTimeouts eng' later (w_db w1))))"
    then obtain x where x: "x \<in> set (scan_runs eng' (Suc (stmts (w_db w1))) (task_runs (w_db w1)))"
      "expired later x" "r_run_id x = k"
      by (auto simp: SweepTimeouts_no_faults(1)[OF assms(6,7) k1] scanTaskRun_def set_timeout_def)
    have "x \<in> set (task_runs (w_db w1))"
      using x(1) assms(7) by (metis engine_ok_def mset_eq_setD)
    then have "x = r"
      using at_key_mem[OF k1, of x] x(3) assms(4) by simp
    then show False
      using x(2) assms(5) by (simp add: expired_def has_ttl_def)
  qed
  then show ?thesis
    using assms(2) by (simp add: assms(3) sweepOnce_fields)
qed

text \<open>The third statement of the sweep, the read of the run just marked, fails.\<close>

definition flaky_engine :: engine where
  "flaky_engine = plain_engine\<lparr>fault := (\<lambda>n. if n = 2 then Some ''database is locked'' else None)\<rparr>"

theorem failed_sweep_loses_alerts_witness:
  "w_hub (sweepOnce flaky_engine 7000000000 sample_world) = w_hub sample_world \<and>
   r_status (hd (task_runs (w_db (sweepOnce flaky_engine 7000000000 sample_world)))) = StatusTimeout \<and>
   ''a'' \<notin> RunID ` set (fst (fst (SweepTimeouts plain_engine 9000000000
      (w_db (sweepOnce flaky_engine 7000000000 sample_world)))))"
proof -
  let ?w1 = "sweepOnce flaky_engine 7000000000 sample_world"
  have run: "SweepTimeouts flaky_engine 7000000000 (w_db sample_world) =
      (([], Some (DriverError ''database is locked'')), w_db ?w1) \<and>
    task_runs (w_db ?w1) =
      [set_timeout plain_engine 7000000000 (scan_candidate (sample_row ''a'' StatusRunning))
         (sample_row ''a'' StatusRunning), sample_row ''b'' StatusSuccess]"
    unfolding sweepOnce_fields
    by (simp add: SweepTimeouts_def select_candidates_def Query_def Exec_def flaky_engine_def sample_world_def
        sample_db_def sample_row_def has_ttl_def scan_candidate_def within_ttl_def Sub_def Second_def
        timeout_stmt_def update_runs_def RowsAffected_def cnt_where_def upd_where_def TaskGet_def set_timeout_def
        plain_engine_def)
  then have "at_key r_run_id ''a'' (task_runs (w_db ?w1)) =
      Some (set_timeout plain_engine 7000000000 (scan_candidate (sample_row ''a'' StatusRunning))
         (sample_row ''a'' StatusRunning))"
    by (simp add: at_key_def set_timeout_def sample_row_def)
  then show ?thesis
    using run failed_sweep_loses_alerts[OF world_ok_sample _ refl _ _ no_faults_plain engine_ok_plain,
        of flaky_engine 7000000000 "DriverError ''database is locked''" "''a''"]
    by (simp add: set_timeout_def)
qed

end
