(* ===== verification/Retention.thy ===== *)
theory Retention
  imports Sweeper
begin

text \<open>
  \<open>internal/retention/retention.go\<close>: the cleaner that deletes old finished runs. On a 64-bit
  target Go's \<open>int\<close> and \<open>time.Duration\<close> are both \<open>int64\<close>, so the product of \<open>New\<close> wraps.
  \<open>CleanerRun\<close> cleans once before it enters the loop.
\<close>

record Cleaner =
  retain :: duration
  cleaner_interval :: duration

definition NewCleaner :: "int64 \<Rightarrow> duration \<Rightarrow> Cleaner" where
  "NewCleaner retentionDays interval =
     \<lparr>retain = retentionDays * 24 * Hour, cleaner_interval = interval\<rparr>"

definition cleanOnce :: "engine \<Rightarrow> Cleaner \<Rightarrow> time \<Rightarrow> world \<Rightarrow> world" where
  "cleanOnce eng c now w =
     (let cutoff = Add now (- retain c)
      in case run_db (DeleteOlderThan eng cutoff) w of
           (Inl err, w1) \<Rightarrow> w1
         | (Inr n, w1) \<Rightarrow> w1)"

definition CleanerRun ::
  "engine \<Rightarrow> Cleaner \<Rightarrow> time \<Rightarrow> time signal list \<Rightarrow> world \<Rightarrow> string + bool \<times> world"
where
  "CleanerRun eng c start signals w =
     (case NewTicker (cleaner_interval c) of
        Inl panic \<Rightarrow> Inl panic
      | Inr _ \<Rightarrow> Inr (tick_loop (cleanOnce eng c) signals (cleanOnce eng c start w)))"

section \<open>The invariant\<close>

lemma cleanOnce_fields:
  "w_db (cleanOnce eng c now w) = snd (DeleteOlderThan eng (Add now (- retain c)) (w_db w))"
  "w_hub (cleanOnce eng c now w) = w_hub w"
  by (auto simp: cleanOnce_def run_db_def split_beta Let_def split: sum.split)

lemma world_ok_cleanOnce [inv_intros]: "world_ok w \<Longrightarrow> world_ok (cleanOnce eng c now w)"
  by (simp add: world_ok_def cleanOnce_fields runs_ok_DeleteOlderThan)

interpretation cleaner: worker "cleanOnce eng c" world_ok for eng c
  by unfold_locales (rule world_ok_cleanOnce)

section \<open>The cutoff\<close>

lemma retain_days: "retain (NewCleaner days interval) = (days * 86400) * Second"
  by (simp add: NewCleaner_def Hour_def Minute_def mult.assoc)

lemma sint_days:
  assumes "0 \<le> sint days" and "sint days \<le> 213503"
  shows "sint (days * 86400 :: int64) = sint days * 86400"
  using assms by (subst sint_mult_exact) (simp_all add: in_int64_def)

lemma Add_minus_retain:
  assumes "sint (retain c) \<noteq> min_int64"
  shows "Add now (- retain c) = now - sint (retain c)"
proof -
  have "sint (- retain c) = - sint (retain c)"
    using sint_int64[of "- sint (retain c)"] in_int64_sint[of "retain c"] assms
    by (simp add: in_int64_def)
  then show ?thesis by (simp add: Add_def)
qed

lemma cleaned_rows:
  "no_faults eng \<Longrightarrow> task_runs (w_db (cleanOnce eng c now w)) =
     del_where (older_than (stamp eng (Add now (- retain c)))) (task_runs (w_db w))"
  by (simp add: cleanOnce_fields snd_DeleteOlderThan Exec_no_faults delete_runs_def)

lemma older_than_finished:
  "runs_ok rows \<Longrightarrow> r \<in> set rows \<Longrightarrow>
     older_than t r \<longleftrightarrow> r_status r \<noteq> StatusRunning \<and> (\<exists>f. r_finished_at r = Some f \<and> f < t)"
  by (auto simp: older_than_def runs_ok_def run_ok_def split: option.split)



text \<open>
  From 106752 to 213503 days (292 to 584 years) the product wraps to a negative duration: the
  cutoff lies in the future and the first tick deletes every finished run.
\<close>

lemma huge_retention_deletes_everything:
  assumes "no_faults eng" and "engine_ok eng" and "world_ok w"
    and "106752 \<le> sint days" and "sint days \<le> 213503"
    and "\<forall>r\<in>set (task_runs (w_db w)). \<forall>f. r_finished_at r = Some f \<longrightarrow> f < stamp eng (now + 1000000000)"
  shows "task_runs (w_db (cleanOnce eng (NewCleaner days interval) now w)) =
    filter (\<lambda>r. r_status r = StatusRunning) (task_runs (w_db w))"
proof -
  let ?c = "NewCleaner days interval"
  have neg: "sint (retain ?c) \<le> - 1000000000" and "sint (retain ?c) \<noteq> min_int64"
    unfolding retain_days using sint_seconds_wrap_eq[of "days * 86400"] assms(4,5)
    by (simp_all add: sint_days)
  then have "now + 1000000000 \<le> Add now (- retain ?c)"
    by (simp add: Add_minus_retain)
  then have "stamp eng (now + 1000000000) \<le> stamp eng (Add now (- retain ?c))"
    using assms(2) by (simp add: engine_ok_def)
  moreover have "runs_ok (task_runs (w_db w))"
    using assms(3) by (simp add: world_ok_def)
  ultimately show ?thesis
    unfolding cleaned_rows[OF assms(1)] del_where_def using assms(6)
    by (intro filter_cong refl) (force simp: older_than_finished runs_ok_def run_ok_def)
qed

end
