(* ===== verification/MissedRun.thy ===== *)
theory MissedRun
  imports Retention
begin

text \<open>
  \<open>internal/missedrun/detector.go\<close>: the detector of overdue schedules. \<open>toAlertTask\<close> builds the
  synthetic run that carries the alert; the location of a scanned instant, which its text
  shows, is the engine's \<open>zone\<close>. \<open>checkOnce\<close> is one tick and \<open>DetectorRun\<close> the goroutine.
\<close>

record Detector =
  detector_interval :: duration

definition toAlertTask :: "engine \<Rightarrow> Schedule \<Rightarrow> TaskRun" where
  "toAlertTask eng sched =
     (let lastSeen =
            (case LastSeenAt sched of
               None \<Rightarrow> ''never''
             | Some t \<Rightarrow> FormatRFC3339 (zone eng t) t);
          expectation =
            (case CronExpression sched of
               Some e \<Rightarrow> ''cron `'' @ e @ ''`''
             | None \<Rightarrow>
                 (case ExpectedIntervalSeconds sched of
                    Some n \<Rightarrow> ''every '' @ Itoa (sint n) @ ''s''
                  | None \<Rightarrow> ''an unknown schedule''))
      in \<lparr>RunID = '''', TaskName = sched_TaskName sched, Source = '''', Status = StatusMissed,
          StartedAt = zero_time, FinishedAt = None, LastHeartbeatAt = None, TTLSeconds = None,
          DurationMs = None,
          ErrorMessage = ''expected '' @ expectation @ '' (+'' @ Itoa (sint (GracePeriodSeconds sched)) @
            ''s grace); last seen: '' @ lastSeen\<rparr>)"

definition checkOnce :: "cron \<Rightarrow> engine \<Rightarrow> time \<Rightarrow> world \<Rightarrow> world" where
  "checkOnce ParseStandard eng now w =
     (case run_db (DetectMissed ParseStandard eng now) w of
        ((missed, Some err), w1) \<Rightarrow> w1
      | ((missed, None), w1) \<Rightarrow>
          if missed = [] then w1 else publish_each EventScheduleMissed (map (toAlertTask eng) missed) w1)"

definition DetectorRun ::
  "cron \<Rightarrow> engine \<Rightarrow> Detector \<Rightarrow> time signal list \<Rightarrow> world \<Rightarrow> string + bool \<times> world"
where
  "DetectorRun ParseStandard eng d signals w =
     (case NewTicker (detector_interval d) of
        Inl panic \<Rightarrow> Inl panic
      | Inr _ \<Rightarrow> Inr (tick_loop (checkOnce ParseStandard eng) signals w))"

section \<open>The invariant\<close>

lemma world_ok_checkOnce [inv_intros]:
  assumes "world_ok w"
  shows "world_ok (checkOnce cr eng now w)"
proof -
  have "world_ok (snd (run_db (DetectMissed cr eng now) w))"
    using assms by (intro world_ok_run_db) (auto simp: world_ok_def intro: scheds_ok_DetectMissed)
  then show ?thesis
    by (auto simp: checkOnce_def split_beta intro: world_ok_publish_each split: option.split)
qed

interpretation detector: worker "checkOnce cr eng" world_ok for cr eng
  by unfold_locales (rule world_ok_checkOnce)

section \<open>One tick\<close>

definition missed_event :: "engine \<Rightarrow> Schedule \<Rightarrow> Event" where
  "missed_event eng sched = \<lparr>evt_Type = EventScheduleMissed, evt_Task = toAlertTask eng sched\<rparr>"

lemma checkOnce_fields:
  "w_db (checkOnce cr eng now w) = snd (DetectMissed cr eng now (w_db w))"
  "w_hub (checkOnce cr eng now w) =
     (case snd (fst (DetectMissed cr eng now (w_db w))) of
        Some _ \<Rightarrow> w_hub w
      | None \<Rightarrow> fold Publish (map (missed_event eng) (fst (fst (DetectMissed cr eng now (w_db w))))) (w_hub w))"
  by (auto simp: checkOnce_def run_db_def split_beta Let_def publish_each_fields missed_event_def[abs_def] comp_def
      split: option.split)

lemma toAlertTask_fields [simp]:
  "RunID (toAlertTask eng s) = ''''" "TaskName (toAlertTask eng s) = sched_TaskName s"
  "Status (toAlertTask eng s) = StatusMissed" "Source (toAlertTask eng s) = ''''"
  "DurationMs (toAlertTask eng s) = None"
  by (simp_all add: toAlertTask_def Let_def)



end
