(* ===== verification/Notifier.thy ===== *)
theory Notifier
  imports MissedRun Wire
begin

text \<open>
  \<open>internal/notifier/notifier.go\<close>: the webhook notifier. The HTTP client is the parameter \<open>http\<close> (a
  status or a transport error), with the offset of the location the instants of a run carry. A Go string is its
  bytes, so the icons are the UTF-8 encodings of their runes. \<open>Notify\<close> returns its error, if any,
  and the requests it sent.
\<close>

record http =
  offset :: "time \<Rightarrow> int"
  post :: "string \<Rightarrow> string \<Rightarrow> string \<Rightarrow> string + nat"

record WebhookNotifier =
  hook_url :: string
  hook_format :: string

datatype notify_error = BuildError string | SendError string | BadStatus nat

record http_request =
  req_url :: string
  req_type :: string
  req_body :: string

definition maxErrorMessageLen :: nat where "maxErrorMessageLen = 500"

definition truncate :: "string \<Rightarrow> nat \<Rightarrow> string" where
  "truncate s n = (if length s \<le> n then s else take n s @ ''... (truncated)'')"

definition icon_verb :: "TaskStatus \<Rightarrow> string \<times> string" where
  "icon_verb status =
     (case status of
        StatusFailed \<Rightarrow> (runes [128308], ''failed'')
      | StatusTimeout \<Rightarrow> (runes [9200], ''timed out'')
      | StatusMissed \<Rightarrow> (runes [128123], ''missed its expected run'')
      | _ \<Rightarrow> (runes [9888, 65039], TaskStatusString status))"

definition newline :: string where "newline = [char_of (10 :: nat)]"

definition formatMessage :: "TaskRun \<Rightarrow> string" where
  "formatMessage task =
     (let (icon, verb) = icon_verb (Status task) in
      icon @ '' *'' @ TaskName task @ ''* '' @ verb @
      (if RunID task \<noteq> '''' then '' (run `'' @ RunID task @ ''`)'' else []) @
      (if Source task \<noteq> '''' then '' from `'' @ Source task @ ''`'' else []) @
      (case DurationMs task of None \<Rightarrow> [] | Some n \<Rightarrow> newline @ ''Duration: '' @ Itoa (sint n) @ ''ms'') @
      (if ErrorMessage task \<noteq> '''' then newline @ ''```'' @ truncate (ErrorMessage task) maxErrorMessageLen @ ''```''
       else []))"

text \<open>\<open>json.Marshal\<close> of a map with one string never fails.\<close>

definition text_body :: "string \<Rightarrow> string \<Rightarrow> string" where
  "text_body name text = render (JObject [(name, JString text)])"

definition buildPayload :: "http \<Rightarrow> WebhookNotifier \<Rightarrow> TaskRun \<Rightarrow> string + string" where
  "buildPayload h n task =
     (if hook_format n = ''discord'' then Inr (text_body ''content'' (formatMessage task))
      else if hook_format n = ''generic'' then Marshal_TaskRun (offset h) task
      else Inr (text_body ''text'' (formatMessage task)))"

definition Notify :: "http \<Rightarrow> WebhookNotifier \<Rightarrow> TaskRun \<Rightarrow> notify_error option \<times> http_request list" where
  "Notify h n task =
     (case buildPayload h n task of
        Inl err \<Rightarrow> (Some (BuildError err), [])
      | Inr body \<Rightarrow>
          (let sent = [\<lparr>req_url = hook_url n, req_type = ''application/json'', req_body = body\<rparr>]
           in case post h (hook_url n) ''application/json'' body of
                Inl err \<Rightarrow> (Some (SendError err), sent)
              | Inr status \<Rightarrow> (if 300 \<le> status then Some (BadStatus status) else None, sent)))"

section \<open>The interface the dispatcher relies on\<close>

text \<open>The Go interface \<open>Notifier\<close>: one call sends at most one request.\<close>

locale notifier =
  fixes notify :: "TaskRun \<Rightarrow> 'e option \<times> 'p list"
  assumes one_request: "length (snd (notify t)) \<le> 1"
begin

lemma requests_bounded: "length (concat (map (snd \<circ> notify) ts)) \<le> length ts"
proof (induction ts)
  case Nil
  then show ?case by simp
next
  case (Cons t ts)
  then show ?case using one_request[of t] by simp
qed

end

lemma Notify_one_request: "length (snd (Notify h n t)) \<le> 1"
  by (simp add: Notify_def Let_def split: sum.split)

interpretation webhook: notifier "Notify h n" for h n
  by unfold_locales (rule Notify_one_request)

section \<open>Truncation\<close>

lemma range_string_ascii_append: "is_ascii p \<Longrightarrow> range_string (p @ q) = map of_char p @ range_string q"
  by (induction p) (auto simp: is_ascii_def range_string_def)

lemma length_truncate: "length (truncate s n) \<le> n + 15"
  by (simp add: truncate_def)

lemma truncate_append: "length p = n \<Longrightarrow> q \<noteq> [] \<Longrightarrow> truncate (p @ q) n = p @ ''... (truncated)''"
  by (simp add: truncate_def)

lemma length_decimal: "n < 10 ^ k \<Longrightarrow> 0 < k \<Longrightarrow> length (decimal n) \<le> k"
proof (induction k arbitrary: n)
  case 0
  then show ?case by simp
next
  case (Suc k)
  show ?case
  proof (cases "n < 10")
    case True
    then show ?thesis by (subst decimal.simps) simp
  next
    case False
    then have "0 < k" and "n div 10 < 10 ^ k"
      using Suc.prems by (auto intro: Nat.gr0I simp: less_mult_imp_div_less)
    then show ?thesis
      using Suc.IH[of "n div 10"] False by (simp add: decimal.simps[of n])
  qed
qed

lemma length_Itoa: "length (Itoa (sint (n :: int64))) \<le> 20"
proof -
  have "nat \<bar>sint n\<bar> < 10 ^ 19"
    using in_int64_sint[of n] by (auto simp: in_int64_def)
  then have "length (decimal (nat \<bar>sint n\<bar>)) \<le> 19"
    by (rule length_decimal) simp
  then show ?thesis
    by (auto simp: Itoa_def)
qed

lemma icon_verb_length: "icon_verb st = (i, v) \<Longrightarrow> length i + length v \<le> 27"
  by (cases st) (auto simp: icon_verb_def runes_def EncodeRune_def valid_rune_def)

section \<open>Properties\<close>

text \<open>
  The size of an alert: whatever the error message reported by a client, the text of an alert
  is at most 603 bytes longer than the task name, the run id and the source together.
\<close>

lemma formatMessage_bounded:
  "length (formatMessage task) \<le> length (TaskName task) + length (RunID task) + length (Source task) + 603"
proof -
  obtain icon verb where iv: "icon_verb (Status task) = (icon, verb)"
    by fastforce
  have "length icon + length verb \<le> 27"
    using icon_verb_length[OF iv] .
  moreover have "length (case DurationMs task of None \<Rightarrow> [] | Some n \<Rightarrow> newline @ ''Duration: '' @ Itoa (sint n) @ ''ms'') \<le> 33"
    using length_Itoa by (auto simp: newline_def split: option.split)
  moreover have "length (if ErrorMessage task \<noteq> '''' then newline @ ''```'' @ truncate (ErrorMessage task) maxErrorMessageLen @ ''```''
       else []) \<le> 522"
    using length_truncate[of "ErrorMessage task" 500] by (simp add: newline_def maxErrorMessageLen_def)
  ultimately show ?thesis
    unfolding formatMessage_def iv Let_def prod.case length_append by (auto split: if_splits)
qed

text \<open>
  The cut is made at 500 bytes and not between characters: when a two-byte character starts at
  byte 500, the truncated text is ill-formed UTF-8 there, although the message was not.
\<close>

lemma truncate_splits_rune:
  assumes "is_ascii p" and "length p = 499" and "128 \<le> r" and "r < 2048" and "is_ascii q"
  shows "range_string (p @ EncodeRune r @ q) = map of_char p @ r # map of_char q \<and>
    range_string (truncate (p @ EncodeRune r @ q) maxErrorMessageLen) =
      map of_char p @ rune_error # map of_char ''... (truncated)''"
proof -
  have enc: "EncodeRune r = [char_of (192 + r div 64), char_of (128 + r mod 64)]"
    using assms(3,4) by (simp add: EncodeRune_def valid_rune_def)
  have small: "r div 64 < 32" "2 \<le> r div 64"
    using assms(3,4) by simp_all
  have b0: "of_char (char_of (192 + r div 64)) = 192 + r div 64"
    and b1: "of_char (char_of (128 + r mod 64)) = 128 + r mod 64"
    using small by simp_all
  have whole: "range_string (EncodeRune r @ q) = r # map of_char q"
    using range_string_ascii[OF assms(5)] small assms(3)
    by (simp add: range_string_def enc b0 b1 is_cont_def)
  have "truncate ((p @ [char_of (192 + r div 64)]) @ char_of (128 + r mod 64) # q) 500 =
      (p @ [char_of (192 + r div 64)]) @ ''... (truncated)''"
    by (rule truncate_append) (simp_all add: assms(2))
  then have cut: "truncate (p @ EncodeRune r @ q) maxErrorMessageLen =
      p @ char_of (192 + r div 64) # ''... (truncated)''"
    by (simp add: enc maxErrorMessageLen_def)
  have "range_string (char_of (192 + r div 64) # ''... (truncated)'') = rune_error # map of_char ''... (truncated)''"
    using small by (simp add: range_string_def b0 is_cont_def)
  then show ?thesis
    unfolding cut by (simp add: range_string_ascii_append assms(1) whole)
qed

text \<open>
  One alert is one POST of a JSON body to the configured URL: the run itself for the generic
  format, an object with the text of the alert otherwise. \<open>Notify\<close> reports success exactly when the
  body could be encoded, the request went through and the receiver answered below 300; an
  encoding error, possible for the generic format only, sends nothing.
\<close>

lemma Notify_spec:
  "(case (if hook_format n = ''generic'' then Marshal_TaskRun (offset h) task
          else Inr (render (JObject [(if hook_format n = ''discord'' then ''content'' else ''text'',
                                      JString (formatMessage task))]))) of
      Inl e \<Rightarrow> Notify h n task = (Some (BuildError e), []) \<and> hook_format n = ''generic''
    | Inr body \<Rightarrow>
        snd (Notify h n task) = [\<lparr>req_url = hook_url n, req_type = ''application/json'', req_body = body\<rparr>] \<and>
        (fst (Notify h n task) = None \<longleftrightarrow>
           (\<exists>status. post h (hook_url n) ''application/json'' body = Inr status \<and> status < 300)))"
  by (auto simp: Notify_def buildPayload_def text_body_def Let_def split: sum.split)

lemma valid_utf8_icon: "icon_verb st = (i, v) \<Longrightarrow> valid_utf8 i \<and> valid_utf8 v"
proof -
  have "list_all valid_rune [128308] \<and> list_all valid_rune [9200] \<and> list_all valid_rune [128123] \<and>
      list_all valid_rune [9888, 65039]"
    by (simp add: valid_rune_def)
  then have "valid_utf8 (runes [128308])" "valid_utf8 (runes [9200])" "valid_utf8 (runes [128123])"
    "valid_utf8 (runes [9888, 65039])"
    unfolding valid_utf8_iff by blast+
  then show "icon_verb st = (i, v) \<Longrightarrow> valid_utf8 i \<and> valid_utf8 v"
    by (cases st) (auto simp: icon_verb_def valid_utf8_ascii is_ascii_def)
qed

lemma valid_utf8_formatMessage:
  assumes "valid_utf8 (TaskName task)" and "valid_utf8 (RunID task)" and "valid_utf8 (Source task)"
    and "valid_utf8 (truncate (ErrorMessage task) maxErrorMessageLen)"
  shows "valid_utf8 (formatMessage task)"
proof -
  obtain icon verb where iv: "icon_verb (Status task) = (icon, verb)"
    by fastforce
  have "valid_utf8 (case DurationMs task of None \<Rightarrow> [] | Some n \<Rightarrow> newline @ ''Duration: '' @ Itoa (sint n) @ ''ms'')"
    using valid_utf8_ascii[OF is_ascii_Itoa] by (simp add: newline_def utf8_intros split: option.split)
  then show ?thesis
    using assms valid_utf8_icon[OF iv] by (simp add: formatMessage_def iv newline_def utf8_intros)
qed



end
