(* ===== verification/Dispatcher.thy ===== *)
theory Dispatcher
  imports Notifier Subscriber "HOL-Library.Sublist"
begin

text \<open>
  \<open>internal/notifier/dispatcher.go\<close>: the goroutine that turns events into alerts, and its rate
  limit. \<open>windowCount\<close> is the Go \<open>int\<close>; \<open>sent\<close> records the calls of \<open>Notify\<close> with the instant
  \<open>d.now()\<close> returned, and is all that the rest of the world sees of the dispatcher.
\<close>

record Dispatcher =
  limit :: int64
  window :: duration
  windowStart :: time
  windowCount :: int64
  sent :: "(time \<times> TaskRun) list"

definition NewDispatcher :: "int64 \<Rightarrow> duration \<Rightarrow> Dispatcher" where
  "NewDispatcher limitPerWindow win =
     \<lparr>limit = limitPerWindow, window = win, windowStart = zero_time, windowCount = 0, sent = []\<rparr>"

definition allow :: "time \<Rightarrow> Dispatcher \<Rightarrow> bool \<times> Dispatcher" where
  "allow now d =
     (if sint (limit d) \<le> 0 then (True, d)
      else
        let d1 = (if sint (window d) \<le> sint (Sub now (windowStart d))
                  then d\<lparr>windowStart := now, windowCount := 0\<rparr> else d)
        in if sint (limit d1) \<le> sint (windowCount d1) then (False, d1)
           else (True, d1\<lparr>windowCount := windowCount d1 + 1\<rparr>))"

definition alert_worthy :: "EventType \<Rightarrow> bool" where
  "alert_worthy ty \<longleftrightarrow> ty = EventFailed \<or> ty = EventTimeout \<or> ty = EventScheduleMissed"

definition handle :: "time \<Rightarrow> Event \<Rightarrow> Dispatcher \<Rightarrow> Dispatcher" where
  "handle now evt d =
     (if \<not> alert_worthy (evt_Type evt) then d
      else (case allow now d of
              (False, d1) \<Rightarrow> d1
            | (True, d1) \<Rightarrow> d1\<lparr>sent := sent d1 @ [(now, evt_Task evt)]\<rparr>))"

text \<open>\<open>Run\<close> subscribes and consumes; a signal carries the instant at which \<open>d.now()\<close> is read.\<close>

definition DispatcherRun :: "time signal list \<Rightarrow> Dispatcher \<Rightarrow> Hub \<Rightarrow> bool \<times> Dispatcher \<times> Hub" where
  "DispatcherRun signals d h = (let (ch, h1) = Subscribe h in consume handle ch signals (d, h1))"

text \<open>Handling a sequence of events, each at its instant.\<close>

definition handle_all :: "(time \<times> Event) list \<Rightarrow> Dispatcher \<Rightarrow> Dispatcher" where
  "handle_all evts d = fold (\<lambda>(now, evt). handle now evt) evts d"

lemma handle_all_simps [simp]:
  "handle_all [] d = d"
  "handle_all ((now, evt) # evts) d = handle_all evts (handle now evt d)"
  by (simp_all add: handle_all_def)

section \<open>The rate limit\<close>

text \<open>Saturation does not disturb the comparison with a positive window.\<close>

lemma window_elapsed:
  assumes "0 < sint (w :: duration)"
  shows "sint w \<le> sint (Sub now start) \<longleftrightarrow> sint w \<le> now - start"
  using assms in_int64_sint[of w] by (auto simp: sint_Sub in_int64_def)

definition sent_between :: "time \<Rightarrow> time \<Rightarrow> (time \<times> TaskRun) list \<Rightarrow> nat" where
  "sent_between a b out = length (filter (\<lambda>(t, _). a \<le> t \<and> t < b) out)"

lemma sent_between_snoc:
  "sent_between a b (out @ [(t, x)]) = sent_between a b out + (if a \<le> t \<and> t < b then 1 else 0)"
  by (simp add: sent_between_def)

lemma sent_between_0: "(\<And>t x. (t, x) \<in> set out \<Longrightarrow> \<not> (a \<le> t \<and> t < b)) \<Longrightarrow> sent_between a b out = 0"
  by (auto simp: sent_between_def filter_empty_conv)

lemma sent_between_split:
  "sent_between a b out \<le> sent_between a c out + sent_between c b out"
  by (induction out) (auto simp: sent_between_def)

lemma sent_between_mono:
  "a' \<le> a \<Longrightarrow> b \<le> b' \<Longrightarrow> sent_between a b out \<le> sent_between a' b' out"
  by (induction out) (auto simp: sent_between_def)

text \<open>Leaving out the first instant of a window that has an alert at it loses at least one.\<close>

lemma sent_between_less:
  assumes "(s, x) \<in> set out" and "s < a" and "s < b"
  shows "sent_between a b out < sent_between s b out"
  using assms
proof (induction out)
  case Nil
  then show ?case by simp
next
  case (Cons y out)
  obtain t z where y: "y = (t, z)" by fastforce
  show ?case
  proof (cases "y = (s, x)")
    case True
    then show ?thesis
      using Cons.prems sent_between_mono[of s a b b out] by (simp add: sent_between_def)
  next
    case False
    then show ?thesis
      using Cons by (auto simp: sent_between_def y)
  qed
qed

text \<open>The three outcomes of an alert under a positive limit.\<close>

lemma handle_alert:
  assumes "0 < sint (limit d)" and "0 < sint (window d)" and "alert_worthy (evt_Type evt)"
  shows "handle now evt d =
    (if sint (window d) \<le> now - windowStart d
     then d\<lparr>windowStart := now, windowCount := 1, sent := sent d @ [(now, evt_Task evt)]\<rparr>
     else if sint (limit d) \<le> sint (windowCount d) then d
     else d\<lparr>windowCount := windowCount d + 1, sent := sent d @ [(now, evt_Task evt)]\<rparr>)"
  using assms by (simp add: handle_def allow_def window_elapsed Let_def)

lemma sint_Suc_count:
  "0 \<le> sint n \<Longrightarrow> sint n < sint (m :: int64) \<Longrightarrow> sint (n + 1 :: int64) = sint n + 1"
  using sint_add_exact[of n 1] in_int64_sint[of m] by (simp add: in_int64_def)

text \<open>
  The invariant of a limited dispatcher whose last event came at \<open>T\<close>: the current window has
  \<open>windowCount\<close> alerts, the first at its very start; the part of the previous window that a rolling
  window can still see has at most \<open>limit - 1\<close>; and no rolling window has more than \<open>2 limit - 1\<close>.
\<close>

definition rate_ok :: "time \<Rightarrow> Dispatcher \<Rightarrow> bool" where
  "rate_ok T d \<longleftrightarrow>
     0 < sint (limit d) \<and> 0 < sint (window d) \<and> 0 \<le> sint (windowCount d) \<and>
     sint (windowCount d) \<le> sint (limit d) \<and> windowStart d \<le> T \<and>
     (\<forall>(t, x)\<in>set (sent d). t \<le> T \<and> t < windowStart d + sint (window d)) \<and>
     int (sent_between (windowStart d) (windowStart d + sint (window d)) (sent d)) = sint (windowCount d) \<and>
     (windowStart d = zero_time \<and> sent d = [] \<or> (\<exists>x. (windowStart d, x) \<in> set (sent d))) \<and>
     (\<forall>a. windowStart d - sint (window d) < a \<longrightarrow>
        int (sent_between a (windowStart d) (sent d)) \<le> sint (limit d) - 1) \<and>
     (\<forall>a. int (sent_between a (a + sint (window d)) (sent d)) \<le> 2 * sint (limit d) - 1)"

lemma rate_ok_new:
  "0 < sint l \<Longrightarrow> 0 < sint w \<Longrightarrow> zero_time \<le> T \<Longrightarrow> rate_ok T (NewDispatcher l w)"
  by (simp add: rate_ok_def NewDispatcher_def sent_between_def)

lemma rate_ok_later: "rate_ok T d \<Longrightarrow> T \<le> now \<Longrightarrow> rate_ok now d"
  unfolding rate_ok_def by (auto; force)

text \<open>A new window opens.\<close>

lemma rate_ok_reset:
  assumes ok: "rate_ok T d" and "T \<le> now" and late: "sint (window d) \<le> now - windowStart d"
  shows "rate_ok now (d\<lparr>windowStart := now, windowCount := 1, sent := sent d @ [(now, x)]\<rparr>)"
proof -
  let ?W = "sint (window d)" and ?L = "sint (limit d)" and ?ws = "windowStart d" and ?out = "sent d"
  have LW: "0 < ?L" "0 < ?W" and past: "\<And>t y. (t, y) \<in> set ?out \<Longrightarrow> t \<le> T \<and> t < ?ws + ?W"
    and cnt: "int (sent_between ?ws (?ws + ?W) ?out) \<le> ?L"
    and first: "?out = [] \<or> (\<exists>y. (?ws, y) \<in> set ?out)"
    and roll: "\<And>a. int (sent_between a (a + ?W) ?out) \<le> 2 * ?L - 1"
    using ok by (auto simp: rate_ok_def)
  have none: "sent_between now b ?out = 0" for b
    using past late by (intro sent_between_0) fastforce
  have tail: "int (sent_between a now ?out) \<le> ?L - 1" if "now - ?W < a" for a
  proof (cases "?out = []")
    case True
    then show ?thesis using LW by (simp add: sent_between_def)
  next
    case False
    then obtain y where y: "(?ws, y) \<in> set ?out" using first by blast
    have "sent_between a now ?out \<le> sent_between a (?ws + ?W) ?out + sent_between (?ws + ?W) now ?out"
      by (rule sent_between_split)
    moreover have "sent_between (?ws + ?W) now ?out = 0"
      using past by (intro sent_between_0) fastforce
    moreover have "sent_between a (?ws + ?W) ?out < sent_between ?ws (?ws + ?W) ?out"
      using y late that LW by (intro sent_between_less) auto
    ultimately show ?thesis using cnt by linarith
  qed
  have "int (sent_between a (a + ?W) (?out @ [(now, x)])) \<le> 2 * ?L - 1" for a
  proof (cases "a \<le> now \<and> now < a + ?W")
    case True
    have "sent_between a (a + ?W) ?out \<le> sent_between a now ?out + sent_between now (a + ?W) ?out"
      by (rule sent_between_split)
    then show ?thesis
      using True none tail[of a] LW by (simp add: sent_between_snoc)
  next
    case False
    then show ?thesis using roll[of a] by (auto simp: sent_between_snoc)
  qed
  then show ?thesis
    using LW past none tail \<open>T \<le> now\<close> by (fastforce simp: rate_ok_def sent_between_snoc)
qed

text \<open>An alert within the current window.\<close>

lemma rate_ok_count:
  assumes ok: "rate_ok T d" and "T \<le> now" and "now < windowStart d + sint (window d)"
    and room: "sint (windowCount d) < sint (limit d)" and started: "zero_time + sint (window d) \<le> now"
  shows "rate_ok now (d\<lparr>windowCount := windowCount d + 1, sent := sent d @ [(now, x)]\<rparr>)"
proof -
  let ?W = "sint (window d)" and ?L = "sint (limit d)" and ?ws = "windowStart d" and ?out = "sent d"
  have cnt: "int (sent_between ?ws (?ws + ?W) ?out) = sint (windowCount d)"
    and prev: "\<And>a. ?ws - ?W < a \<Longrightarrow> int (sent_between a ?ws ?out) \<le> ?L - 1"
    and roll: "\<And>a. int (sent_between a (a + ?W) ?out) \<le> 2 * ?L - 1"
    and ws: "?ws \<le> now" and past: "\<And>t y. (t, y) \<in> set ?out \<Longrightarrow> t < ?ws + ?W"
    and suc: "sint (windowCount d + 1) = sint (windowCount d) + 1"
    using ok \<open>T \<le> now\<close> sint_Suc_count[of "windowCount d" "limit d"] room by (auto simp: rate_ok_def)
  have "int (sent_between a (a + ?W) (?out @ [(now, x)])) \<le> 2 * ?L - 1" for a
  proof (cases "a \<le> now \<and> now < a + ?W")
    case True
    have "sent_between a (a + ?W) ?out \<le> sent_between a ?ws ?out + sent_between ?ws (a + ?W) ?out"
      by (rule sent_between_split)
    moreover have "sent_between ?ws (a + ?W) ?out \<le>
        sent_between ?ws (?ws + ?W) ?out + sent_between (?ws + ?W) (a + ?W) ?out"
      by (rule sent_between_split)
    moreover have "sent_between (?ws + ?W) (a + ?W) ?out = 0"
      using past by (intro sent_between_0) fastforce
    ultimately show ?thesis
      using True prev[of a] cnt room ws by (simp add: sent_between_snoc)
  next
    case False
    then show ?thesis using roll[of a] by (auto simp: sent_between_snoc)
  qed
  moreover have "\<exists>y. (?ws, y) \<in> set ?out"
    using ok started assms(3) by (auto simp: rate_ok_def)
  ultimately show ?thesis
    using ok assms(2,3) room suc ws by (fastforce simp: rate_ok_def sent_between_snoc)
qed

lemma rate_ok_handle:
  assumes ok: "rate_ok T d" and "T \<le> now" and "zero_time + sint (window d) \<le> now"
  shows "rate_ok now (handle now evt d)"
proof (cases "alert_worthy (evt_Type evt)")
  case False
  then show ?thesis
    using rate_ok_later[OF ok assms(2)] by (simp add: handle_def)
next
  case True
  have "0 < sint (limit d)" "0 < sint (window d)"
    using ok by (simp_all add: rate_ok_def)
  from handle_alert[OF this True, of now] show ?thesis
    using rate_ok_reset[OF ok assms(2)] rate_ok_count[OF ok assms(2) _ _ assms(3)] rate_ok_later[OF ok assms(2)]
    by (simp add: not_le)
qed

lemma handle_window [simp]: "window (handle now evt d) = window d" "limit (handle now evt d) = limit d"
  by (auto simp: handle_def allow_def Let_def split: prod.split bool.split if_splits)

lemma rate_ok_handle_all:
  "rate_ok T d \<Longrightarrow> sorted (map fst evts) \<Longrightarrow>
     (\<forall>(now, e)\<in>set evts. T \<le> now \<and> zero_time + sint (window d) \<le> now) \<Longrightarrow>
     \<exists>T'. rate_ok T' (handle_all evts d)"
proof (induction evts arbitrary: T d)
  case Nil
  then show ?case by auto
next
  case (Cons ne evts)
  obtain now e where ne: "ne = (now, e)" by fastforce
  have "rate_ok now (handle now e d)"
    using Cons.prems by (intro rate_ok_handle) (auto simp: ne)
  then have "\<exists>T'. rate_ok T' (handle_all evts (handle now e d))"
    using Cons.prems by (intro Cons.IH) (auto simp: ne)
  then show ?case by (simp add: ne)
qed

section \<open>Properties\<close>

text \<open>
  C16. The rate limit: whatever the events and their instants, no rolling window, wherever it starts,
  sees more than \<open>2 limit - 1\<close> alerts.
\<close>

theorem rate_limit_bound:
  assumes "0 < sint l" and "0 < sint w" and "sorted (map fst evts)"
    and "\<forall>(now, e)\<in>set evts. zero_time + sint w \<le> now"
  shows "int (length (filter (\<lambda>(t, _). a \<le> t \<and> t < a + sint w) (sent (handle_all evts (NewDispatcher l w)))))
    \<le> 2 * sint l - 1"
proof -
  have new: "rate_ok zero_time (NewDispatcher l w)"
    using assms(1,2) by (rule rate_ok_new) simp
  moreover have "window (NewDispatcher l w) = w" "limit (NewDispatcher l w) = l"
    by (simp_all add: NewDispatcher_def)
  moreover have "window (handle_all evts d) = window d \<and> limit (handle_all evts d) = limit d" for d
    by (induction evts arbitrary: d) auto
  moreover have "\<exists>T'. rate_ok T' (handle_all evts (NewDispatcher l w))"
    using assms(2,4) by (intro rate_ok_handle_all[OF new assms(3)]) (force simp: NewDispatcher_def)
  ultimately show ?thesis
    by (auto simp: rate_ok_def sent_between_def)
qed

theorem rate_limit_bound_witness:
  "length (filter (\<lambda>(t, _). 0 \<le> t \<and> t < 0 + sint Minute)
     (sent (handle_all (replicate 30 (0, sample_event)) (NewDispatcher 10 Minute)))) \<le> 19"
  using rate_limit_bound[of 10 Minute "replicate 30 (0, sample_event)" 0]
  by (simp add: zero_time_def)

lemma handle_burst:
  assumes "0 < sint (window d)" and "alert_worthy (evt_Type e)" and "now < windowStart d + sint (window d)"
  shows "0 \<le> sint (windowCount d) \<Longrightarrow> sint (windowCount d) + int n \<le> sint (limit d) \<Longrightarrow>
    handle_all (replicate n (now, e)) d =
      d\<lparr>windowCount := windowCount d + of_nat n, sent := sent d @ replicate n (now, evt_Task e)\<rparr>"
  using assms
proof (induction n arbitrary: d)
  case 0
  then show ?case by simp
next
  case (Suc n)
  have suc: "sint (windowCount d + 1) = sint (windowCount d) + 1"
    using Suc.prems by (intro sint_Suc_count[of _ "limit d"]) auto
  have "handle now e d = d\<lparr>windowCount := windowCount d + 1, sent := sent d @ [(now, evt_Task e)]\<rparr>"
    using Suc.prems by (subst handle_alert) auto
  then show ?case
    using Suc.prems suc by (simp add: Suc.IH ac_simps)
qed

text \<open>
  The bound is reached: an alert that opens a window, \<open>limit - 1\<close> more at its last instant and
  \<open>limit\<close> right after it all go out, so that a rolling window sees \<open>2 limit - 1\<close> of them, although
  the configuration promises at most \<open>limit\<close> in any rolling minute.
\<close>

lemma rate_limit_reached:
  assumes "0 < sint l" and "1 < sint w" and "zero_time + sint w \<le> t0" and "alert_worthy (evt_Type e)"
    and "evts = (t0, e) # replicate (nat (sint l) - 1) (t0 + sint w - 1, e) @ replicate (nat (sint l)) (t0 + sint w, e)"
  shows "int (length (filter (\<lambda>(t, _). t0 + sint w - 1 \<le> t \<and> t < (t0 + sint w - 1) + sint w)
      (sent (handle_all evts (NewDispatcher l w))))) = 2 * sint l - 1"
proof -
  define k where "k = nat (sint l) - 1"
  then have k: "nat (sint l) = Suc k" and l: "sint l = 1 + int k"
    using assms(1) by simp_all
  let ?x = "evt_Task e" and ?t1 = "t0 + sint w - 1" and ?t2 = "t0 + sint w"
  let ?d1 = "\<lparr>limit = l, window = w, windowStart = t0, windowCount = 1, sent = [(t0, ?x)]\<rparr>"
  let ?d2 = "?d1\<lparr>windowCount := 1 + of_nat k, sent := (t0, ?x) # replicate k (?t1, ?x)\<rparr>"
  let ?d3 = "?d2\<lparr>windowStart := ?t2, windowCount := 1, sent := sent ?d2 @ [(?t2, ?x)]\<rparr>"
  have "handle t0 e (NewDispatcher l w) = ?d1"
    using assms(1-4) by (subst handle_alert) (auto simp: NewDispatcher_def)
  moreover have "handle_all (replicate k (?t1, e)) ?d1 = ?d2"
    using assms(2,4) l by (subst handle_burst) auto
  moreover have "handle ?t2 e ?d2 = ?d3"
    using assms(1,2,4) by (subst handle_alert) auto
  moreover have "handle_all (replicate k (?t2, e)) ?d3 =
      ?d3\<lparr>windowCount := 1 + of_nat k, sent := sent ?d3 @ replicate k (?t2, ?x)\<rparr>"
    using assms(2,4) l by (subst handle_burst) auto
  moreover have "handle_all (xs @ ys) d = handle_all ys (handle_all xs d)" for xs ys d
    by (simp add: handle_all_def)
  ultimately have "sent (handle_all evts (NewDispatcher l w)) =
      (t0, ?x) # replicate k (?t1, ?x) @ (?t2, ?x) # replicate k (?t2, ?x)"
    by (simp add: assms(5) k)
  then show ?thesis
    using assms(2) l by simp
qed

lemma handle_sent:
  "sent (handle now evt d) = sent d \<or>
   alert_worthy (evt_Type evt) \<and> sent (handle now evt d) = sent d @ [(now, evt_Task evt)]"
  by (auto simp: handle_def allow_def Let_def split: prod.split bool.split if_splits)

lemma handle_unlimited:
  "sint (limit d) \<le> 0 \<Longrightarrow> sent (handle now evt d) =
     sent d @ (if alert_worthy (evt_Type evt) then [(now, evt_Task evt)] else [])"
  by (simp add: handle_def allow_def)

lemma handle_all_sent:
  "\<exists>out. map snd (sent (handle_all evts d)) = map snd (sent d) @ out \<and>
     subseq out (map (evt_Task \<circ> snd) (filter (alert_worthy \<circ> evt_Type \<circ> snd) evts)) \<and>
     (sint (limit d) \<le> 0 \<longrightarrow> out = map (evt_Task \<circ> snd) (filter (alert_worthy \<circ> evt_Type \<circ> snd) evts))"
proof (induction evts arbitrary: d)
  case Nil
  then show ?case by simp
next
  case (Cons ne evts)
  obtain now e where ne: "ne = (now, e)" by fastforce
  let ?alerts = "map (evt_Task \<circ> snd) (filter (alert_worthy \<circ> evt_Type \<circ> snd) evts)"
  obtain out where out: "map snd (sent (handle_all evts (handle now e d))) = map snd (sent (handle now e d)) @ out"
    "subseq out ?alerts" "sint (limit d) \<le> 0 \<longrightarrow> out = ?alerts"
    using Cons.IH[of "handle now e d"] by (auto simp: comp_def)
  show ?case
    using handle_sent[of now e d] handle_unlimited[of d now e] out
    by (auto simp: ne comp_def intro: exI[of _ out])
qed

text \<open>
  The dispatcher forwards in order: the tasks it sends are a subsequence of the tasks of the
  failed, timeout and schedule-missed events it receives, never anything else, and all of them
  when the limit is zero or negative.
\<close>

lemma handle_all_in_order:
  shows "subseq (map snd (sent (handle_all evts (NewDispatcher l w))))
      (map (evt_Task \<circ> snd) (filter (alert_worthy \<circ> evt_Type \<circ> snd) evts)) \<and>
    (sint l \<le> 0 \<longrightarrow> map snd (sent (handle_all evts (NewDispatcher l w))) =
      map (evt_Task \<circ> snd) (filter (alert_worthy \<circ> evt_Type \<circ> snd) evts))"
  using handle_all_sent[of evts "NewDispatcher l w"] by (auto simp: NewDispatcher_def)

end
