(* ===== verification/RunHistory.thy ===== *)
theory RunHistory
  imports Router Dispatcher
begin

text \<open>
  What may happen to a stored run, over every request and every tick of the workers: its identity,
  its start and its TTL never change, a finished run never runs again, and only the retention
  job removes a run, and only a finished one. \<open>evolves del rows rows'\<close> says so of two states of the
  table; \<open>del\<close> allows deletion.
\<close>

definition life :: "run_row \<Rightarrow> run_row \<Rightarrow> bool" where
  "life r r' \<longleftrightarrow> r_run_id r' = r_run_id r \<and> r_task_name r' = r_task_name r \<and> r_source r' = r_source r \<and>
     r_ttl_seconds r' = r_ttl_seconds r \<and> r_started_at r' = r_started_at r \<and>
     (r_status r \<noteq> StatusRunning \<longrightarrow> r_status r' \<noteq> StatusRunning)"

definition evolves :: "bool \<Rightarrow> run_row list \<Rightarrow> run_row list \<Rightarrow> bool" where
  "evolves del rows rows' \<longleftrightarrow>
     (\<forall>k r. at_key r_run_id k rows = Some r \<longrightarrow>
        (case at_key r_run_id k rows' of
           None \<Rightarrow> del \<and> r_status r \<noteq> StatusRunning
         | Some r' \<Rightarrow> life r r'))"

lemma life_refl [simp]: "life r r"
  by (simp add: life_def)

lemma life_trans: "life r s \<Longrightarrow> life s t \<Longrightarrow> life r t"
  by (auto simp: life_def)

lemma evolves_refl [simp]: "evolves del rows rows"
  by (simp add: evolves_def)

lemma evolves_False:
  "evolves False rows rows' \<longleftrightarrow>
     (\<forall>k r. at_key r_run_id k rows = Some r \<longrightarrow> (\<exists>r'. at_key r_run_id k rows' = Some r' \<and> life r r'))"
  unfolding evolves_def by (intro iff_allI imp_cong refl) (simp split: option.split)

lemma evolves_trans: "evolves False rows rows1 \<Longrightarrow> evolves False rows1 rows2 \<Longrightarrow> evolves False rows rows2"
  unfolding evolves_False by (meson life_trans)

lemma evolves_weaken: "evolves False rows rows' \<Longrightarrow> evolves del rows rows'"
  unfolding evolves_False by (force simp: evolves_def)

lemma evolves_append: "evolves del rows (rows @ [r])"
  by (simp add: evolves_def at_key_append)

lemma evolves_upd:
  assumes "\<And>k. at_key r_run_id k (upd_where p f rows) = map_option (\<lambda>r. if p r then f r else r) (at_key r_run_id k rows)"
    and "\<And>r. life r (f r)"
  shows "evolves del rows (upd_where p f rows)"
  using assms by (simp add: evolves_def)

lemma evolves_heartbeat: "evolves del rows (upd_where p (set_heartbeat eng at) rows)"
  by (rule evolves_upd) (simp_all add: hb.at_key_upd life_def set_heartbeat_def)

lemma evolves_finished:
  "st \<noteq> StatusRunning \<Longrightarrow> evolves del rows (upd_where p (set_finished eng (st, at, n, msg)) rows)"
  by (rule evolves_upd) (simp_all only: fin.at_key_upd, simp add: life_def set_finished_def)

lemma evolves_timeout: "evolves del rows (upd_where p (set_timeout eng now c) rows)"
  by (rule evolves_upd) (simp_all add: tmo.at_key_upd life_def set_timeout_def)

section \<open>The methods of the store\<close>

lemma evolves_Create: "evolves False (task_runs d) (task_runs (snd (Create eng t d)))"
  unfolding snd_Create
  by (rule Exec_insert_run_inv[where P = "evolves False (task_runs d)"]) (simp_all add: evolves_append)

lemma evolves_Heartbeat: "evolves False (task_runs d) (task_runs (snd (Heartbeat eng k at d)))"
  unfolding snd_Heartbeat
  by (rule Exec_update_runs_inv[where P = "evolves False (task_runs d)"]) (simp_all add: evolves_heartbeat)

lemma evolves_Finish:
  "st \<noteq> StatusRunning \<Longrightarrow> evolves False (task_runs d) (task_runs (snd (Finish eng k st msg at d)))"
  by (rule Finish_inv[where P = "evolves False (task_runs d)"]) (simp_all add: evolves_finished)

lemma evolves_SweepTimeouts: "evolves False (task_runs d) (task_runs (snd (SweepTimeouts eng now d)))"
  by (rule SweepTimeouts_inv[where P = "evolves False (task_runs d)"])
     (auto intro: evolves_trans evolves_timeout)

lemma evolves_DeleteOlderThan:
  assumes "runs_ok (task_runs d)"
  shows "evolves True (task_runs d) (task_runs (snd (DeleteOlderThan eng cutoff d)))"
  unfolding snd_DeleteOlderThan
proof (rule Exec_delete_runs_inv[where P = "evolves True (task_runs d)"])
  have "keyed r_run_id (task_runs d)"
    using assms by (simp add: runs_ok_def)
  moreover have "older_than t r \<Longrightarrow> r_status r \<noteq> StatusRunning" if "at_key r_run_id k (task_runs d) = Some r" for k r t
    using older_than_finished[OF assms] at_key_SomeD[OF that] by blast
  ultimately show "evolves True (task_runs d) (del_where (older_than (stamp eng cutoff)) (task_runs d))"
    by (auto simp: evolves_def at_key_del split: option.splits)
qed simp

section \<open>The handlers and the workers\<close>

lemma publishLatest_tables [simp]:
  "task_runs (w_db (publishLatest eng k ty w)) = task_runs (w_db w)"
  "task_schedules (w_db (publishLatest eng k ty w)) = task_schedules (w_db w)"
  by (auto simp: publishLatest_def run_db_def split_beta Let_def split: sum.split)

lemma evolves_HandleStart:
  "evolves False (task_runs (w_db w)) (task_runs (w_db (snd (HandleStart g eng now uuid raw w))))"
  using evolves_Create[of "w_db w" eng]
  by (auto simp: HandleStart_def run_db_def split_beta Let_def split: sum.split)

lemma evolves_HandleHeartbeat:
  "evolves False (task_runs (w_db w)) (task_runs (w_db (snd (HandleHeartbeat g eng now raw w))))"
  using evolves_Heartbeat[of "w_db w" eng]
  by (auto simp: HandleHeartbeat_def run_db_def split_beta Let_def split: sum.split)

lemma evolves_HandleSuccess:
  "evolves False (task_runs (w_db w)) (task_runs (w_db (snd (HandleSuccess g eng now raw w))))"
  using evolves_Finish[of StatusSuccess "w_db w" eng]
  by (auto simp: HandleSuccess_def run_db_def split_beta Let_def split: sum.split)

lemma evolves_HandleFailed:
  "evolves False (task_runs (w_db w)) (task_runs (w_db (snd (HandleFailed g eng now raw w))))"
  using evolves_Finish[of StatusFailed "w_db w" eng]
  by (auto simp: HandleFailed_def run_db_def split_beta Let_def split: sum.split)

lemma reads_keep_runs [simp]:
  "task_runs (w_db (snd (HandleGet eng k w))) = task_runs (w_db w)"
  "task_runs (w_db (snd (HandleList eng status w))) = task_runs (w_db w)"
  "task_runs (w_db (snd (HandleRegister g cr eng now raw w))) = task_runs (w_db w)"
  "task_runs (w_db (snd (HandleSchedules eng w))) = task_runs (w_db w)"
  "task_runs (w_db (snd (HandleDelete eng n w))) = task_runs (w_db w)"
  "task_runs (w_db (snd (OpenStream w))) = task_runs (w_db w)"
  by (auto simp: handler_defs OpenStream_def run_db_def split_beta Let_def split: sum.split option.split)

lemma evolves_run_endpoint:
  "evolves False (task_runs (w_db w)) (task_runs (w_db (snd (run_endpoint st m e param q w))))"
  by (cases e) (simp_all add: run_endpoint_def evolves_HandleStart evolves_HandleHeartbeat
      evolves_HandleSuccess evolves_HandleFailed)

lemma evolves_ServeHTTP:
  "evolves False (task_runs (w_db w)) (task_runs (w_db (snd (ServeHTTP st m q w))))"
  by (auto simp: ServeHTTP_def requireAPIKey_cases evolves_run_endpoint split: option.split)

lemma evolves_response:
  "ServeHTTP st m q w = (r, w1) \<Longrightarrow> evolves False (task_runs (w_db w)) (task_runs (w_db w1))"
  using evolves_ServeHTTP[of w st m q] by simp

lemma evolves_sweepOnce: "evolves False (task_runs (w_db w)) (task_runs (w_db (sweepOnce eng now w)))"
  by (simp add: sweepOnce_fields evolves_SweepTimeouts)

lemma evolves_cleanOnce:
  "world_ok w \<Longrightarrow> evolves True (task_runs (w_db w)) (task_runs (w_db (cleanOnce eng c now w)))"
  by (simp add: cleanOnce_fields evolves_DeleteOlderThan world_ok_def)

lemma checkOnce_runs [simp]: "task_runs (w_db (checkOnce cr eng now w)) = task_runs (w_db w)"
  by (simp add: checkOnce_fields)

section \<open>Who is subscribed\<close>

text \<open>Only opening a stream changes the list of subscribers.\<close>

lemma publish_each_subs [simp]: "subs (w_hub (publish_each ty ts w)) = subs (w_hub w)"
  by (induction ts arbitrary: w) simp_all

lemma publishLatest_subs [simp]: "subs (w_hub (publishLatest eng k ty w)) = subs (w_hub w)"
  by (auto simp: publishLatest_def split_beta split: sum.split)

lemma handler_subs [simp]:
  "subs (w_hub (snd (HandleStart g eng now uuid raw w))) = subs (w_hub w)"
  "subs (w_hub (snd (HandleHeartbeat g eng now raw w))) = subs (w_hub w)"
  "subs (w_hub (snd (HandleSuccess g eng now raw w))) = subs (w_hub w)"
  "subs (w_hub (snd (HandleFailed g eng now raw w))) = subs (w_hub w)"
  "subs (w_hub (snd (HandleGet eng k w))) = subs (w_hub w)"
  "subs (w_hub (snd (HandleList eng status w))) = subs (w_hub w)"
  "subs (w_hub (snd (HandleRegister g cr eng now raw w))) = subs (w_hub w)"
  "subs (w_hub (snd (HandleSchedules eng w))) = subs (w_hub w)"
  "subs (w_hub (snd (HandleDelete eng n w))) = subs (w_hub w)"
  by (auto simp: handler_defs split_beta Let_def split: sum.split option.split)

lemma worker_subs [simp]:
  "subs (w_hub (sweepOnce eng now w)) = subs (w_hub w)"
  "subs (w_hub (checkOnce cr eng now w)) = subs (w_hub w)"
  "subs (w_hub (cleanOnce eng c now w)) = subs (w_hub w)"
  by (auto simp: sweepOnce_def checkOnce_def cleanOnce_fields split_beta split: option.split)

end
