(* ===== verification/Statements.thy ===== *)
theory Statements
  imports RunHistory
begin

text \<open>
  The handlers and the worker ticks statement by statement. A program is a tree of atomic actions
  on the shared world: one SQL statement, one publication (the hub's mutex) or one subscription;
  what comes next may depend on the result. Between two actions of a program the other
  goroutines run. \<open>run\<close> executes a program alone: each program below runs to what the definition
  of its handler or worker says, so that those are the programs' behaviour without interference.
\<close>

datatype 'a prog = Ret 'a | Act "world \<Rightarrow> 'a prog \<times> world"

primrec bind :: "'a prog \<Rightarrow> ('a \<Rightarrow> 'b prog) \<Rightarrow> 'b prog" where
  "bind (Ret x) f = f x"
| "bind (Act g) f = Act (map_prod (\<lambda>p. bind p f) id \<circ> g)"

primrec run :: "'a prog \<Rightarrow> world \<Rightarrow> 'a \<times> world" where
  "run (Ret x) = (\<lambda>w. (x, w))"
| "run (Act g) = (\<lambda>w. case (map_prod run id \<circ> g) w of (k, w1) \<Rightarrow> k w1)"

definition act :: "(world \<Rightarrow> 'a \<times> world) \<Rightarrow> 'a prog" where
  "act m = Act (\<lambda>w. map_prod Ret id (m w))"

abbreviation sql :: "(db \<Rightarrow> 'a \<times> db) \<Rightarrow> 'a prog" where
  "sql m \<equiv> act (run_db m)"

definition announce :: "EventType \<Rightarrow> TaskRun \<Rightarrow> unit prog" where
  "announce ty t = act (\<lambda>w. ((), publish ty t w))"

text \<open>Induction over a program: the continuation of every result of its first action.\<close>

lemma prog_induct [case_names Ret Act]:
  assumes "\<And>x. P (Ret x)" and "\<And>g. (\<And>w. P (fst (g w))) \<Longrightarrow> P (Act g)"
  shows "P p"
proof (induction p)
  case (Act g)
  have "fst (g w) \<in> Basic_BNFs.fsts (g w)" for w
    by (cases "g w") (simp add: prod_set_simps)
  then show ?case
    using Act.IH[OF rangeI] assms(2) by blast
qed (rule assms(1))

lemma run_act [simp]: "run (act m) w = m w"
  by (simp add: act_def split_beta)

lemma run_bind: "run (bind p f) w = (let (x, w1) = run p w in run (f x) w1)"
  by (induction p arbitrary: w rule: prog_induct) (simp_all add: split_beta)

section \<open>The programs\<close>

definition FinishP :: "engine \<Rightarrow> string \<Rightarrow> TaskStatus \<Rightarrow> string \<Rightarrow> time \<Rightarrow> (store_error + unit) prog" where
  "FinishP eng k status msg at =
     bind (sql (Query eng (\<lambda>d0. map_option r_started_at (at_key r_run_id k (task_runs d0)))))
       (\<lambda>res. case res of
          Inl err \<Rightarrow> Ret (Inl err)
        | Inr None \<Rightarrow> Ret (Inl ErrNotFound)
        | Inr (Some startedAt) \<Rightarrow>
            bind (sql (Exec eng (update_runs (\<lambda>r. r_run_id r = k)
                    (set_finished eng (status, at, Milliseconds (Sub at startedAt), msg)))))
              (\<lambda>r. Ret (checkRowsAffected r)))"

definition publishLatestP :: "engine \<Rightarrow> string \<Rightarrow> EventType \<Rightarrow> unit prog" where
  "publishLatestP eng k ty =
     bind (sql (TaskGet eng k))
       (\<lambda>res. case res of Inl err \<Rightarrow> Ret () | Inr task \<Rightarrow> announce ty task)"

definition StartP :: "gin \<Rightarrow> engine \<Rightarrow> time \<Rightarrow> string \<Rightarrow> string \<Rightarrow> response prog" where
  "StartP g eng now uuid raw =
     (case bind_start g raw of
        Inl e \<Rightarrow> Ret (reply 400 (JError e))
      | Inr req \<Rightarrow>
          (let runID = chosen_run_id req uuid; task = started_task req runID now in
           bind (sql (Create eng task))
             (\<lambda>res. case res of
                Inl err \<Rightarrow> Ret (reply 500 (JError ''failed to record task start''))
              | Inr _ \<Rightarrow>
                  bind (announce EventStarted (task\<lparr>LastHeartbeatAt := Some (StartedAt task)\<rparr>))
                    (\<lambda>_. bind (sql (Touch eng (start_TaskName req) (StartedAt task)))
                      (\<lambda>_. Ret (reply 201 (JRunID runID)))))))"

definition HeartbeatP :: "gin \<Rightarrow> engine \<Rightarrow> time \<Rightarrow> string \<Rightarrow> response prog" where
  "HeartbeatP g eng now raw =
     (case bind_heartbeat g raw of
        Inl e \<Rightarrow> Ret (reply 400 (JError e))
      | Inr req \<Rightarrow>
          bind (sql (Heartbeat eng (heartbeat_RunID req) now))
            (\<lambda>res. case res of
               Inl err \<Rightarrow> Ret (respondStoreErr err ''task run not found'')
             | Inr _ \<Rightarrow> bind (publishLatestP eng (heartbeat_RunID req) EventHeartbeat)
                 (\<lambda>_. Ret (reply 204 NoBody))))"

definition SuccessP :: "gin \<Rightarrow> engine \<Rightarrow> time \<Rightarrow> string \<Rightarrow> response prog" where
  "SuccessP g eng now raw =
     (case bind_success g raw of
        Inl e \<Rightarrow> Ret (reply 400 (JError e))
      | Inr req \<Rightarrow>
          bind (FinishP eng (success_RunID req) StatusSuccess '''' now)
            (\<lambda>res. case res of
               Inl err \<Rightarrow> Ret (respondStoreErr err ''task run not found'')
             | Inr _ \<Rightarrow> bind (publishLatestP eng (success_RunID req) EventSucceeded)
                 (\<lambda>_. Ret (reply 204 NoBody))))"

definition FailedP :: "gin \<Rightarrow> engine \<Rightarrow> time \<Rightarrow> string \<Rightarrow> response prog" where
  "FailedP g eng now raw =
     (case bind_failed g raw of
        Inl e \<Rightarrow> Ret (reply 400 (JError e))
      | Inr req \<Rightarrow>
          bind (FinishP eng (failed_RunID req) StatusFailed (failed_ErrorMessage req) now)
            (\<lambda>res. case res of
               Inl err \<Rightarrow> Ret (respondStoreErr err ''task run not found'')
             | Inr _ \<Rightarrow> bind (publishLatestP eng (failed_RunID req) EventFailed)
                 (\<lambda>_. Ret (reply 204 NoBody))))"

fun sweep_loopP ::
  "engine \<Rightarrow> time \<Rightarrow> TaskRun list \<Rightarrow> candidate list \<Rightarrow> (TaskRun list \<times> store_error option) prog"
where
  "sweep_loopP eng now timedOut [] = Ret (timedOut, None)"
| "sweep_loopP eng now timedOut (c # cs) =
     (if within_ttl now c then sweep_loopP eng now timedOut cs
      else bind (sql (Exec eng (timeout_stmt eng now c)))
        (\<lambda>res. case res of
           Inl err \<Rightarrow> Ret (timedOut, Some err)
         | Inr n \<Rightarrow>
             if fst (RowsAffected n) = 0 then sweep_loopP eng now timedOut cs
             else bind (sql (TaskGet eng (c_runID c)))
               (\<lambda>got. case got of
                  Inl err \<Rightarrow> Ret (timedOut, Some err)
                | Inr task \<Rightarrow> sweep_loopP eng now (timedOut @ [task]) cs)))"

fun announce_all :: "EventType \<Rightarrow> TaskRun list \<Rightarrow> unit prog" where
  "announce_all ty [] = Ret ()"
| "announce_all ty (t # ts) = bind (announce ty t) (\<lambda>_. announce_all ty ts)"

definition SweepP :: "engine \<Rightarrow> time \<Rightarrow> unit prog" where
  "SweepP eng now =
     bind (sql (select_candidates eng))
       (\<lambda>sel. case sel of
          Inl err \<Rightarrow> Ret ()
        | Inr cs \<Rightarrow>
            bind (sweep_loopP eng now [] cs)
              (\<lambda>(tasks, err). case err of Some e \<Rightarrow> Ret () | None \<Rightarrow> announce_all EventTimeout tasks))"

fun detect_loopP ::
  "engine \<Rightarrow> time \<Rightarrow> Schedule list \<Rightarrow> sched_candidate list \<Rightarrow> (Schedule list \<times> store_error option) prog"
where
  "detect_loopP eng now missed [] = Ret (missed, None)"
| "detect_loopP eng now missed (c # cs) =
     (if Before now (c_deadline c) then detect_loopP eng now missed cs
      else bind (sql (Exec eng (missed_stmt eng now c)))
        (\<lambda>res. case res of
           Inl err \<Rightarrow> Ret (missed, Some err)
         | Inr n \<Rightarrow>
             if fst (RowsAffected n) = 0 then detect_loopP eng now missed cs
             else bind (sql (ScheduleGet eng (c_taskName c)))
               (\<lambda>got. case got of
                  Inl err \<Rightarrow> Ret (missed, Some err)
                | Inr sched \<Rightarrow> detect_loopP eng now (missed @ [sched]) cs)))"

definition CheckP :: "cron \<Rightarrow> engine \<Rightarrow> time \<Rightarrow> unit prog" where
  "CheckP ParseStandard eng now =
     bind (sql (select_ok_schedules ParseStandard eng))
       (\<lambda>sel. case sel of
          Inl err \<Rightarrow> Ret ()
        | Inr cs \<Rightarrow>
            bind (detect_loopP eng now [] cs)
              (\<lambda>(missed, err). case err of
                 Some e \<Rightarrow> Ret ()
               | None \<Rightarrow> announce_all EventScheduleMissed (map (toAlertTask eng) missed)))"

text \<open>A request: the endpoints that are a single statement or subscription are one action.\<close>

definition EndpointP :: "site \<Rightarrow> moment \<Rightarrow> endpoint \<Rightarrow> string \<Rightarrow> request \<Rightarrow> response prog" where
  "EndpointP st m e param q =
     (case e of
        EventsStart \<Rightarrow> StartP (site_gin st) (m_engine m) (m_now m) (m_uuid m) (q_body q)
      | EventsHeartbeat \<Rightarrow> HeartbeatP (site_gin st) (m_engine m) (m_now m) (q_body q)
      | EventsSuccess \<Rightarrow> SuccessP (site_gin st) (m_engine m) (m_now m) (q_body q)
      | EventsFailed \<Rightarrow> FailedP (site_gin st) (m_engine m) (m_now m) (q_body q)
      | _ \<Rightarrow> act (run_endpoint st m e param q))"

definition ServeP :: "site \<Rightarrow> moment \<Rightarrow> request \<Rightarrow> response prog" where
  "ServeP st m q =
     (case lookup st route_table (q_method q) (q_path q) of
        None \<Rightarrow> Ret (serveEmbeddedUI (site_assets st) q)
      | Some (e, param) \<Rightarrow>
          if e \<noteq> Healthz \<and> site_apiKey st \<noteq> '''' \<and> \<not> constantTimeEqual (bearerToken q) (site_apiKey st)
          then Ret (reply 401 (JError ''invalid or missing API key''))
          else EndpointP st m e param q)"

section \<open>A program alone\<close>

lemma run_FinishP: "run (FinishP eng k status msg at) w = run_db (Finish eng k status msg at) w"
  by (simp add: FinishP_def Finish_def run_bind run_db_def split_beta Let_def split: sum.split option.split)

lemma run_publishLatestP: "run (publishLatestP eng k ty) w = ((), publishLatest eng k ty w)"
  by (simp add: publishLatestP_def publishLatest_def announce_def run_bind split_beta split: sum.split)

lemma run_StartP: "run (StartP g eng now uuid raw) w = HandleStart g eng now uuid raw w"
  by (simp add: StartP_def HandleStart_def announce_def run_bind split_beta Let_def split: sum.split)

lemma run_HeartbeatP: "run (HeartbeatP g eng now raw) w = HandleHeartbeat g eng now raw w"
  by (simp add: HeartbeatP_def HandleHeartbeat_def run_bind run_publishLatestP split_beta Let_def split: sum.split)

lemma run_SuccessP: "run (SuccessP g eng now raw) w = HandleSuccess g eng now raw w"
  by (simp add: SuccessP_def HandleSuccess_def run_bind run_FinishP run_publishLatestP split_beta Let_def
      split: sum.split)

lemma run_FailedP: "run (FailedP g eng now raw) w = HandleFailed g eng now raw w"
  by (simp add: FailedP_def HandleFailed_def run_bind run_FinishP run_publishLatestP split_beta Let_def
      split: sum.split)

lemma run_announce_all: "run (announce_all ty ts) w = ((), publish_each ty ts w)"
  by (induction ts arbitrary: w) (simp_all add: announce_def run_bind)

lemma run_db_twice: "run_db m2 (snd (run_db m1 w)) = run_db (\<lambda>d. m2 (snd (m1 d))) w"
  by (simp add: run_db_def split_beta Let_def)

lemma run_sweep_loopP: "run (sweep_loopP eng now acc cs) w = run_db (sweep_loop eng now acc cs) w"
proof (induction cs arbitrary: acc w)
  case Nil
  then show ?case by (simp add: run_db_def)
next
  case (Cons c cs)
  then show ?case
    by (simp add: run_bind run_db_def split_beta Let_def split: sum.split)
qed

lemma run_detect_loopP: "run (detect_loopP eng now acc cs) w = run_db (detect_loop eng now acc cs) w"
proof (induction cs arbitrary: acc w)
  case Nil
  then show ?case by (simp add: run_db_def)
next
  case (Cons c cs)
  then show ?case
    by (simp add: run_bind run_db_def split_beta Let_def split: sum.split)
qed

lemma run_SweepP: "run (SweepP eng now) w = ((), sweepOnce eng now w)"
  by (simp add: SweepP_def sweepOnce_def SweepTimeouts_def run_bind run_sweep_loopP run_announce_all
      run_db_def split_beta Let_def split: sum.split option.split)

lemma run_CheckP: "run (CheckP cr eng now) w = ((), checkOnce cr eng now w)"
  by (simp add: CheckP_def checkOnce_def DetectMissed_def run_bind run_detect_loopP run_announce_all
      run_db_def split_beta Let_def split: sum.split option.split)

lemma run_ServeP: "run (ServeP st m q) w = ServeHTTP st m q w"
proof -
  have "run (EndpointP st m e param q) w = run_endpoint st m e param q w" for e param
    by (cases e) (simp_all add: EndpointP_def run_endpoint_def run_StartP run_HeartbeatP run_SuccessP run_FailedP)
  then show ?thesis
    by (auto simp: ServeP_def ServeHTTP_def requireAPIKey_def split: option.split)
qed

section \<open>What every action of a program guarantees\<close>

text \<open>
  \<open>guar R p\<close>: every action of \<open>p\<close>, in whatever state the interference of the others lets it run,
  changes the world as \<open>R\<close> allows.
\<close>

inductive guar :: "(world \<Rightarrow> world \<Rightarrow> bool) \<Rightarrow> 'a prog \<Rightarrow> bool" for R where
  guar_Ret [intro!]: "guar R (Ret x)"
| guar_Act: "(\<And>w. R w (snd (g w))) \<Longrightarrow> (\<And>w. guar R (fst (g w))) \<Longrightarrow> guar R (Act g)"

inductive_simps guar_Act_iff: "guar R (Act g)"

lemma guar_act: "(\<And>w. R w (snd (m w))) \<Longrightarrow> guar R (act m)"
  unfolding act_def by (rule guar_Act) auto

lemma guar_bind: "guar R p \<Longrightarrow> (\<And>x. guar R (f x)) \<Longrightarrow> guar R (bind p f)"
proof (induction rule: guar.induct)
  case (guar_Ret x)
  then show ?case by simp
next
  case (guar_Act g)
  then show ?case
    by (auto intro!: guar.guar_Act)
qed

text \<open>The invariant and the history of the runs, as a relation between two states.\<close>

definition sound :: "world \<Rightarrow> world \<Rightarrow> bool" where
  "sound w w' \<longleftrightarrow> world_ok w \<longrightarrow>
     world_ok w' \<and> evolves False (task_runs (w_db w)) (task_runs (w_db w'))"

lemma sound_run_db:
  assumes "\<And>d. runs_ok (task_runs d) \<Longrightarrow> runs_ok (task_runs (snd (m d))) \<and> evolves False (task_runs d) (task_runs (snd (m d)))"
    and "\<And>d. scheds_ok (task_schedules d) \<Longrightarrow> scheds_ok (task_schedules (snd (m d)))"
  shows "sound w (snd (run_db m w))"
  using assms by (simp add: sound_def world_ok_def)

lemma guar_sql:
  assumes "\<And>d. runs_ok (task_runs d) \<Longrightarrow> runs_ok (task_runs (snd (m d))) \<and> evolves False (task_runs d) (task_runs (snd (m d)))"
    and "\<And>d. scheds_ok (task_schedules d) \<Longrightarrow> scheds_ok (task_schedules (snd (m d)))"
  shows "guar sound (sql m)"
  using assms by (intro guar_act sound_run_db) auto

lemma guar_read:
  "(\<And>d. task_runs (snd (m d)) = task_runs d) \<Longrightarrow> (\<And>d. task_schedules (snd (m d)) = task_schedules d) \<Longrightarrow>
     guar sound (sql m)"
  by (rule guar_sql) simp_all

lemma guar_announce: "guar sound (announce ty t)"
  unfolding announce_def by (rule guar_act) (simp add: sound_def world_ok_publish)

lemma guar_announce_all: "guar sound (announce_all ty ts)"
  by (induction ts) (auto intro: guar_bind guar_announce)

lemma runs_ok_keyed: "runs_ok rows \<Longrightarrow> keyed r_run_id rows"
  by (simp add: runs_ok_def)

lemma runs_ok_finished:
  "runs_ok rows \<Longrightarrow> st \<noteq> StatusRunning \<Longrightarrow> st \<noteq> StatusMissed \<Longrightarrow>
     runs_ok (upd_where p (set_finished eng (st, at, n, msg)) rows)"
  by (intro runs_ok_upd fin.keyed_upd runs_ok_keyed) (auto simp: run_ok_def set_finished_def)

lemma runs_ok_timeout: "runs_ok rows \<Longrightarrow> runs_ok (upd_where p (set_timeout eng now c) rows)"
  by (intro runs_ok_upd tmo.keyed_upd runs_ok_keyed) (auto simp: run_ok_def set_timeout_def)

lemma guar_finish_stmt:
  assumes "st \<noteq> StatusRunning" and "st \<noteq> StatusMissed"
  shows "guar sound (sql (Exec eng (update_runs p (set_finished eng (st, at, n, msg)))))"
proof (rule guar_sql)
  fix d :: db
  assume "runs_ok (task_runs d)"
  then show "runs_ok (task_runs (snd (Exec eng (update_runs p (set_finished eng (st, at, n, msg))) d))) \<and>
    evolves False (task_runs d) (task_runs (snd (Exec eng (update_runs p (set_finished eng (st, at, n, msg))) d)))"
    using assms
    by (intro conjI Exec_update_runs_inv[where P = runs_ok] Exec_update_runs_inv[where P = "evolves False (task_runs d)"])
       (auto intro: runs_ok_finished evolves_finished)
qed simp

lemma guar_timeout_stmt: "guar sound (sql (Exec eng (timeout_stmt eng now c)))"
  unfolding timeout_stmt_def
proof (rule guar_sql)
  fix d :: db
  let ?s = "update_runs (\<lambda>r. r_run_id r = c_runID c \<and> r_status r = StatusRunning) (set_timeout eng now c)"
  assume "runs_ok (task_runs d)"
  then show "runs_ok (task_runs (snd (Exec eng ?s d))) \<and> evolves False (task_runs d) (task_runs (snd (Exec eng ?s d)))"
    by (intro conjI Exec_update_runs_inv[where P = runs_ok] Exec_update_runs_inv[where P = "evolves False (task_runs d)"])
       (auto intro: runs_ok_timeout evolves_timeout)
qed simp

lemma guar_missed_stmt: "guar sound (sql (Exec eng (missed_stmt eng now c)))"
  unfolding missed_stmt_def
proof (rule guar_sql)
  fix d :: db
  assume "scheds_ok (task_schedules d)"
  then show "scheds_ok (task_schedules (snd (Exec eng (update_schedules
      (\<lambda>r. s_task_name r = c_taskName c \<and> s_status r = ScheduleStatusOK) (set_missed eng now)) d)))"
    by (intro Exec_update_schedules_inv[where P = scheds_ok]) (auto simp: scheds_ok_def mis.keyed_upd)
qed simp

lemma guar_create: "Status t = StatusRunning \<Longrightarrow> guar sound (sql (Create eng t))"
  by (rule guar_sql) (simp_all add: runs_ok_Create evolves_Create)

lemma guar_heartbeat: "guar sound (sql (Heartbeat eng k at))"
  by (rule guar_sql) (simp_all add: runs_ok_Heartbeat evolves_Heartbeat)

lemma guar_touch: "guar sound (sql (Touch eng n at))"
  by (rule guar_sql) (simp_all add: scheds_ok_Touch)

lemma guar_query: "guar sound (sql (Query eng sel))"
  by (rule guar_read) (simp_all add: Query_tables)

lemmas guar_actions =
  guar_bind guar_create guar_heartbeat guar_touch guar_query guar_announce guar_announce_all
  guar_finish_stmt guar_timeout_stmt guar_missed_stmt guar_read[where m = "TaskGet eng k" for eng k]
  guar_read[where m = "ScheduleGet eng k" for eng k]
  guar_read[where m = "select_candidates eng" for eng]
  guar_read[where m = "select_ok_schedules cr eng" for cr eng]

lemma guar_FinishP:
  "st \<noteq> StatusRunning \<Longrightarrow> st \<noteq> StatusMissed \<Longrightarrow> guar sound (FinishP eng k st msg at)"
  unfolding FinishP_def by (intro guar_actions) (auto intro!: guar_actions split: sum.split option.split)

lemma guar_publishLatestP: "guar sound (publishLatestP eng k ty)"
  unfolding publishLatestP_def by (intro guar_actions) (auto intro!: guar_actions split: sum.split)

lemma guar_StartP: "guar sound (StartP g eng now uuid raw)"
  unfolding StartP_def Let_def
  by (auto simp: started_task_def intro!: guar_actions split: sum.split)

lemma guar_HeartbeatP: "guar sound (HeartbeatP g eng now raw)"
  unfolding HeartbeatP_def by (auto intro!: guar_actions guar_publishLatestP split: sum.split)

lemma guar_SuccessP: "guar sound (SuccessP g eng now raw)"
  unfolding SuccessP_def by (auto intro!: guar_bind guar_FinishP guar_publishLatestP split: sum.split)

lemma guar_FailedP: "guar sound (FailedP g eng now raw)"
  unfolding FailedP_def by (auto intro!: guar_bind guar_FinishP guar_publishLatestP split: sum.split)

lemma guar_sweep_loopP: "guar sound (sweep_loopP eng now acc cs)"
proof (induction cs arbitrary: acc)
  case Nil
  then show ?case by auto
next
  case (Cons c cs)
  then show ?case
    by (auto intro!: guar_actions split: sum.split)
qed

lemma guar_detect_loopP: "guar sound (detect_loopP eng now acc cs)"
proof (induction cs arbitrary: acc)
  case Nil
  then show ?case by auto
next
  case (Cons c cs)
  then show ?case
    by (auto intro!: guar_actions split: sum.split)
qed

lemma guar_SweepP: "guar sound (SweepP eng now)"
  unfolding SweepP_def
  by (auto intro!: guar_actions guar_sweep_loopP split: sum.split option.split)

lemma guar_CheckP: "guar sound (CheckP cr eng now)"
  unfolding CheckP_def
  by (auto intro!: guar_actions guar_detect_loopP split: sum.split option.split)

lemma guar_ServeP: "guar sound (ServeP st m q)"
proof -
  have "guar sound (act (run_endpoint st m e param q))" for e param
    by (rule guar_act) (simp add: sound_def world_ok_run_endpoint evolves_run_endpoint)
  then have "guar sound (EndpointP st m e param q)" for e param
    by (cases e) (simp_all add: EndpointP_def guar_StartP guar_HeartbeatP guar_SuccessP guar_FailedP)
  then show ?thesis
    by (auto simp: ServeP_def split: option.split)
qed

section \<open>Every program ends\<close>

text \<open>
  \<open>ends_in Q n p\<close>: however the others change the world between the actions of \<open>p\<close>, as long as
  \<open>Q\<close> holds of it, \<open>p\<close> returns after at most \<open>n\<close> actions.
\<close>

fun ends_in :: "(world \<Rightarrow> bool) \<Rightarrow> nat \<Rightarrow> 'a prog \<Rightarrow> bool" where
  "ends_in Q n (Ret x) = True"
| "ends_in Q 0 (Act g) = False"
| "ends_in Q (Suc n) (Act g) = (\<forall>w. Q w \<longrightarrow> ends_in Q n (fst (g w)))"

lemma ends_in_mono: "ends_in Q m p \<Longrightarrow> m \<le> n \<Longrightarrow> ends_in Q n p"
proof (induction Q m p arbitrary: n rule: ends_in.induct)
  case (3 Q m g)
  then show ?case by (cases n) auto
qed simp_all

lemma ends_in_bind:
  "ends_in Q m p \<Longrightarrow> (\<And>x. ends_in Q n (f x)) \<Longrightarrow> ends_in Q (m + n) (bind p f)"
proof (induction Q m p rule: ends_in.induct)
  case (1 Q m x)
  then show ?case by (simp add: ends_in_mono[of Q n])
qed simp_all

lemma ends_in_act [simp]: "ends_in Q (Suc n) (act m)"
  by (simp add: act_def)

lemma ends_in_act_bind [simp]:
  "ends_in Q (Suc n) (bind (act m) f) \<longleftrightarrow> (\<forall>w. Q w \<longrightarrow> ends_in Q n (f (fst (m w))))"
  by (simp add: act_def)

lemma bind_bind: "bind (bind p f) g = bind p (\<lambda>x. bind (f x) g)"
  by (induction p rule: prog_induct) (simp_all add: fun_eq_iff map_prod_def split_beta)

lemma ends_in_announce_all: "ends_in Q (length ts) (announce_all ty ts)"
  by (induction ts) (simp_all add: announce_def)

lemma ends_in_publishLatestP: "ends_in Q (Suc (Suc n)) (publishLatestP eng k ty)"
  unfolding publishLatestP_def by (simp add: announce_def split: sum.split)

lemma ends_in_ServeP: "ends_in Q 4 (ServeP st m q)"
proof -
  have four: "4 = Suc (Suc (Suc (Suc 0)))"
    by simp
  have "ends_in Q 4 (StartP g eng now uuid raw)" for g eng now uuid raw
    unfolding StartP_def Let_def four announce_def by (simp split: sum.split)
  moreover have "ends_in Q 4 (HeartbeatP g eng now raw)" for g eng now raw
    unfolding HeartbeatP_def publishLatestP_def announce_def four
    by (simp add: bind_bind split: sum.split)
  moreover have "ends_in Q 4 (SuccessP g eng now raw)" for g eng now raw
    unfolding SuccessP_def FinishP_def publishLatestP_def announce_def four
    by (simp add: bind_bind split: sum.split option.split)
  moreover have "ends_in Q 4 (FailedP g eng now raw)" for g eng now raw
    unfolding FailedP_def FinishP_def publishLatestP_def announce_def four
    by (simp add: bind_bind split: sum.split option.split)
  moreover have "ends_in Q 4 (act (run_endpoint st m e param q))" for e param
    unfolding four by simp
  ultimately have "ends_in Q 4 (EndpointP st m e param q)" for e param
    by (cases e) (simp_all add: EndpointP_def)
  then show ?thesis
    by (auto simp: ServeP_def split: option.split)
qed

text \<open>
  The loops of the scans: three actions for each candidate, counting its announcement, when the
  continuation takes one for each result.
\<close>

lemma three_more: "3 * length (c # cs) + n = Suc (Suc (Suc (3 * length cs + n)))"
  by simp

lemma ends_in_sweep_loopP:
  assumes after: "\<And>ts e. ends_in Q (length ts) (f (ts, e))"
  shows "ends_in Q (3 * length cs + length acc) (bind (sweep_loopP eng now acc cs) f)"
proof (induction cs arbitrary: acc)
  case Nil
  then show ?case by (simp add: after)
next
  case (Cons c cs)
  have "ends_in Q (3 * length cs + length acc + n) (bind (sweep_loopP eng now acc cs) f)" for n
    by (rule ends_in_mono[OF Cons.IH]) simp
  from this[of 1] this[of 2] this[of 3] show ?case
    using Cons.IH[of "acc @ [t]" for t] ends_in_mono[OF after[of acc]] unfolding three_more
    by (simp add: bind_bind numeral_eq_Suc split: sum.split)
qed

lemma ends_in_detect_loopP:
  assumes after: "\<And>ts e. ends_in Q (length ts) (f (ts, e))"
  shows "ends_in Q (3 * length cs + length acc) (bind (detect_loopP eng now acc cs) f)"
proof (induction cs arbitrary: acc)
  case Nil
  then show ?case by (simp add: after)
next
  case (Cons c cs)
  have "ends_in Q (3 * length cs + length acc + n) (bind (detect_loopP eng now acc cs) f)" for n
    by (rule ends_in_mono[OF Cons.IH]) simp
  from this[of 1] this[of 2] this[of 3] show ?case
    using Cons.IH[of "acc @ [t]" for t] ends_in_mono[OF after[of acc]] unfolding three_more
    by (simp add: bind_bind numeral_eq_Suc split: sum.split)
qed

lemma scan_length:
  assumes "engine_ok eng"
  shows "length (scan_runs eng k rows) = length rows" "length (scan_schedules eng k srows) = length srows"
  using assms by (metis engine_ok_def size_mset)+

lemma few_candidates:
  assumes "engine_ok eng" and "fst (select_candidates eng d) = Inr cs"
  shows "length cs \<le> length (task_runs d)"
  using assms(2) length_filter_le[of has_ttl "scan_runs eng (Suc (stmts d)) (task_runs d)"]
  by (auto simp: select_candidates_def Query_def Let_def scan_length[OF assms(1)] split: option.splits)

lemma few_sched_candidates:
  assumes "engine_ok eng" and "fst (select_ok_schedules cr eng d) = Inr cs"
  shows "length cs \<le> length (task_schedules d)"
proof -
  let ?rows = "scan_schedules eng (Suc (stmts d)) (task_schedules d)"
  have "length (List.map_filter g xs) \<le> length xs" for g :: "sched_row \<Rightarrow> sched_candidate option" and xs
    by (induction xs) (auto simp: map_filter_simps split: option.split)
  from this[of "scan_sched_candidate cr" "filter (\<lambda>r. s_status r = ScheduleStatusOK) ?rows"] show ?thesis
    using assms(2) length_filter_le[of "\<lambda>r. s_status r = ScheduleStatusOK" ?rows]
    by (auto simp: select_ok_schedules_def Query_def Let_def scan_length[OF assms(1)] split: option.splits)
qed

lemma ends_in_SweepP:
  assumes "engine_ok eng"
  shows "ends_in (\<lambda>w. length (task_runs (w_db w)) \<le> n) (Suc (3 * n)) (SweepP eng now)"
proof -
  have "ends_in Q (3 * n) (bind (sweep_loopP eng now [] cs)
      (\<lambda>(tasks, err). case err of Some e \<Rightarrow> Ret () | None \<Rightarrow> announce_all EventTimeout tasks))"
    if "length cs \<le> n" for Q cs
    by (rule ends_in_mono[OF ends_in_sweep_loopP[where acc = "[]"]])
       (use that in \<open>simp_all add: ends_in_announce_all split: option.split\<close>)
  then show ?thesis
    using few_candidates[OF assms] by (force simp: SweepP_def split: sum.split)
qed

lemma ends_in_CheckP:
  assumes "engine_ok eng"
  shows "ends_in (\<lambda>w. length (task_schedules (w_db w)) \<le> n) (Suc (3 * n)) (CheckP cr eng now)"
proof -
  have "ends_in Q (3 * n) (bind (detect_loopP eng now [] cs)
      (\<lambda>(missed, err). case err of Some e \<Rightarrow> Ret () | None \<Rightarrow> announce_all EventScheduleMissed (map f missed)))"
    if "length cs \<le> n" for Q cs and f :: "Schedule \<Rightarrow> TaskRun"
    by (rule ends_in_mono[OF ends_in_detect_loopP[where acc = "[]"]])
       (use that ends_in_announce_all[of Q "map f ts" for ts] in \<open>simp_all split: option.split\<close>)
  then show ?thesis
    using few_sched_candidates[OF assms] by (force simp: CheckP_def split: sum.split)
qed

section \<open>A sweep never overwrites a finished run\<close>

definition keeps_finished :: "world \<Rightarrow> world \<Rightarrow> bool" where
  "keeps_finished w w' \<longleftrightarrow>
     (\<forall>k r. at_key r_run_id k (task_runs (w_db w)) = Some r \<and> r_status r \<noteq> StatusRunning \<longrightarrow>
        at_key r_run_id k (task_runs (w_db w')) = Some r)"

lemma keeps_frame: "task_runs (w_db w') = task_runs (w_db w) \<Longrightarrow> keeps_finished w w'"
  by (simp add: keeps_finished_def)

lemma keeps_timeout_stmt: "keeps_finished w (snd (run_db (Exec eng (timeout_stmt eng now c)) w))"
  unfolding timeout_stmt_def keeps_finished_def run_db_fields
  by (rule Exec_update_runs_inv[where P = "\<lambda>rows. \<forall>k r. at_key r_run_id k (task_runs (w_db w)) = Some r \<and>
        r_status r \<noteq> StatusRunning \<longrightarrow> at_key r_run_id k rows = Some r"])
     (simp_all add: tmo.at_key_upd)

lemma sweep_keeps_finished: "guar keeps_finished (SweepP eng now)"
proof -
  have loop: "guar keeps_finished (sweep_loopP eng now acc cs)" for acc cs
    by (induction cs arbitrary: acc)
       (auto intro!: guar_bind guar_act keeps_timeout_stmt keeps_frame split: sum.split)
  have announce: "guar keeps_finished (announce_all ty ts)" for ty ts
    by (induction ts) (auto simp: announce_def intro!: guar_bind guar_act keeps_frame)
  show ?thesis
    unfolding SweepP_def
    by (auto intro!: guar_bind guar_act keeps_frame loop announce split: sum.split option.split)
qed

end
