(* ===== verification/Config.thy ===== *)
theory Config
  imports GoLang
begin

text \<open>
  \<open>internal/config/config.go\<close>: the configuration read from the environment. \<open>env\<close> is
  \<open>os.Getenv\<close>, which gives the empty string for an unset variable. Go's \<open>int\<close> is \<open>int64\<close> on a
  64-bit target; \<open>getEnvSeconds\<close> returns a bare number as a \<open>time.Duration\<close>, and \<open>Load\<close>
  multiplies it by \<open>time.Second\<close>.
\<close>

record Config =
  Port :: string
  DBPath :: string
  DBDriver :: string
  DBDSN :: string
  TTLSweepInterval :: duration
  AlertWebhookURL :: string
  AlertWebhookFormat :: string
  AlertRateLimitPerMinute :: int64
  APIKey :: string
  RetentionDays :: int64
  RetentionSweepInterval :: duration
  MissedRunCheckInterval :: duration

definition getEnv :: "(string \<Rightarrow> string) \<Rightarrow> string \<Rightarrow> string \<Rightarrow> string" where
  "getEnv env key fallback = (if env key \<noteq> '''' then env key else fallback)"

definition getEnvInt :: "(string \<Rightarrow> string) \<Rightarrow> string \<Rightarrow> int64 \<Rightarrow> int64" where
  "getEnvInt env key fallback =
     (if env key \<noteq> ''''
      then (case Atoi (env key) of Some n \<Rightarrow> word_of_int n | None \<Rightarrow> fallback)
      else fallback)"

definition getEnvSeconds :: "(string \<Rightarrow> string) \<Rightarrow> string \<Rightarrow> int64 \<Rightarrow> duration" where
  "getEnvSeconds env key fallback = getEnvInt env key fallback"

definition Load :: "(string \<Rightarrow> string) \<Rightarrow> Config" where
  "Load env =
     \<lparr>Port = getEnv env ''CHRONOS_PORT'' ''8080'',
      DBPath = getEnv env ''CHRONOS_DB_PATH'' ''data/chronos.db'',
      DBDriver = getEnv env ''CHRONOS_DB_DRIVER'' ''sqlite'',
      DBDSN = getEnv env ''CHRONOS_DB_DSN'' '''',
      TTLSweepInterval = getEnvSeconds env ''CHRONOS_TTL_SWEEP_INTERVAL_SECONDS'' 30 * Second,
      AlertWebhookURL = getEnv env ''CHRONOS_ALERT_WEBHOOK_URL'' '''',
      AlertWebhookFormat = getEnv env ''CHRONOS_ALERT_WEBHOOK_FORMAT'' ''slack'',
      AlertRateLimitPerMinute = getEnvInt env ''CHRONOS_ALERT_RATE_LIMIT_PER_MINUTE'' 10,
      APIKey = getEnv env ''CHRONOS_API_KEY'' '''',
      RetentionDays = getEnvInt env ''CHRONOS_RETENTION_DAYS'' 0,
      RetentionSweepInterval = getEnvSeconds env ''CHRONOS_RETENTION_SWEEP_INTERVAL_SECONDS'' 3600 * Second,
      MissedRunCheckInterval = getEnvSeconds env ''CHRONOS_MISSED_RUN_CHECK_INTERVAL_SECONDS'' 60 * Second\<rparr>"

section \<open>What a variable yields\<close>

lemma getEnv_unset [simp]: "env key = '''' \<Longrightarrow> getEnv env key fallback = fallback"
  by (simp add: getEnv_def)

lemma getEnvInt_unset [simp]: "env key = '''' \<Longrightarrow> getEnvInt env key fallback = fallback"
  by (simp add: getEnvInt_def)

lemma Itoa_nonempty [simp]: "Itoa n \<noteq> []"
  by (auto simp: Itoa_def)

lemma getEnvInt_decimal: "in_int64 n \<Longrightarrow> env key = Itoa n \<Longrightarrow> getEnvInt env key fallback = word_of_int n"
  by (simp add: getEnvInt_def Atoi_Itoa)

lemma getEnvInt_malformed: "Atoi (env key) = None \<Longrightarrow> getEnvInt env key fallback = fallback"
  by (simp add: getEnvInt_def)

end
