(* ===== verification/DbOpen.thy ===== *)
theory DbOpen
  imports Config Database
begin

text \<open>
  \<open>internal/db/db.go\<close>, opening the database: the choice of the backend and the steps of each, every
  error of which ends the opening. The file system and \<open>database/sql\<close> are the parameter
  \<open>system\<close>, which says for each call whether it fails and how; \<open>filepath.Dir\<close> is modelled (the
  Unix rules).
\<close>

section \<open>filepath.Dir\<close>

fun path_parts :: "string \<Rightarrow> string list" where
  "path_parts [] = [[]]"
| "path_parts (c # cs) =
     (if c = CHR ''/'' then [] # path_parts cs
      else (case path_parts cs of [] \<Rightarrow> [[c]] | p # ps \<Rightarrow> (c # p) # ps))"

fun join_parts :: "string list \<Rightarrow> string" where
  "join_parts [] = []"
| "join_parts [p] = p"
| "join_parts (p # ps) = p @ ''/'' @ join_parts ps"

definition clean_step :: "bool \<Rightarrow> string \<Rightarrow> string list \<Rightarrow> string list" where
  "clean_step rooted p acc =
     (if p = '''' \<or> p = ''.'' then acc
      else if p = ''..'' then
        (case acc of
           [] \<Rightarrow> if rooted then [] else [p]
         | q # qs \<Rightarrow> if q = ''..'' then p # acc else qs)
      else p # acc)"

definition CleanPath :: "string \<Rightarrow> string" where
  "CleanPath path =
     (let rooted = (take 1 path = ''/'');
          parts = rev (fold (clean_step rooted) (path_parts path) [])
      in if rooted then ''/'' @ join_parts parts
         else if parts = [] then ''.'' else join_parts parts)"

definition Dir :: "string \<Rightarrow> string" where
  "Dir path = CleanPath (rev (dropWhile (\<lambda>c. c \<noteq> CHR ''/'') (rev path)))"

lemma Dir_examples:
  "Dir ''data/chronos.db'' = ''data''" "Dir ''chronos.db'' = ''.''" "Dir ''/var/./lib/../x.db'' = ''/var''"
  "Dir '''' = ''.''" "Dir ''/x.db'' = ''/''" "Dir ''../../a/x.db'' = ''../../a''"
  by code_simp+

section \<open>Opening\<close>

record system =
  MkdirAll :: "string \<Rightarrow> string option"
  sqlOpen :: "string \<Rightarrow> string \<Rightarrow> string option"
  sqlPing :: "string option"
  execSchema :: "string option"

datatype open_error =
    CreateDir string
  | OpenSQLiteErr string
  | OpenPostgresErr string
  | PingErr string
  | MigrateErr string
  | DSNRequired
  | UnsupportedDriver string

definition openSQLite :: "system \<Rightarrow> string \<Rightarrow> open_error + Conn" where
  "openSQLite sys path =
     (case (if Dir path \<noteq> ''.'' then MkdirAll sys (Dir path) else None) of
        Some err \<Rightarrow> Inl (CreateDir err)
      | None \<Rightarrow>
          (case sqlOpen sys ''sqlite'' path of
             Some err \<Rightarrow> Inl (OpenSQLiteErr err)
           | None \<Rightarrow>
               (case execSchema sys of
                  Some err \<Rightarrow> Inl (MigrateErr err)
                | None \<Rightarrow> Inr \<lparr>driver = ''sqlite'', max_open = 1\<rparr>)))"

definition openPostgres :: "system \<Rightarrow> string \<Rightarrow> open_error + Conn" where
  "openPostgres sys dsn =
     (if dsn = '''' then Inl DSNRequired
      else (case sqlOpen sys ''pgx'' dsn of
              Some err \<Rightarrow> Inl (OpenPostgresErr err)
            | None \<Rightarrow>
                (case sqlPing sys of
                   Some err \<Rightarrow> Inl (PingErr err)
                 | None \<Rightarrow>
                     (case execSchema sys of
                        Some err \<Rightarrow> Inl (MigrateErr err)
                      | None \<Rightarrow> Inr \<lparr>driver = ''postgres'', max_open = 10\<rparr>))))"

definition OpenDB :: "system \<Rightarrow> Config \<Rightarrow> open_error + Conn" where
  "OpenDB sys cfg =
     (if DBDriver cfg = '''' \<or> DBDriver cfg = ''sqlite'' then openSQLite sys (DBPath cfg)
      else if DBDriver cfg = ''postgres'' then openPostgres sys (DBDSN cfg)
      else Inl (UnsupportedDriver (DBDriver cfg)))"

lemma OpenDB_driver:
  assumes "OpenDB sys cfg = Inr c"
  shows "if DBDriver cfg = ''postgres'' then c = \<lparr>driver = ''postgres'', max_open = 10\<rparr>
         else c = \<lparr>driver = ''sqlite'', max_open = 1\<rparr>"
  using assms
  by (auto simp: OpenDB_def openSQLite_def openPostgres_def split: option.splits if_splits)

definition healthy_system :: system where
  "healthy_system = \<lparr>MkdirAll = (\<lambda>_. None), sqlOpen = (\<lambda>_ _. None), sqlPing = None, execSchema = None\<rparr>"

section \<open>Properties\<close>

text \<open>
  The placeholders of a query, as each backend receives them through an opened connection:
  SQLite gets the text as written; PostgreSQL gets, for an ASCII query, the same text with the
  placeholders numbered \<open>$1\<close>, \<open>$2\<close>, \<dots> in their order, one for each.
\<close>

lemma rebind_spec:
  assumes "OpenDB sys cfg = Inr c"
  shows "(DBDriver cfg \<noteq> ''postgres'' \<longrightarrow> rebind c query = query) \<and>
    (DBDriver cfg = ''postgres'' \<and> is_ascii query \<longrightarrow>
       rebind c query = join_numbered 0 (split_marks query) \<and>
       length (split_marks query) = Suc (count_list query (CHR ''?'')))"
  using OpenDB_driver[OF assms]
  by (auto simp: rebind_def length_split_marks range_string_ascii rebind_loop_split split_marks_id)

end
