(* ===== verification/Server.thy ===== *)
theory Server
  imports RunHistory DbOpen
begin

text \<open>
  \<open>cmd/server/main.go\<close>: how the parts are put together, and the running server as a step
  relation. \<open>Main\<close> is the start-up; a step of the running server is one request, one tick of a
  worker, one turn of the dispatcher's loop or one turn of an open stream. The steps of different
  goroutines interleave in any order; each is atomic here.
\<close>

section \<open>Start-up\<close>

record workers =
  wk_sweeper :: Sweeper
  wk_detector :: Detector
  wk_dispatcher :: "(WebhookNotifier \<times> Dispatcher) option"
  wk_cleaner :: "Cleaner option"

datatype startup = Fatal open_error | Serving Config Conn workers

definition start_workers :: "Config \<Rightarrow> workers" where
  "start_workers cfg =
     \<lparr>wk_sweeper = \<lparr>sweeper_interval = TTLSweepInterval cfg\<rparr>,
      wk_detector = \<lparr>detector_interval = MissedRunCheckInterval cfg\<rparr>,
      wk_dispatcher =
        (if AlertWebhookURL cfg \<noteq> ''''
         then Some (\<lparr>hook_url = AlertWebhookURL cfg, hook_format = AlertWebhookFormat cfg\<rparr>,
                    NewDispatcher (AlertRateLimitPerMinute cfg) Minute)
         else None),
      wk_cleaner =
        (if 0 < sint (RetentionDays cfg)
         then Some (NewCleaner (RetentionDays cfg) (RetentionSweepInterval cfg))
         else None)\<rparr>"

definition Main :: "system \<Rightarrow> (string \<Rightarrow> string) \<Rightarrow> startup" where
  "Main sys env =
     (let cfg = Load env in
      case OpenDB sys cfg of
        Inl err \<Rightarrow> Fatal err
      | Inr conn \<Rightarrow> Serving cfg conn (start_workers cfg))"

section \<open>The running server\<close>

datatype dispatcher_state =
    NotStarted
  | Listening nat Dispatcher
  | Stopped Dispatcher

record server =
  s_world :: world
  s_dispatcher :: dispatcher_state
  s_streams :: "(nat \<times> frame list) list"

definition new_server :: "db \<Rightarrow> server" where
  "new_server d = \<lparr>s_world = \<lparr>w_db = d, w_hub = NewHub\<rparr>, s_dispatcher = NotStarted, s_streams = []\<rparr>"

definition opened :: "response \<Rightarrow> (nat \<times> frame list) list" where
  "opened r = (case payload r of EventStream ch headers \<Rightarrow> [(ch, [])] | _ \<Rightarrow> [])"

definition with_hub :: "Hub \<Rightarrow> world \<Rightarrow> world" where
  "with_hub h w = w\<lparr>w_hub := h\<rparr>"

definition after_turn :: "bool \<Rightarrow> nat \<Rightarrow> Dispatcher \<Rightarrow> dispatcher_state" where
  "after_turn finished ch d = (if finished then Stopped d else Listening ch d)"

inductive server_step :: "site \<Rightarrow> workers \<Rightarrow> server \<Rightarrow> server \<Rightarrow> bool" for st wk where
  request:
    "ServeHTTP st m q (s_world s) = (r, w1) \<Longrightarrow>
     server_step st wk s (s\<lparr>s_world := w1, s_streams := s_streams s @ opened r\<rparr>)"
| sweep:
    "server_step st wk s (s\<lparr>s_world := sweepOnce eng now (s_world s)\<rparr>)"
| detect:
    "server_step st wk s (s\<lparr>s_world := checkOnce (site_cron st) eng now (s_world s)\<rparr>)"
| clean:
    "wk_cleaner wk = Some c \<Longrightarrow>
     server_step st wk s (s\<lparr>s_world := cleanOnce eng c now (s_world s)\<rparr>)"
| dispatcher_starts:
    "wk_dispatcher wk = Some (n, d) \<Longrightarrow> s_dispatcher s = NotStarted \<Longrightarrow>
     Subscribe (w_hub (s_world s)) = (ch, h1) \<Longrightarrow>
     server_step st wk s (s\<lparr>s_world := with_hub h1 (s_world s), s_dispatcher := Listening ch d\<rparr>)"
| dispatcher_turn:
    "s_dispatcher s = Listening ch d \<Longrightarrow>
     consume_select handle ch sig (d, w_hub (s_world s)) = (finished, d1, h1) \<Longrightarrow>
     server_step st wk s
       (s\<lparr>s_world := with_hub h1 (s_world s), s_dispatcher := after_turn finished ch d1\<rparr>)"
| stream_turn:
    "s_streams s = before @ (ch, frames) # rest \<Longrightarrow>
     consume_select send_frame ch tick (frames, w_hub (s_world s)) = (finished, frames1, h1) \<Longrightarrow>
     server_step st wk s
       (s\<lparr>s_world := with_hub h1 (s_world s),
          s_streams := before @ (if finished then [] else [(ch, frames1)]) @ rest\<rparr>)"

inductive_cases server_stepE: "server_step st wk s t"

section \<open>The invariant\<close>

text \<open>Every subscription belongs to a loop that still runs, and each loop has its own.\<close>

definition listeners :: "server \<Rightarrow> nat list" where
  "listeners s =
     (case s_dispatcher s of Listening ch d \<Rightarrow> [ch] | _ \<Rightarrow> []) @ map fst (s_streams s)"

definition server_ok :: "server \<Rightarrow> bool" where
  "server_ok s \<longleftrightarrow> world_ok (s_world s) \<and> mset (subs (w_hub (s_world s))) = mset (listeners s)"

lemma listener_subscribed:
  "server_ok s \<Longrightarrow> ch \<in> set (listeners s) \<Longrightarrow> ch \<in> set (subs (w_hub (s_world s)))"
  unfolding server_ok_def by (metis set_mset_mset)

lemma with_hub_fields [simp]: "w_db (with_hub h w) = w_db w" "w_hub (with_hub h w) = h"
  by (simp_all add: with_hub_def)

lemma world_ok_with_hub: "world_ok w \<Longrightarrow> hub_ok h \<Longrightarrow> world_ok (with_hub h w)"
  by (simp add: world_ok_def)

lemma opened_reply [simp]:
  "opened (reply n b) = (case b of EventStream ch headers \<Rightarrow> [(ch, [])] | _ \<Rightarrow> [])"
  by (simp add: opened_def)

lemma handler_opened [simp]:
  "opened (fst (HandleStart g eng now uuid raw w)) = []"
  "opened (fst (HandleHeartbeat g eng now raw w)) = []"
  "opened (fst (HandleSuccess g eng now raw w)) = []"
  "opened (fst (HandleFailed g eng now raw w)) = []"
  "opened (fst (HandleGet eng k w)) = []"
  "opened (fst (HandleList eng status w)) = []"
  "opened (fst (HandleRegister g cr eng now raw w)) = []"
  "opened (fst (HandleSchedules eng w)) = []"
  "opened (fst (HandleDelete eng n w)) = []"
  by (auto simp: handler_defs respondStoreErr_def split_beta Let_def
      split: sum.split option.split store_error.split)

lemma OpenStream_subs:
  "subs (w_hub (snd (OpenStream w))) = subs (w_hub w) @ map fst (opened (fst (OpenStream w)))"
  by (simp add: OpenStream_def Subscribe_def Let_def)

lemma ServeHTTP_subs:
  "subs (w_hub (snd (ServeHTTP st m q w))) =
     subs (w_hub w) @ map fst (opened (fst (ServeHTTP st m q w)))"
proof -
  have "subs (w_hub (snd (run_endpoint st m e param q w))) =
      subs (w_hub w) @ map fst (opened (fst (run_endpoint st m e param q w)))" for e param
    by (cases e) (simp_all add: run_endpoint_def OpenStream_subs)
  moreover have "opened (serveEmbeddedUI fs q) = []" for fs
    by (simp add: serveEmbeddedUI_def Let_def split_beta split: option.split)
  ultimately show ?thesis
    by (auto simp: ServeHTTP_def requireAPIKey_cases split: option.split)
qed

lemma mset_unsubscribe: "hub_ok h \<Longrightarrow> mset (subs (unsubscribe ch h)) = mset (subs h) - {#ch#}"
  by (auto simp: unsubscribe_def close_chan_def hub_ok_def distinct_remove1_removeAll[symmetric])

lemma receive_subs [simp]: "subs (snd (receive ch h)) = subs h"
  by (simp add: receive_def split: list.split)

text \<open>A turn of a loop that still listens, as the hub sees it.\<close>

lemma turn_subs:
  assumes "hub_ok h" and "ch \<in> set (subs h)"
    and "consume_select react ch sig (x, h) = (finished, x1, h1)"
  shows "hub_ok h1 \<and> mset (subs h1) + (if finished then {#ch#} else {#}) = mset (subs h)"
proof -
  have "hub_ok h1"
    using hub_ok_consume_select[OF assms(1), of react ch sig x] assms(3) by simp
  moreover have "mset (subs h1) + (if finished then {#ch#} else {#}) = mset (subs h)"
  proof (cases rule: consume_select_cases[of react ch sig x h])
    case ended
    then show ?thesis
      using assms mset_unsubscribe[OF assms(1)] by (auto simp: insert_DiffM2)
  next
    case (event now evt h1')
    then show ?thesis
      using assms(3) receive_subs[of ch h] by auto
  next
    case idle
    then show ?thesis
      using assms(3) by auto
  qed
  ultimately show ?thesis by blast
qed

lemma server_ok_new: "runs_ok (task_runs d) \<Longrightarrow> scheds_ok (task_schedules d) \<Longrightarrow> server_ok (new_server d)"
  by (simp add: server_ok_def new_server_def world_ok_def listeners_def)

lemma server_ok_step:
  assumes ok: "server_ok s" and step: "server_step st wk s t"
  shows "server_ok t"
proof -
  have w: "world_ok (s_world s)" and hub: "hub_ok (w_hub (s_world s))"
    and own: "mset (subs (w_hub (s_world s))) = mset (listeners s)"
    using ok by (simp_all add: server_ok_def world_ok_def)
  from step show ?thesis
  proof cases
    case (request m q r w1)
    then show ?thesis
      using w own world_ok_ServeHTTP[OF w, of st m q] ServeHTTP_subs[of st m q "s_world s"]
      by (simp add: server_ok_def listeners_def)
  next
    case (sweep eng now)
    then show ?thesis
      using own world_ok_sweepOnce[OF w] by (simp add: server_ok_def listeners_def)
  next
    case (detect eng now)
    then show ?thesis
      using own world_ok_checkOnce[OF w] by (simp add: server_ok_def listeners_def)
  next
    case (clean c eng now)
    then show ?thesis
      using own world_ok_cleanOnce[OF w] by (simp add: server_ok_def listeners_def)
  next
    case (dispatcher_starts n d ch h1)
    then show ?thesis
      using own w hub_ok_Subscribe[OF hub]
      by (auto simp: server_ok_def listeners_def Subscribe_def Let_def intro: world_ok_with_hub)
  next
    case (dispatcher_turn ch d sig finished d1 h1)
    have "ch \<in> set (subs (w_hub (s_world s)))"
      using dispatcher_turn(2) by (intro listener_subscribed[OF ok]) (simp add: listeners_def)
    from turn_subs[OF hub this dispatcher_turn(3)] show ?thesis
      using own w dispatcher_turn(1,2)
      by (auto simp: server_ok_def listeners_def after_turn_def intro: world_ok_with_hub split: if_splits)
  next
    case (stream_turn before ch frames rest sig finished frames1 h1)
    have "ch \<in> set (subs (w_hub (s_world s)))"
      using stream_turn(2) by (intro listener_subscribed[OF ok]) (simp add: listeners_def)
    from turn_subs[OF hub this stream_turn(3)] show ?thesis
      using own w stream_turn(1,2)
      by (auto simp: server_ok_def listeners_def intro: world_ok_with_hub split: if_splits)
  qed
qed

interpretation server: invariant_system
  "\<lambda>s. \<exists>d. runs_ok (task_runs d) \<and> scheds_ok (task_schedules d) \<and> s = new_server d" "server_step st wk" server_ok
  for st wk
  by unfold_locales (auto intro: server_ok_new server_ok_step)

text \<open>For the witnesses: workers with a dispatcher and no retention job.\<close>

definition sample_workers :: workers where
  "sample_workers =
     start_workers ((Load (\<lambda>_. []))\<lparr>AlertWebhookURL := ''http://hook'', AlertRateLimitPerMinute := 0\<rparr>)"

lemma sample_dispatcher:
  "\<exists>n. wk_dispatcher sample_workers = Some (n, NewDispatcher 0 Minute)" "wk_cleaner sample_workers = None"
  by (simp_all add: sample_workers_def start_workers_def Load_def)

lemma sample_subs [simp]: "subs (w_hub sample_world) = [0]"
  by (simp add: sample_world_def Subscribe_def Let_def NewHub_def)

end
