(* ===== verification/Concurrency.thy ===== *)
theory Concurrency
  imports Statements Server
begin

text \<open>
  The server with its goroutines interleaved statement by statement. A machine is the shared world,
  the programs in flight and the responses given so far; a step starts a request or a tick, runs
  one action of one program, ends a program, or lets a subscriber use the hub. A tick may start
  while another is in flight: this allows more than the loops of the workers do.
\<close>

record machine =
  mc_world :: world
  mc_threads :: "response option prog list"
  mc_answers :: "response list"

definition answering :: "response prog \<Rightarrow> response option prog" where
  "answering p = bind p (\<lambda>r. Ret (Some r))"

definition silent :: "unit prog \<Rightarrow> response option prog" where
  "silent p = bind p (\<lambda>_. Ret None)"

inductive conc_step :: "site \<Rightarrow> workers \<Rightarrow> machine \<Rightarrow> machine \<Rightarrow> bool" for st wk where
  accept: "conc_step st wk s (s\<lparr>mc_threads := mc_threads s @ [answering (ServeP st m q)]\<rparr>)"
| tick_sweep: "conc_step st wk s (s\<lparr>mc_threads := mc_threads s @ [silent (SweepP eng now)]\<rparr>)"
| tick_check: "conc_step st wk s (s\<lparr>mc_threads := mc_threads s @ [silent (CheckP (site_cron st) eng now)]\<rparr>)"
| tick_clean: "wk_cleaner wk = Some c \<Longrightarrow> conc_step st wk s (s\<lparr>mc_world := cleanOnce eng c now (mc_world s)\<rparr>)"
| statement:
    "mc_threads s = before @ Act g # rest \<Longrightarrow> g (mc_world s) = (p, w1) \<Longrightarrow>
     conc_step st wk s (s\<lparr>mc_world := w1, mc_threads := before @ p # rest\<rparr>)"
| finish:
    "mc_threads s = before @ Ret r # rest \<Longrightarrow>
     conc_step st wk s
       (s\<lparr>mc_threads := before @ rest,
          mc_answers := mc_answers s @ (case r of None \<Rightarrow> [] | Some resp \<Rightarrow> [resp])\<rparr>)"
| subscriber:
    "hub_step (w_hub (mc_world s)) h1 \<Longrightarrow>
     conc_step st wk s (s\<lparr>mc_world := with_hub h1 (mc_world s)\<rparr>)"

definition machine_ok :: "machine \<Rightarrow> bool" where
  "machine_ok s \<longleftrightarrow> world_ok (mc_world s) \<and> (\<forall>p\<in>set (mc_threads s). guar sound p)"

text \<open>What the action of a thread does.\<close>

lemma thread_action:
  assumes "machine_ok s" and "mc_threads s = before @ Act g # rest" and "g (mc_world s) = (p, w1)"
  shows "sound (mc_world s) w1" and "guar sound p"
    and "\<And>q. q \<in> set before \<union> set rest \<Longrightarrow> guar sound q"
proof -
  have "guar sound (Act g)"
    using assms(1,2) by (simp add: machine_ok_def)
  then have "sound (mc_world s) (snd (g (mc_world s)))" and "guar sound (fst (g (mc_world s)))"
    by (simp_all add: guar_Act_iff)
  then show "sound (mc_world s) w1" and "guar sound p"
    by (simp_all add: assms(3))
qed (use assms(1,2) in \<open>auto simp: machine_ok_def\<close>)

lemma guar_answering: "guar sound (answering (ServeP st m q))"
  unfolding answering_def by (intro guar_bind guar_ServeP) auto

lemma guar_silent: "guar sound p \<Longrightarrow> guar sound (silent p)"
  unfolding silent_def by (rule guar_bind) auto

lemma machine_ok_step:
  assumes ok: "machine_ok s" and "conc_step st wk s t"
  shows "machine_ok t"
  using assms(2)
proof cases
  case (statement before g rest p w1)
  then show ?thesis
    using thread_action[OF ok statement(2,3)] ok by (auto simp: machine_ok_def sound_def)
next
  case (subscriber h1)
  have "hub_ok h1"
    using hubs.inv_step[OF _ subscriber(2)] ok by (simp add: machine_ok_def world_okD)
  then show ?thesis
    using subscriber(1) ok by (simp add: machine_ok_def world_ok_with_hub)
qed (use ok in \<open>auto simp: machine_ok_def guar_answering guar_silent guar_SweepP guar_CheckP world_ok_cleanOnce\<close>)

interpretation machine: invariant_system
  "\<lambda>s. world_ok (mc_world s) \<and> mc_threads s = []" "conc_step st wk" machine_ok for st wk
proof unfold_locales
  fix s t
  assume "machine_ok s" and "conc_step st wk s t"
  then show "machine_ok t" by (rule machine_ok_step)
qed (simp add: machine_ok_def)

text \<open>A step as the table of runs sees it: only the retention job removes rows.\<close>

lemma conc_step_evolves:
  assumes ok: "machine_ok s" and "conc_step st wk s t"
  shows "evolves (wk_cleaner wk \<noteq> None) (task_runs (w_db (mc_world s))) (task_runs (w_db (mc_world t)))"
  using assms(2)
proof cases
  case (statement before g rest p w1)
  then show ?thesis
    using thread_action(1)[OF ok statement(2,3)] ok
    by (auto simp: machine_ok_def sound_def intro: evolves_weaken)
qed (use ok in \<open>simp_all add: machine_ok_def evolves_cleanOnce\<close>)

lemma conc_steps_evolve:
  assumes "(conc_step st wk)\<^sup>*\<^sup>* s t" and "machine_ok s" and "wk_cleaner wk = None"
  shows "evolves False (task_runs (w_db (mc_world s))) (task_runs (w_db (mc_world t)))"
  using assms(1)
proof (induction rule: rtranclp_induct)
  case base
  then show ?case by simp
next
  case (step t u)
  have "machine_ok t"
    using machine.inv_steps[OF step.hyps(1) assms(2)] .
  from conc_step_evolves[OF this step.hyps(2)] show ?case
    using step.IH assms(3) by (auto intro: evolves_trans)
qed

section \<open>The atomic server is one of the interleavings\<close>

text \<open>A thread that the scheduler runs to its end without interruption.\<close>

lemma runs_alone:
  "run p w = (r, w1) \<Longrightarrow>
   (conc_step st wk)\<^sup>*\<^sup>* \<lparr>mc_world = w, mc_threads = before @ p # rest, mc_answers = out\<rparr>
     \<lparr>mc_world = w1, mc_threads = before @ rest,
      mc_answers = out @ (case r of None \<Rightarrow> [] | Some resp \<Rightarrow> [resp])\<rparr>"
proof (induction p arbitrary: w rule: prog_induct)
  case (Ret x)
  then show ?case
    using conc_step.finish[of "\<lparr>mc_world = w, mc_threads = before @ Ret x # rest, mc_answers = out\<rparr>"
        before x rest st wk]
    by (simp add: r_into_rtranclp[where r = "conc_step st wk"])
next
  case (Act g)
  obtain p w2 where g: "g w = (p, w2)"
    by fastforce
  let ?s = "\<lambda>w p. \<lparr>mc_world = w, mc_threads = before @ p # rest, mc_answers = out\<rparr>"
  have "conc_step st wk (?s w (Act g)) (?s w2 p)"
    using conc_step.statement[of "?s w (Act g)" before g rest p w2 st wk] g by simp
  moreover have "run p w2 = (r, w1) \<Longrightarrow> (conc_step st wk)\<^sup>*\<^sup>* (?s w2 p)
      \<lparr>mc_world = w1, mc_threads = before @ rest,
       mc_answers = out @ (case r of None \<Rightarrow> [] | Some resp \<Rightarrow> [resp])\<rparr>"
    using Act.IH[of w w2] g by simp
  ultimately show ?case
    using Act.prems g by (auto intro: converse_rtranclp_into_rtranclp)
qed

lemma run_answering: "run (answering p) w = (Some (fst (run p w)), snd (run p w))"
  by (simp add: answering_def run_bind split_beta)

lemma run_silent: "run (silent p) w = (None, snd (run p w))"
  by (simp add: silent_def run_bind split_beta)

text \<open>A thread that starts and then runs to its end.\<close>

lemma started_alone:
  assumes "conc_step st wk s (s\<lparr>mc_threads := mc_threads s @ [p]\<rparr>)" and "run p (mc_world s) = (r, w1)"
  shows "(conc_step st wk)\<^sup>*\<^sup>* s
    (s\<lparr>mc_world := w1, mc_answers := mc_answers s @ (case r of None \<Rightarrow> [] | Some resp \<Rightarrow> [resp])\<rparr>)"
  using assms(1) runs_alone[OF assms(2), of st wk "mc_threads s" "[]" "mc_answers s"]
  by (cases s) (simp add: converse_rtranclp_into_rtranclp)

text \<open>The machine that is in the state of a server, with threads \<open>ps\<close> waiting.\<close>

definition machine_of :: "server \<Rightarrow> response option prog list \<Rightarrow> response list \<Rightarrow> machine" where
  "machine_of s ps out = \<lparr>mc_world = s_world s, mc_threads = ps, mc_answers = out\<rparr>"


lemma atomic_step_simulated:
  assumes ok: "server_ok s" and step: "server_step st wk s t"
  shows "\<exists>out'. (conc_step st wk)\<^sup>*\<^sup>* (machine_of s ps out) (machine_of t ps out')"
proof -
  have hub: "hub_ok (w_hub (s_world s))"
    using ok by (simp add: server_ok_def world_ok_def)
  have turn: "(conc_step st wk)\<^sup>*\<^sup>* (machine_of s ps out) (machine_of t ps out)"
    if "s_world t = with_hub h1 (s_world s)"
      and "consume_select react ch sig (x, w_hub (s_world s)) = (fin, x1, h1)"
      and "ch \<in> set (subs (w_hub (s_world s)))"
    for react :: "'t \<Rightarrow> Event \<Rightarrow> 'x \<Rightarrow> 'x" and ch sig x fin x1 h1
  proof -
    let ?h = "w_hub (s_world s)"
    have "ch < next_chan ?h"
      using hub that(3) by (simp add: hub_ok_def)
    moreover have "h1 = unsubscribe ch ?h \<or> h1 = snd (receive ch ?h) \<or> h1 = ?h"
      by (rule consume_select_cases[of react ch sig x ?h]) (use that(2) in auto)
    ultimately have "h1 = ?h \<or> hub_step ?h h1"
      by (auto intro: hub_step.intros)
    then show ?thesis
      using conc_step.subscriber[of "machine_of s ps out" h1 st wk] that(1)
      by (auto simp: machine_of_def with_hub_def intro: r_into_rtranclp[where r = "conc_step st wk"])
  qed
  have into: "(conc_step st wk)\<^sup>*\<^sup>* (machine_of s ps out)
      \<lparr>mc_world = w1, mc_threads = ps, mc_answers = out @ (case r of None \<Rightarrow> [] | Some resp \<Rightarrow> [resp])\<rparr>"
    if "conc_step st wk (machine_of s ps out) (machine_of s ps out\<lparr>mc_threads := ps @ [p]\<rparr>)"
      and "run p (s_world s) = (r, w1)" for p r w1
    using started_alone[of st wk "machine_of s ps out" p r w1] that by (simp add: machine_of_def)
  from step show ?thesis
  proof cases
    case (request m q r w1)
    then show ?thesis
      using into[of "answering (ServeP st m q)"] conc_step.accept[of st wk "machine_of s ps out" m q]
      by (auto simp: run_answering run_ServeP machine_of_def)
  next
    case (sweep eng now)
    then show ?thesis
      using into[of "silent (SweepP eng now)"] conc_step.tick_sweep[of st wk "machine_of s ps out" eng now]
      by (auto simp: run_silent run_SweepP machine_of_def)
  next
    case (detect eng now)
    then show ?thesis
      using into[of "silent (CheckP (site_cron st) eng now)"]
        conc_step.tick_check[of st wk "machine_of s ps out" eng now]
      by (auto simp: run_silent run_CheckP machine_of_def)
  next
    case (clean c eng now)
    then show ?thesis
      using conc_step.tick_clean[of wk c st "machine_of s ps out" eng now]
      by (auto simp: machine_of_def intro!: r_into_rtranclp[where r = "conc_step st wk"])
  next
    case (dispatcher_starts n d ch h1)
    then have "hub_step (w_hub (s_world s)) h1"
      using hub_step.subscribe[of "w_hub (s_world s)"] by simp
    then show ?thesis
      using conc_step.subscriber[of "machine_of s ps out" h1 st wk] dispatcher_starts(1)
      by (auto simp: machine_of_def intro!: r_into_rtranclp[where r = "conc_step st wk"])
  next
    case (dispatcher_turn ch d sig finished d1 h1)
    then have "ch \<in> set (subs (w_hub (s_world s)))"
      by (intro listener_subscribed[OF ok]) (simp add: listeners_def)
    with turn[OF _ dispatcher_turn(3)] dispatcher_turn(1) show ?thesis
      by auto
  next
    case (stream_turn before ch frames rest sig finished frames1 h1)
    then have "ch \<in> set (subs (w_hub (s_world s)))"
      by (intro listener_subscribed[OF ok]) (simp add: listeners_def)
    with turn[OF _ stream_turn(3)] stream_turn(1) show ?thesis
      by auto
  qed
qed

lemma atomic_steps_simulated:
  assumes "(server_step st wk)\<^sup>*\<^sup>* s t" and "server_ok s"
  shows "\<exists>out'. (conc_step st wk)\<^sup>*\<^sup>* (machine_of s ps out) (machine_of t ps out')"
  using assms(1)
proof (induction rule: rtranclp_induct)
  case base
  then show ?case by blast
next
  case (step t u)
  then show ?case
    using atomic_step_simulated[OF server.inv_steps[OF step.hyps(1) assms(2)] step.hyps(2)]
    by (meson rtranclp_trans)
qed

section \<open>A sweep that has read its candidates\<close>

lemma act_bind: "bind (act m) f = Act (\<lambda>w. (f (fst (m w)), snd (m w)))"
  by (simp add: act_def fun_eq_iff map_prod_def split_beta)

definition after_select :: "engine \<Rightarrow> time \<Rightarrow> store_error + candidate list \<Rightarrow> unit prog" where
  "after_select eng now sel =
     (case sel of
        Inl err \<Rightarrow> Ret ()
      | Inr cs \<Rightarrow> bind (sweep_loopP eng now [] cs)
          (\<lambda>(tasks, err). case err of Some e \<Rightarrow> Ret () | None \<Rightarrow> announce_all EventTimeout tasks))"

lemma SweepP_Act:
  "silent (SweepP eng now) =
     Act (\<lambda>w. (silent (after_select eng now (fst (select_candidates eng (w_db w)))), snd (run_db (select_candidates eng) w)))"
  by (simp add: SweepP_def silent_def after_select_def[abs_def] act_bind fun_eq_iff)

text \<open>A sweep that starts in an idle server and is interrupted after its \<open>SELECT\<close>.\<close>

lemma half_sweep:
  "(conc_step st wk)\<^sup>*\<^sup>* \<lparr>mc_world = w, mc_threads = ps, mc_answers = out\<rparr>
     \<lparr>mc_world = snd (run_db (select_candidates eng) w),
      mc_threads = ps @ [silent (after_select eng now (fst (select_candidates eng (w_db w))))], mc_answers = out\<rparr>"
proof -
  let ?s = "\<lambda>w ps. \<lparr>mc_world = w, mc_threads = ps, mc_answers = out\<rparr>"
  have "conc_step st wk (?s w ps) (?s w (ps @ [silent (SweepP eng now)]))"
    using conc_step.tick_sweep[of st wk "?s w ps" eng now] by simp
  moreover have "conc_step st wk (?s w (ps @ [silent (SweepP eng now)]))
      (?s (snd (run_db (select_candidates eng) w))
        (ps @ [silent (after_select eng now (fst (select_candidates eng (w_db w))))]))"
    using conc_step.statement[of "?s w (ps @ [silent (SweepP eng now)])" ps _ "[]" _ _ st wk]
    by (simp add: SweepP_Act)
  ultimately show ?thesis
    by (meson r_into_rtranclp rtranclp_trans)
qed

section \<open>Properties\<close>






text \<open>
  C3. In every state that any interleaving of the statements of requests, sweeps and detections
  reaches, with statements failing as they may: no run id occurs twice, exactly the unfinished runs
  are running, the hub has not panicked and no subscriber holds more than 16 events.
\<close>

theorem interleaved_invariant:
  assumes "world_ok w"
    and "(conc_step st wk)\<^sup>*\<^sup>* \<lparr>mc_world = w, mc_threads = [], mc_answers = []\<rparr> s"
  shows "distinct (map r_run_id (task_runs (w_db (mc_world s)))) \<and>
    (\<forall>r\<in>set (task_runs (w_db (mc_world s))). r_finished_at r = None \<longleftrightarrow> r_status r = StatusRunning) \<and>
    \<not> panicked (w_hub (mc_world s)) \<and>
    (\<forall>ch. length (buf (chans (w_hub (mc_world s)) ch)) \<le> 16)"
proof -
  have "machine_ok s"
    using machine.inv_reachable[OF _ assms(2)] assms(1) by simp
  then show ?thesis
    by (auto simp: machine_ok_def world_ok_def runs_ok_def run_ok_def keyed_def hub_ok_def chan_size_def)
qed

theorem interleaved_invariant_witness:
  "distinct (map r_run_id (task_runs (w_db (snd (run_db (select_candidates plain_engine) sample_world)))))"
  using interleaved_invariant[OF world_ok_sample half_sweep[where ps = "[]" and out = "[]"
        and st = sample_site and wk = sample_workers and eng = plain_engine and now = 7000000000]]
  by simp

text \<open>
  C4. With the retention job off, no interleaving of requests, sweeps and detections loses a run: in
  every later state it is still stored, with the same task, source, TTL and start, and once it has
  finished it never runs again.
\<close>

theorem runs_survive:
  assumes "world_ok w" and "wk_cleaner wk = None"
    and "(conc_step st wk)\<^sup>*\<^sup>* \<lparr>mc_world = w, mc_threads = [], mc_answers = []\<rparr> s"
    and "(conc_step st wk)\<^sup>*\<^sup>* s t"
    and "at_key r_run_id k (task_runs (w_db (mc_world s))) = Some r"
  shows "\<exists>r'. at_key r_run_id k (task_runs (w_db (mc_world t))) = Some r' \<and>
    r_task_name r' = r_task_name r \<and> r_source r' = r_source r \<and> r_ttl_seconds r' = r_ttl_seconds r \<and>
    r_started_at r' = r_started_at r \<and>
    (r_status r \<noteq> StatusRunning \<longrightarrow> r_status r' \<noteq> StatusRunning)"
proof -
  have "machine_ok s"
    using machine.inv_reachable[OF _ assms(3)] assms(1) by simp
  then show ?thesis
    using conc_steps_evolve[OF assms(4) _ assms(2)] assms(5) unfolding evolves_False by (auto simp: life_def)
qed

theorem runs_survive_witness:
  "\<exists>r'. at_key r_run_id ''b'' (task_runs (w_db (snd (run_db (select_candidates plain_engine) sample_world)))) =
     Some r' \<and> r_status r' \<noteq> StatusRunning"
proof -
  have "at_key r_run_id ''b'' (task_runs (w_db sample_world)) = Some (sample_row ''b'' StatusSuccess)"
    by (simp add: sample_world_def)
  then show ?thesis
    using runs_survive[OF world_ok_sample sample_dispatcher(2) rtranclp.rtrancl_refl
        half_sweep[where ps = "[]" and out = "[]" and st = sample_site and eng = plain_engine and now = 7000000000],
        of "''b''" "sample_row ''b'' StatusSuccess"]
    by (auto simp: sample_row_def)
qed

text \<open>
  C23. No sweep overwrites a finished run, however stale its candidates are: each action of a sweep,
  in whatever state the others have left the tables, keeps every finished run as it is.
\<close>

theorem sweep_spares_finished:
  "guar (\<lambda>w w'. \<forall>k r. at_key r_run_id k (task_runs (w_db w)) = Some r \<and> r_status r \<noteq> StatusRunning \<longrightarrow>
       at_key r_run_id k (task_runs (w_db w')) = Some r) (SweepP eng now)"
  using sweep_keeps_finished[of eng now] unfolding keeps_finished_def[abs_def] .

theorem sweep_spares_finished_witness:
  "at_key r_run_id ''b'' (task_runs (w_db (snd (run_db (select_candidates plain_engine) sample_world)))) =
     Some (sample_row ''b'' StatusSuccess)"
proof -
  have "at_key r_run_id ''b'' (task_runs (w_db sample_world)) = Some (sample_row ''b'' StatusSuccess) \<and>
      r_status (sample_row ''b'' StatusSuccess) \<noteq> StatusRunning"
    by (simp add: sample_world_def sample_row_def)
  with sweep_spares_finished[of plain_engine 7000000000] show ?thesis
    unfolding SweepP_def act_bind guar_Act_iff snd_conv by blast
qed

end
