(* ===== verification/Answers.thy ===== *)
theory Answers
  imports Concurrency
begin

text \<open>
  The type of the answers: which payload goes with which status code, for every endpoint of the
  router, in every interleaving of the statements. \<open>returns Q P p\<close> says that whatever the program
  \<open>p\<close> returns, in states of which \<open>Q\<close> holds, satisfies \<open>P\<close>.
\<close>

definition run_typed :: "TaskRun \<Rightarrow> bool" where
  "run_typed t \<longleftrightarrow>
     (FinishedAt t = None \<longleftrightarrow> Status t = StatusRunning) \<and>
     (DurationMs t = None \<longleftrightarrow> Status t = StatusRunning) \<and> Status t \<noteq> StatusMissed"

definition well_typed :: "response \<Rightarrow> bool" where
  "well_typed r \<longleftrightarrow>
     (case payload r of
        NoBody \<Rightarrow> code r = 204
      | JError msg \<Rightarrow> code r \<in> {400, 401, 404, 500}
      | JRunID k \<Rightarrow> code r = 201
      | JTask t \<Rightarrow> code r = 200 \<and> run_typed t
      | JTasks ts \<Rightarrow> code r = 200 \<and> length ts \<le> 200
      | JSchedules scheds \<Rightarrow> code r = 200
      | JStatus s \<Rightarrow> code r = 200
      | Content page \<Rightarrow> True
      | EventStream ch headers \<Rightarrow> code r = 200 \<and> headers = stream_headers)"

inductive returns :: "(world \<Rightarrow> bool) \<Rightarrow> ('a \<Rightarrow> bool) \<Rightarrow> 'a prog \<Rightarrow> bool" for Q P where
  returns_Ret: "P x \<Longrightarrow> returns Q P (Ret x)"
| returns_Act: "(\<And>w. Q w \<Longrightarrow> returns Q P (fst (g w))) \<Longrightarrow> returns Q P (Act g)"

inductive_simps returns_Ret_iff [simp]: "returns Q P (Ret x)"
inductive_simps returns_Act_iff: "returns Q P (Act g)"

lemma returns_act: "(\<And>w. Q w \<Longrightarrow> P (fst (m w))) \<Longrightarrow> returns Q P (act m)"
  unfolding act_def by (rule returns_Act) simp

lemma returns_bind: "returns Q R p \<Longrightarrow> (\<And>x. R x \<Longrightarrow> returns Q P (f x)) \<Longrightarrow> returns Q P (bind p f)"
  by (induction rule: returns.induct) (auto intro: returns_Act)

text \<open>When nothing is needed of the result of the first part.\<close>

lemma returns_any: "returns Q (\<lambda>x. True) p"
  by (induction p rule: prog_induct) (auto intro: returns_Act)

lemma returns_after: "(\<And>x. returns Q P (f x)) \<Longrightarrow> returns Q P (bind p f)"
  by (rule returns_bind[OF returns_any])

lemma well_typed_reply [simp]:
  "well_typed (reply n NoBody) \<longleftrightarrow> n = 204"
  "well_typed (reply n (JError msg)) \<longleftrightarrow> n \<in> {400, 401, 404, 500}"
  "well_typed (reply n (JRunID k)) \<longleftrightarrow> n = 201"
  "well_typed (reply n (JTask t)) \<longleftrightarrow> n = 200 \<and> run_typed t"
  "well_typed (reply n (JTasks ts)) \<longleftrightarrow> n = 200 \<and> length ts \<le> 200"
  "well_typed (reply n (JSchedules scheds)) \<longleftrightarrow> n = 200"
  "well_typed (reply n (JStatus s)) \<longleftrightarrow> n = 200"
  "well_typed (reply n (Content page))"
  "well_typed (reply n (EventStream ch headers)) \<longleftrightarrow> n = 200 \<and> headers = stream_headers"
  by (simp_all add: well_typed_def)

lemma well_typed_respondStoreErr [simp]: "well_typed (respondStoreErr err msg)"
  by (simp add: respondStoreErr_def split: store_error.split)

lemma run_typed_scan: "run_ok r \<Longrightarrow> run_typed (scanTaskRun r)"
  by (simp add: run_typed_def scanTaskRun_def run_ok_def)

lemma well_typed_HandleGet:
  assumes "world_ok w"
  shows "well_typed (fst (HandleGet eng k w))"
proof -
  have "run_ok r" if "at_key r_run_id k (task_runs (w_db w)) = Some r" for r
    using assms that at_key_SomeD[OF that] by (auto simp: world_ok_def runs_ok_def)
  then show ?thesis
    by (auto simp: HandleGet_def run_db_def TaskGet_def Query_def Let_def split_beta run_typed_scan
        split: option.split)
qed

lemma well_typed_HandleList: "well_typed (fst (HandleList eng status w))"
  by (auto simp: HandleList_def run_db_def TaskList_def Query_def list_rows_def Let_def split_beta split: option.split)

lemma well_typed_endpoint:
  assumes "world_ok w" and "e \<notin> {EventsStart, EventsHeartbeat, EventsSuccess, EventsFailed}"
  shows "well_typed (fst (run_endpoint st m e param q w))"
  using assms
  by (cases e)
     (auto simp: run_endpoint_def well_typed_HandleGet well_typed_HandleList HandleRegister_def HandleSchedules_def
       HandleDelete_def OpenStream_def split_beta Let_def split: sum.split option.split)

lemma well_typed_serveEmbeddedUI: "well_typed (serveEmbeddedUI fs q)"
  by (simp add: serveEmbeddedUI_def Let_def split_beta split: option.split)

lemma returns_ServeP: "returns world_ok well_typed (ServeP st m q)"
proof -
  have "returns world_ok well_typed (StartP g eng now uuid raw)" for g eng now uuid raw
    unfolding StartP_def Let_def by (auto intro!: returns_after split: sum.split)
  moreover have "returns world_ok well_typed (HeartbeatP g eng now raw)" for g eng now raw
    unfolding HeartbeatP_def by (auto intro!: returns_after split: sum.split)
  moreover have "returns world_ok well_typed (SuccessP g eng now raw)" for g eng now raw
    unfolding SuccessP_def by (auto intro!: returns_after split: sum.split)
  moreover have "returns world_ok well_typed (FailedP g eng now raw)" for g eng now raw
    unfolding FailedP_def by (auto intro!: returns_after split: sum.split)
  moreover have "returns world_ok well_typed (act (run_endpoint st m e param q))"
    if "e \<notin> {EventsStart, EventsHeartbeat, EventsSuccess, EventsFailed}" for e param
    using that by (intro returns_act well_typed_endpoint)
  ultimately have "returns world_ok well_typed (EndpointP st m e param q)" for e param
    by (cases e) (simp_all add: EndpointP_def)
  then show ?thesis
    by (auto simp: ServeP_def well_typed_serveEmbeddedUI split: option.split)
qed

section \<open>Every reachable machine\<close>

definition typed_answer :: "response option \<Rightarrow> bool" where
  "typed_answer r \<longleftrightarrow> (case r of None \<Rightarrow> True | Some resp \<Rightarrow> well_typed resp)"

definition answers_ok :: "machine \<Rightarrow> bool" where
  "answers_ok s \<longleftrightarrow> machine_ok s \<and> (\<forall>p\<in>set (mc_threads s). returns world_ok typed_answer p) \<and>
     (\<forall>r\<in>set (mc_answers s). well_typed r)"

lemma answers_ok_step:
  assumes ok: "answers_ok s" and step: "conc_step st wk s t"
  shows "answers_ok t"
proof -
  have m: "machine_ok s" and m1: "machine_ok t"
    using ok machine_ok_step[OF _ step] by (simp_all add: answers_ok_def)
  have quiet: "returns world_ok typed_answer (silent p)" for p
    unfolding silent_def by (rule returns_after) (simp add: typed_answer_def)
  have serve: "returns world_ok typed_answer (answering (ServeP st n q))" for n q
    unfolding answering_def by (rule returns_bind[OF returns_ServeP]) (simp add: typed_answer_def)
  from step show ?thesis
  proof cases
    case (statement before g rest p w1)
    have "world_ok (mc_world s)"
      using m by (simp add: machine_ok_def)
    then have "returns world_ok typed_answer p"
      using ok statement(2,3) by (auto simp: answers_ok_def returns_Act_iff dest!: spec[of _ "mc_world s"])
    then show ?thesis
      using ok m1 statement by (auto simp: answers_ok_def)
  next
    case (finish before r rest)
    then show ?thesis
      using ok m1 by (auto simp: answers_ok_def typed_answer_def split: option.splits)
  qed (use ok m1 quiet serve in \<open>auto simp: answers_ok_def\<close>)
qed

interpretation answers: invariant_system
  "\<lambda>s. world_ok (mc_world s) \<and> mc_threads s = [] \<and> mc_answers s = []" "conc_step st wk" answers_ok for st wk
proof unfold_locales
  fix s t
  assume "answers_ok s" and "conc_step st wk s t"
  then show "answers_ok t" by (rule answers_ok_step)
qed (simp add: answers_ok_def machine_ok_def)

section \<open>Properties\<close>

text \<open>
  C24. Every answer of the server is well typed, whatever requests, sweeps and detections run
  statement by statement at the same time and whatever statements fail: 201 carries a run id, 204
  nothing, an error message comes with 400, 401, 404 or 500 and with no other code, a listing has
  at most 200 runs, and a run that is shown has a finish time and a duration exactly when it is
  no longer running, and is never in the status that only alerts use.
\<close>

theorem answers_well_typed:
  assumes "world_ok w"
    and "(conc_step st wk)\<^sup>*\<^sup>* \<lparr>mc_world = w, mc_threads = [], mc_answers = []\<rparr> s"
    and "r \<in> set (mc_answers s)"
  shows "(case payload r of
        NoBody \<Rightarrow> code r = 204
      | JError msg \<Rightarrow> code r \<in> {400, 401, 404, 500}
      | JRunID k \<Rightarrow> code r = 201
      | JTask t \<Rightarrow> code r = 200 \<and> (FinishedAt t = None \<longleftrightarrow> Status t = StatusRunning) \<and>
          (DurationMs t = None \<longleftrightarrow> Status t = StatusRunning) \<and> Status t \<noteq> StatusMissed
      | JTasks ts \<Rightarrow> code r = 200 \<and> length ts \<le> 200
      | JSchedules scheds \<Rightarrow> code r = 200
      | JStatus s \<Rightarrow> code r = 200
      | Content page \<Rightarrow> True
      | EventStream ch headers \<Rightarrow> code r = 200 \<and> headers = stream_headers)"
proof -
  have "answers_ok s"
    using answers.inv_reachable[OF _ assms(2)] assms(1) by simp
  with assms(3) have "well_typed r"
    by (simp add: answers_ok_def)
  then show ?thesis
    by (cases "payload r") (simp_all add: well_typed_def run_typed_def)
qed

theorem answers_well_typed_witness:
  "\<exists>s msg. (conc_step sample_site sample_workers)\<^sup>*\<^sup>* \<lparr>mc_world = sample_world, mc_threads = [], mc_answers = []\<rparr> s \<and>
     mc_answers s = [reply 401 (JError msg)] \<and> code (reply 401 (JError msg)) \<in> {400, 401, 404, 500}"
proof -
  let ?q = "sample_request ''Bearer secreT''" and ?r = "reply 401 (JError ''invalid or missing API key'')"
  let ?s = "\<lparr>mc_world = sample_world, mc_threads = [], mc_answers = []\<rparr>"
  have "run (answering (ServeP sample_site sample_moment ?q)) (mc_world ?s) = (Some ?r, sample_world)"
    by (simp add: answering_def run_bind run_ServeP ServeHTTP_def requireAPIKey_cases sample_site_def
        sample_request_def bearerToken_def HasPrefix_def TrimPrefix_def)
  from started_alone[OF conc_step.accept this]
  have "(conc_step sample_site sample_workers)\<^sup>*\<^sup>* ?s \<lparr>mc_world = sample_world, mc_threads = [], mc_answers = [?r]\<rparr>"
    by simp
  from this answers_well_typed[OF world_ok_sample this, of ?r] show ?thesis
    by (intro exI[of _ "\<lparr>mc_world = sample_world, mc_threads = [], mc_answers = [?r]\<rparr>"]
        exI[of _ "''invalid or missing API key''"] conjI) simp_all
qed

end
