(* ===== verification/Events.thy ===== *)
theory Events
  imports Server
begin

text \<open>
  What the events say. In the server whose requests and ticks are atomic, the type of an event and
  the status of the run it carries always agree, in the buffers of the hub, in the frames of the
  streams and in the calls of the notifier, whatever statements fail. \<open>Races\<close> shows that the
  interleaving of statements breaks this.
\<close>

fun told_status :: "EventType \<Rightarrow> TaskStatus" where
  "told_status EventStarted = StatusRunning"
| "told_status EventHeartbeat = StatusRunning"
| "told_status EventSucceeded = StatusSuccess"
| "told_status EventFailed = StatusFailed"
| "told_status EventTimeout = StatusTimeout"
| "told_status EventScheduleMissed = StatusMissed"

definition coherent :: "Event \<Rightarrow> bool" where
  "coherent e \<longleftrightarrow> Status (evt_Task e) = told_status (evt_Type e)"

definition hub_tells :: "Hub \<Rightarrow> bool" where
  "hub_tells h \<longleftrightarrow> (\<forall>ch. \<forall>e\<in>set (buf (chans h ch)). coherent e)"

section \<open>The hub\<close>

named_theorems tells \<open>operations that keep the events coherent\<close>

lemma hub_tells_New [tells]: "hub_tells NewHub"
  by (simp add: hub_tells_def NewHub_def empty_chan_def)

lemma hub_tells_Subscribe [tells]: "hub_tells h \<Longrightarrow> hub_tells (snd (Subscribe h))"
  by (simp add: hub_tells_def Subscribe_def Let_def empty_chan_def)

lemma hub_tells_unsubscribe [tells]: "hub_tells h \<Longrightarrow> hub_tells (unsubscribe ch h)"
  by (simp add: hub_tells_def unsubscribe_def close_chan_def)

lemma hub_tells_receive:
  assumes "hub_tells h" and "receive ch h = (Received evt, h1)"
  shows "coherent evt" and "hub_tells h1"
proof -
  obtain es where es: "buf (chans h ch) = evt # es" "h1 = h\<lparr>chans := (chans h)(ch := (chans h ch)\<lparr>buf := es\<rparr>)\<rparr>"
    using assms(2) by (auto simp: receive_def split: list.splits if_splits)
  then have "\<forall>e\<in>set (evt # es). coherent e"
    using assms(1) unfolding hub_tells_def by metis
  then show "coherent evt" and "hub_tells h1"
    using assms(1) by (auto simp: hub_tells_def es(2))
qed

lemma hub_tells_Publish [tells]:
  assumes "hub_tells h" and "coherent evt"
  shows "hub_tells (Publish evt h)"
proof -
  have "hub_tells (fold (try_send evt) chs h)" for chs
    using assms(1)
  proof (induction chs arbitrary: h)
    case (Cons ch chs)
    then have "hub_tells (try_send evt ch h)"
      using assms(2) by (auto simp: hub_tells_def try_send_def)
    then show ?case
      using Cons.IH by simp
  qed simp
  then show ?thesis
    by (simp add: Publish_def)
qed

lemma hub_tells_batch [tells]:
  "hub_tells h \<Longrightarrow> (\<And>t. t \<in> set ts \<Longrightarrow> Status t = told_status ty) \<Longrightarrow>
     hub_tells (fold Publish (map (\<lambda>t. \<lparr>evt_Type = ty, evt_Task = t\<rparr>) ts) h)"
proof (induction ts arbitrary: h)
  case (Cons t ts)
  have "hub_tells (Publish \<lparr>evt_Type = ty, evt_Task = t\<rparr> h)"
    using Cons.prems by (intro hub_tells_Publish) (simp_all add: coherent_def)
  then show ?case
    using Cons.IH Cons.prems(2) by simp
qed simp

lemma hub_tells_publish [tells]:
  "hub_tells (w_hub w) \<Longrightarrow> Status t = told_status ty \<Longrightarrow> hub_tells (w_hub (publish ty t w))"
  by (simp add: coherent_def hub_tells_Publish)

section \<open>The rows behind an event\<close>

lemma TaskGet_Inr:
  "TaskGet eng k d = (Inr t, d1) \<Longrightarrow> \<exists>r. at_key r_run_id k (task_runs d) = Some r \<and> t = scanTaskRun r"
  by (auto simp: TaskGet_def Query_def Let_def split: option.splits)

lemma Exec_update_Inr:
  assumes "Exec eng (update_runs p f) d = (Inr res, d1)"
  shows "task_runs d1 = upd_where p f (task_runs d)"
    and "fst (RowsAffected res) \<noteq> 0 \<Longrightarrow> \<exists>r\<in>set (task_runs d). p r"
proof -
  have "task_runs d1 = upd_where p f (task_runs d) \<and> (fst (RowsAffected res) \<noteq> 0 \<longrightarrow> cnt_where p (task_runs d) \<noteq> 0)"
    using assms by (auto simp: Exec_def update_runs_def RowsAffected_def Let_def split: option.splits if_splits)
  then show "task_runs d1 = upd_where p f (task_runs d)"
    and "fst (RowsAffected res) \<noteq> 0 \<Longrightarrow> \<exists>r\<in>set (task_runs d). p r"
    unfolding cnt_where_0 by blast+
qed

lemma checkRowsAffected_Inr:
  "checkRowsAffected res = Inr () \<Longrightarrow> \<exists>n. res = Inr n \<and> fst (RowsAffected n) \<noteq> 0"
  by (auto simp: checkRowsAffected_def RowsAffected_def split: sum.splits option.splits if_splits)

lemma Heartbeat_Inr:
  assumes "keyed r_run_id (task_runs d)" and "Heartbeat eng k at d = (Inr (), d1)"
    and "at_key r_run_id k (task_runs d1) = Some r"
  shows "r_status r = StatusRunning"
proof -
  obtain res where res: "Exec eng (update_runs (\<lambda>r. r_run_id r = k \<and> r_status r = StatusRunning) (set_heartbeat eng at)) d = (res, d1)"
    "checkRowsAffected res = Inr ()"
    using assms(2) unfolding Heartbeat_def Let_def by (metis (no_types, lifting) case_prod_conv prod.exhaust prod.inject)
  obtain n where n: "res = Inr n" "fst (RowsAffected n) \<noteq> 0"
    using checkRowsAffected_Inr[OF res(2)] by blast
  note upd = Exec_update_Inr[OF res(1)[unfolded n(1)]]
  obtain x where x: "x \<in> set (task_runs d)" "r_run_id x = k" "r_status x = StatusRunning"
    using upd(2)[OF n(2)] by blast
  then have "at_key r_run_id k (task_runs d) = Some x"
    using at_key_mem[OF assms(1)] by blast
  then show ?thesis
    using assms(3) x(3) by (auto simp: upd(1) hb.at_key_point_guarded set_heartbeat_def)
qed

lemma Finish_Inr:
  assumes "Finish eng k st msg at d = (Inr (), d1)" and "at_key r_run_id k (task_runs d1) = Some r"
  shows "r_status r = st"
proof -
  obtain q d0 where q: "Query eng (\<lambda>d0. map_option r_started_at (at_key r_run_id k (task_runs d0))) d = (q, d0)"
    by fastforce
  then obtain started where "q = Inr (Some started)"
    using assms(1) by (auto simp: Finish_def split: sum.splits option.splits)
  note q = q[unfolded this]
  let ?f = "set_finished eng (st, at, Milliseconds (Sub at started), msg)"
  obtain res d2 where e: "Exec eng (update_runs (\<lambda>r. r_run_id r = k) ?f) d0 = (res, d2)"
    by fastforce
  then have res: "Exec eng (update_runs (\<lambda>r. r_run_id r = k) ?f) d0 = (res, d1)" "checkRowsAffected res = Inr ()"
    using assms(1) by (simp_all add: Finish_def q Let_def)
  obtain n where n: "res = Inr n"
    using checkRowsAffected_Inr[OF res(2)] by blast
  show ?thesis
    using assms(2) unfolding Exec_update_Inr(1)[OF res(1)[unfolded n]] fin.at_key_point
    by (auto simp: set_finished_def)
qed

lemma sweep_loop_told:
  "keyed r_run_id (task_runs d) \<Longrightarrow> (\<forall>t\<in>set acc. Status t = StatusTimeout) \<Longrightarrow>
     \<forall>t\<in>set (fst (fst (sweep_loop eng now acc cs d))). Status t = StatusTimeout"
proof (induction cs arbitrary: acc d)
  case Nil
  then show ?case by simp
next
  case (Cons c cs)
  obtain res d1 where e: "Exec eng (timeout_stmt eng now c) d = (res, d1)"
    by fastforce
  obtain got d2 where g: "TaskGet eng (c_runID c) d1 = (got, d2)"
    by fastforce
  have d2: "task_runs d2 = task_runs d1"
    using TaskGet_tables(1)[of eng "c_runID c" d1] g by simp
  have k: "keyed r_run_id (task_runs d1)" if "res = Inr n" for n
    using Cons.prems(1) Exec_update_Inr(1)[OF e[unfolded timeout_stmt_def that]] by (simp add: tmo.keyed_upd)
  have "Status t = StatusTimeout" if n: "res = Inr n" "fst (RowsAffected n) \<noteq> 0" and t: "got = Inr t" for n t
  proof -
    note upd = Exec_update_Inr[OF e[unfolded timeout_stmt_def n(1)]]
    obtain x where x: "x \<in> set (task_runs d)" "r_run_id x = c_runID c" "r_status x = StatusRunning"
      using upd(2)[OF n(2)] by blast
    then have "at_key r_run_id (c_runID c) (task_runs d) = Some x"
      using at_key_mem[OF Cons.prems(1)] by metis
    then show ?thesis
      using TaskGet_Inr[OF g[unfolded t]] x(3)
      by (auto simp: upd(1) tmo.at_key_point_guarded scanTaskRun_def set_timeout_def)
  qed
  note told = this
  have skip: "\<forall>t\<in>set (fst (fst (sweep_loop eng now acc cs d'))). Status t = StatusTimeout"
    if "keyed r_run_id (task_runs d')" for d'
    using Cons.IH[OF that Cons.prems(2)] .
  have take: "\<forall>t\<in>set (fst (fst (sweep_loop eng now (acc @ [t]) cs d2))). Status t = StatusTimeout"
    if "res = Inr n" "fst (RowsAffected n) \<noteq> 0" "got = Inr t" for n t
    using Cons.prems(2) told[OF that] k[OF that(1)] by (intro Cons.IH) (auto simp: d2)
  show ?case
  proof (cases "within_ttl now c")
    case True
    then show ?thesis using skip[OF Cons.prems(1)] by simp
  next
    case False
    then show ?thesis
    proof (cases res)
      case (Inl err)
      then show ?thesis using False Cons.prems(2) by (simp add: e)
    next
      case (Inr n)
      show ?thesis
      proof (cases "fst (RowsAffected n) = 0")
        case True
        then show ?thesis using skip[OF k[OF Inr]] False by (simp add: e Inr)
      next
        case hit: False
        show ?thesis
        proof (cases got)
          case gone: (Inl err)
          then show ?thesis
            using Cons.prems(2) False hit by (simp add: e Inr g)
        next
          case read: (Inr t)
          have "sweep_loop eng now acc (c # cs) d = sweep_loop eng now (acc @ [t]) cs d2"
            using False hit by (simp add: e Inr g read)
          then show ?thesis
            using take[OF Inr hit read] by simp
        qed
      qed
    qed
  qed
qed

section \<open>Handlers and ticks\<close>

lemma tells_publishLatest:
  assumes "hub_tells (w_hub w)"
    and "\<And>r. at_key r_run_id k (task_runs (w_db w)) = Some r \<Longrightarrow> r_status r = told_status ty"
  shows "hub_tells (w_hub (publishLatest eng k ty w))"
proof -
  obtain res d1 where g: "TaskGet eng k (w_db w) = (res, d1)"
    by fastforce
  show ?thesis
  proof (cases res)
    case (Inl err)
    then show ?thesis
      using assms(1) by (simp add: publishLatest_def run_db_def g)
  next
    case (Inr t)
    then have "Status t = told_status ty"
      using TaskGet_Inr[OF g[unfolded Inr]] assms(2) by (auto simp: scanTaskRun_def)
    then show ?thesis
      using assms(1) Inr by (simp add: publishLatest_def run_db_def g coherent_def hub_tells_Publish)
  qed
qed

lemma tells_HandleStart [tells]:
  "hub_tells (w_hub w) \<Longrightarrow> hub_tells (w_hub (snd (HandleStart g eng now uuid raw w)))"
  by (auto simp: HandleStart_def split_beta Let_def coherent_def started_task_def intro!: hub_tells_Publish
      split: sum.split)

lemma tells_HandleHeartbeat [tells]:
  assumes "world_ok w" and "hub_tells (w_hub w)"
  shows "hub_tells (w_hub (snd (HandleHeartbeat g eng now raw w)))"
proof -
  have k: "keyed r_run_id (task_runs (w_db w))"
    using assms(1) by (simp add: world_ok_def runs_ok_def)
  have "hub_tells (w_hub (publishLatest eng k EventHeartbeat (w\<lparr>w_db := d1\<rparr>)))"
    if "Heartbeat eng k now (w_db w) = (Inr (), d1)" for k d1
    using Heartbeat_Inr[OF k that] assms(2) by (intro tells_publishLatest) simp_all
  then show ?thesis
    using assms(2) by (auto simp: HandleHeartbeat_def run_db_def split: sum.split prod.split)
qed

lemma tells_finished:
  assumes "hub_tells (w_hub w)" and "Finish eng k (told_status ty) msg at (w_db w) = (Inr (), d1)"
  shows "hub_tells (w_hub (publishLatest eng k ty (w\<lparr>w_db := d1\<rparr>)))"
  using Finish_Inr[OF assms(2)] assms(1) by (intro tells_publishLatest) simp_all

lemma tells_HandleSuccess [tells]:
  "hub_tells (w_hub w) \<Longrightarrow> hub_tells (w_hub (snd (HandleSuccess g eng now raw w)))"
  using tells_finished[of w eng _ EventSucceeded]
  by (auto simp: HandleSuccess_def run_db_def split: sum.split prod.split)

lemma tells_HandleFailed [tells]:
  "hub_tells (w_hub w) \<Longrightarrow> hub_tells (w_hub (snd (HandleFailed g eng now raw w)))"
  using tells_finished[of w eng _ EventFailed]
  by (auto simp: HandleFailed_def run_db_def split: sum.split prod.split)

text \<open>The other endpoints leave the hub alone or subscribe to it.\<close>

lemma quiet_handlers:
  "w_hub (snd (HandleGet eng k w)) = w_hub w" "w_hub (snd (HandleList eng status w)) = w_hub w"
  "w_hub (snd (HandleRegister g cr eng now raw w)) = w_hub w" "w_hub (snd (HandleSchedules eng w)) = w_hub w"
  "w_hub (snd (HandleDelete eng n w)) = w_hub w"
  by (auto simp: handler_defs run_db_def split_beta Let_def split: sum.split option.split)

lemma tells_OpenStream [tells]: "hub_tells (w_hub w) \<Longrightarrow> hub_tells (w_hub (snd (OpenStream w)))"
  using hub_tells_Subscribe[of "w_hub w"] by (simp add: OpenStream_def Let_def split_beta)

lemma tells_ServeHTTP [tells]:
  assumes "world_ok w" and "hub_tells (w_hub w)"
  shows "hub_tells (w_hub (snd (ServeHTTP st m q w)))"
proof -
  have "hub_tells (w_hub (snd (run_endpoint st m e param q w)))" for e param
    using assms by (cases e) (simp_all add: run_endpoint_def quiet_handlers tells)
  then show ?thesis
    using assms(2) by (auto simp: ServeHTTP_def requireAPIKey_cases split: option.split)
qed

lemma tells_sweepOnce [tells]:
  assumes "world_ok w" and "hub_tells (w_hub w)"
  shows "hub_tells (w_hub (sweepOnce eng now w))"
proof -
  obtain sel d1 where s: "select_candidates eng (w_db w) = (sel, d1)"
    by fastforce
  then have "keyed r_run_id (task_runs d1)"
    using select_candidates_tables(1)[of eng "w_db w"] assms(1) by (simp add: world_ok_def runs_ok_def)
  then have "\<forall>t\<in>set (fst (fst (SweepTimeouts eng now (w_db w)))). Status t = StatusTimeout"
    using sweep_loop_told[of d1 "[]"] by (simp add: SweepTimeouts_def s split: sum.split)
  then show ?thesis
    using assms(2) by (auto simp: sweepOnce_fields intro!: hub_tells_batch split: option.split)
qed

lemma tells_checkOnce [tells]:
  assumes "hub_tells (w_hub w)"
  shows "hub_tells (w_hub (checkOnce cr eng now w))"
proof -
  have "map (missed_event eng) ms =
      map (\<lambda>t. \<lparr>evt_Type = EventScheduleMissed, evt_Task = t\<rparr>) (map (toAlertTask eng) ms)" for ms
    by (simp add: missed_event_def)
  moreover have "hub_tells (fold Publish (map (\<lambda>t. \<lparr>evt_Type = EventScheduleMissed, evt_Task = t\<rparr>)
      (map (toAlertTask eng) ms)) (w_hub w))" for ms
    using assms by (rule hub_tells_batch) auto
  ultimately show ?thesis
    using assms by (simp only: checkOnce_fields split: option.split) blast
qed

section \<open>The invariant\<close>

definition alert_statuses :: "TaskStatus set" where
  "alert_statuses = {StatusFailed, StatusTimeout, StatusMissed}"

definition sent_tells :: "Dispatcher \<Rightarrow> bool" where
  "sent_tells d \<longleftrightarrow> (\<forall>x\<in>set (sent d). Status (snd x) \<in> alert_statuses)"

definition frames_tell :: "frame list \<Rightarrow> bool" where
  "frames_tell fs \<longleftrightarrow> (\<forall>(name, t)\<in>set fs. \<exists>ty. name = EventTypeString ty \<and> Status t = told_status ty)"

definition dispatchers :: "dispatcher_state \<Rightarrow> Dispatcher list" where
  "dispatchers ds = (case ds of NotStarted \<Rightarrow> [] | Listening ch d \<Rightarrow> [d] | Stopped d \<Rightarrow> [d])"

definition server_tells :: "server \<Rightarrow> bool" where
  "server_tells s \<longleftrightarrow> server_ok s \<and> hub_tells (w_hub (s_world s)) \<and>
     (\<forall>d\<in>set (dispatchers (s_dispatcher s)). sent_tells d) \<and> (\<forall>(ch, fs)\<in>set (s_streams s). frames_tell fs)"

lemma tells_handle: "coherent evt \<Longrightarrow> sent_tells d \<Longrightarrow> sent_tells (handle now evt d)"
  using handle_sent[of now evt d]
  by (auto simp: sent_tells_def coherent_def alert_worthy_def alert_statuses_def)

lemma tells_send_frame: "coherent evt \<Longrightarrow> frames_tell fs \<Longrightarrow> frames_tell (send_frame u evt fs)"
  by (auto simp: frames_tell_def send_frame_def coherent_def)

lemma tells_turn:
  assumes "hub_tells h" and "P x" and "\<And>now evt y. coherent evt \<Longrightarrow> P y \<Longrightarrow> P (react now evt y)"
    and "consume_select react ch sig (x, h) = (finished, x1, h1)"
  shows "hub_tells h1 \<and> P x1"
proof (cases rule: consume_select_cases[of react ch sig x h])
  case (event now evt h2)
  then show ?thesis
    using assms hub_tells_receive[OF assms(1) event(2)] by auto
qed (use assms in \<open>auto intro: hub_tells_unsubscribe\<close>)

lemma opened_frames: "(ch, fs) \<in> set (opened r) \<Longrightarrow> fs = []"
  by (auto simp: opened_def split: payload.splits)

lemma server_tells_step:
  assumes ok: "server_tells s" and step: "server_step st (start_workers cfg) s t"
  shows "server_tells t"
proof -
  have next_ok: "server_ok t"
    using server_ok_step step ok by (auto simp: server_tells_def)
  have w: "world_ok (s_world s)" and hub: "hub_tells (w_hub (s_world s))"
    and ds: "\<forall>d\<in>set (dispatchers (s_dispatcher s)). sent_tells d"
    and fs: "\<forall>(ch, fs)\<in>set (s_streams s). frames_tell fs"
    using ok by (auto simp: server_tells_def server_ok_def)
  from step show ?thesis
  proof cases
    case (request m q r w1)
    then show ?thesis
      using next_ok ds fs tells_ServeHTTP[OF w hub, of st m q]
      by (auto simp: server_tells_def frames_tell_def dest: opened_frames)
  next
    case (dispatcher_starts n d ch h1)
    then have "sent d = []"
      by (auto simp: start_workers_def NewDispatcher_def split: if_splits)
    then show ?thesis
      using next_ok fs hub_tells_Subscribe[OF hub] dispatcher_starts(1,4)
      by (simp add: server_tells_def dispatchers_def sent_tells_def)
  next
    case (dispatcher_turn ch d sig finished d1 h1)
    have "hub_tells h1 \<and> sent_tells d1"
      by (rule tells_turn[where P = sent_tells, OF hub _ tells_handle dispatcher_turn(3)])
        (use ds dispatcher_turn(2) in \<open>simp_all add: dispatchers_def\<close>)
    then show ?thesis
      using next_ok fs dispatcher_turn(1) by (simp add: server_tells_def dispatchers_def after_turn_def)
  next
    case (stream_turn before ch frames rest sig finished frames1 h1)
    have "hub_tells h1 \<and> frames_tell frames1"
      by (rule tells_turn[where P = frames_tell, OF hub _ tells_send_frame stream_turn(3)]) (use fs stream_turn(2) in simp_all)
    then show ?thesis
      using next_ok ds fs stream_turn(1,2) by (auto simp: server_tells_def)
  qed (use next_ok w hub ds fs in \<open>simp_all add: server_tells_def tells cleanOnce_fields\<close>)
qed

interpretation telling: invariant_system
  "\<lambda>s. \<exists>d. runs_ok (task_runs d) \<and> scheds_ok (task_schedules d) \<and> s = new_server d"
  "server_step st (start_workers cfg)" server_tells for st cfg
proof unfold_locales
  fix s
  assume "\<exists>d. runs_ok (task_runs d) \<and> scheds_ok (task_schedules d) \<and> s = new_server d"
  then show "server_tells s"
    by (auto simp: server_tells_def server_ok_new) (auto simp: new_server_def hub_tells_New dispatchers_def)
qed (rule server_tells_step)

section \<open>Properties\<close>

text \<open>
  C6. Events tell the truth as long as requests and ticks are atomic: whatever statements fail, every
  event in a buffer carries a run whose status is the one its type announces, the same holds of
  every frame a stream has sent, and the notifier is only called with failed, timed-out or missed runs.
\<close>

theorem events_tell_the_truth:
  assumes "runs_ok (task_runs d)" and "scheds_ok (task_schedules d)"
    and "(server_step st (start_workers cfg))\<^sup>*\<^sup>* (new_server d) s"
  shows "(\<forall>ch. \<forall>e\<in>set (buf (chans (w_hub (s_world s)) ch)). Status (evt_Task e) = told_status (evt_Type e)) \<and>
    (\<forall>(ch, fs)\<in>set (s_streams s). \<forall>(name, t)\<in>set fs. \<exists>ty. name = EventTypeString ty \<and> Status t = told_status ty) \<and>
    (\<forall>ch dp. s_dispatcher s = Listening ch dp \<or> s_dispatcher s = Stopped dp \<longrightarrow>
       (\<forall>(at, t)\<in>set (sent dp). Status t \<in> {StatusFailed, StatusTimeout, StatusMissed}))"
proof -
  have "server_tells s"
    using telling.inv_reachable[OF _ assms(3)] assms(1,2) by blast
  then show ?thesis
    unfolding server_tells_def hub_tells_def coherent_def frames_tell_def sent_tells_def alert_statuses_def dispatchers_def
    by (auto split: dispatcher_state.splits)
qed

theorem events_tell_the_truth_witness:
  "list_all (\<lambda>e. Status (evt_Task e) = told_status (evt_Type e))
     (buf (chans (w_hub (sweepOnce plain_engine 7000000000 \<lparr>w_db = sample_db, w_hub = snd (Subscribe NewHub)\<rparr>)) 0))"
proof -
  let ?s0 = "new_server sample_db" and ?d = "NewDispatcher 0 Minute"
  let ?s1 = "?s0\<lparr>s_world := with_hub (snd (Subscribe NewHub)) (s_world ?s0), s_dispatcher := Listening 0 ?d\<rparr>"
  let ?s2 = "?s1\<lparr>s_world := sweepOnce plain_engine 7000000000 (s_world ?s1)\<rparr>"
  have "Subscribe (w_hub (s_world ?s0)) = (0, snd (Subscribe NewHub))" "s_dispatcher ?s0 = NotStarted"
    by (simp_all add: new_server_def Subscribe_def NewHub_def Let_def)
  then have first: "server_step sample_site sample_workers ?s0 ?s1"
    using sample_dispatcher(1) server_step.dispatcher_starts[of sample_workers _ ?d ?s0 0] by blast
  have "server_step sample_site sample_workers ?s1 ?s2"
    by (rule server_step.sweep)
  note steps = converse_rtranclp_into_rtranclp[where r = "server_step sample_site sample_workers", OF first
      r_into_rtranclp[where r = "server_step sample_site sample_workers", OF this]]
  have "scheds_ok (task_schedules sample_db)"
    by (simp add: scheds_ok_def keyed_def sample_db_def)
  from events_tell_the_truth[OF runs_ok_sample this steps[unfolded sample_workers_def], THEN conjunct1]
  show ?thesis
    by (simp add: new_server_def with_hub_def list_all_iff)
qed

end
