(* ===== verification/Races.thy ===== *)
theory Races
  imports Concurrency Events
begin

text \<open>
  What the interleavings of the handlers with the two scans can do that no scan alone does: a
  heartbeat that comes too late, a success that is alerted as a timeout, a deletion that silences
  the alerts of other schedules.
\<close>

section \<open>A request between two statements of a tick\<close>

text \<open>A thread that the scheduler stops between its first part and its second.\<close>

lemma runs_first_part:
  "run p w = (x, w1) \<Longrightarrow> f x = q \<Longrightarrow>
   (conc_step st wk)\<^sup>*\<^sup>* \<lparr>mc_world = w, mc_threads = [bind p f], mc_answers = out\<rparr>
     \<lparr>mc_world = w1, mc_threads = [q], mc_answers = out\<rparr>"
proof (induction p arbitrary: w rule: prog_induct)
  case (Ret x)
  then show ?case by simp
next
  case (Act g)
  obtain p w2 where g: "g w = (p, w2)"
    by fastforce
  let ?s = "\<lambda>w p. \<lparr>mc_world = w, mc_threads = [p], mc_answers = out\<rparr>"
  have "conc_step st wk (?s w (bind (Act g) f)) (?s w2 (bind p f))"
    using conc_step.statement[of "?s w (bind (Act g) f)" "[]" _ "[]" "bind p f" w2 st wk] g by simp
  then show ?case
    using Act.IH[of w w2] Act.prems g by (auto intro: converse_rtranclp_into_rtranclp)
qed

lemma runs_first_part_sql:
  assumes "m (w_db w) = (res, d1)" and "f res = q"
  shows "(conc_step st wk)\<^sup>*\<^sup>* \<lparr>mc_world = w, mc_threads = [bind (sql m) f], mc_answers = out\<rparr>
     \<lparr>mc_world = w\<lparr>w_db := d1\<rparr>, mc_threads = [q], mc_answers = out\<rparr>"
  using assms by (intro runs_first_part) (simp_all add: run_db_def)

text \<open>The stopped thread lets one request be served and then runs to its end.\<close>

lemma request_meanwhile:
  assumes "ServeHTTP st m q w = (resp, w1)" and "run p w1 = (None, w2)"
  shows "(conc_step st wk)\<^sup>*\<^sup>* \<lparr>mc_world = w, mc_threads = [p], mc_answers = []\<rparr>
     \<lparr>mc_world = w2, mc_threads = [], mc_answers = [resp]\<rparr>"
proof -
  have "(conc_step st wk)\<^sup>*\<^sup>* \<lparr>mc_world = w, mc_threads = [p], mc_answers = []\<rparr>
      \<lparr>mc_world = w1, mc_threads = [p], mc_answers = [resp]\<rparr>"
    using started_alone[OF conc_step.accept[of st wk "\<lparr>mc_world = w, mc_threads = [p], mc_answers = []\<rparr>" m q]]
      assms(1)
    by (simp add: run_answering run_ServeP)
  also have "(conc_step st wk)\<^sup>*\<^sup>* \<lparr>mc_world = w1, mc_threads = [p], mc_answers = [resp]\<rparr>
      \<lparr>mc_world = w2, mc_threads = [], mc_answers = [resp]\<rparr>"
    using runs_alone[OF assms(2), of st wk "[]" "[]" "[resp]"] by simp
  finally show ?thesis .
qed

text \<open>A loop over a list of candidates stops after any of them.\<close>

lemma detect_loopP_append:
  "detect_loopP eng now acc (cs @ ds) =
     bind (detect_loopP eng now acc cs)
       (\<lambda>(missed, err). case err of Some e \<Rightarrow> Ret (missed, Some e) | None \<Rightarrow> detect_loopP eng now missed ds)"
proof (induction cs arbitrary: acc)
  case Nil
  then show ?case by simp
next
  case (Cons c cs)
  then show ?case
    by (auto simp: bind_bind intro!: arg_cong2[where f = bind] ext split: sum.split)
qed

section \<open>A deletion during a detection\<close>

text \<open>What a tick of the detector still has to do once its candidates are known.\<close>

definition after_detect :: "engine \<Rightarrow> Schedule list \<times> store_error option \<Rightarrow> response option prog" where
  "after_detect eng =
     (\<lambda>(missed, err). silent (case err of
        Some e \<Rightarrow> Ret ()
      | None \<Rightarrow> announce_all EventScheduleMissed (map (toAlertTask eng) missed)))"

lemma silent_CheckP:
  "silent (CheckP cr eng now) =
     bind (sql (select_ok_schedules cr eng))
       (\<lambda>sel. case sel of Inl err \<Rightarrow> Ret None | Inr cs \<Rightarrow> bind (detect_loopP eng now [] cs) (after_detect eng))"
  by (auto simp: CheckP_def silent_def after_detect_def bind_bind
      intro!: arg_cong2[where f = bind] ext split: sum.split option.split)


text \<open>
  A tick of the detector that has gone through the candidates before \<open>b\<close> and has marked \<open>b\<close> as
  missed; \<open>wait_get\<close> is what it does when it is resumed.
\<close>

definition wait_get :: "engine \<Rightarrow> time \<Rightarrow> Schedule list \<Rightarrow> sched_candidate list \<Rightarrow> string \<Rightarrow> response option prog" where
  "wait_get eng now missed cs b =
     bind (sql (ScheduleGet eng b))
       (\<lambda>got. bind (case got of
                Inl err \<Rightarrow> Ret (missed, Some err)
              | Inr sched \<Rightarrow> detect_loopP eng now (missed @ [sched]) cs) (after_detect eng))"

lemma half_check:
  assumes "select_ok_schedules (site_cron st) eng (w_db w) = (Inr (cs @ c # ds), d1)"
    and "detect_loop eng now [] cs d1 = ((acc, None), d2)"
    and "\<not> Before now (c_deadline c)"
    and "Exec eng (missed_stmt eng now c) d2 = (Inr n, d3)" and "fst (RowsAffected n) \<noteq> 0"
  shows "(conc_step st wk)\<^sup>*\<^sup>* \<lparr>mc_world = w, mc_threads = [], mc_answers = out\<rparr>
     \<lparr>mc_world = w\<lparr>w_db := d3\<rparr>, mc_threads = [wait_get eng now acc ds (c_taskName c)], mc_answers = out\<rparr>"
proof -
  let ?s = "\<lambda>d p. \<lparr>mc_world = w\<lparr>w_db := d\<rparr>, mc_threads = [p], mc_answers = out\<rparr>"
  let ?rest = "\<lambda>missed cs. bind (detect_loopP eng now missed cs) (after_detect eng)"
  have "(conc_step st wk)\<^sup>*\<^sup>* \<lparr>mc_world = w, mc_threads = [], mc_answers = out\<rparr>
      \<lparr>mc_world = w, mc_threads = [silent (CheckP (site_cron st) eng now)], mc_answers = out\<rparr>"
    using conc_step.tick_check[of st wk "\<lparr>mc_world = w, mc_threads = [], mc_answers = out\<rparr>" eng now]
    by (simp add: r_into_rtranclp[where r = "conc_step st wk"])
  also have "(conc_step st wk)\<^sup>*\<^sup>* \<dots> (?s d1 (?rest [] (cs @ c # ds)))"
    unfolding silent_CheckP by (rule runs_first_part_sql[where m = "select_ok_schedules (site_cron st) eng", OF assms(1)]) simp
  also have "(conc_step st wk)\<^sup>*\<^sup>* \<dots> (?s d2 (?rest acc (c # ds)))"
    unfolding detect_loopP_append bind_bind
    by (rule runs_first_part[where x = "(acc, None)"]) (simp_all add: run_detect_loopP run_db_def assms(2))
  also have "(conc_step st wk)\<^sup>*\<^sup>* \<dots> \<lparr>mc_world = w\<lparr>w_db := d2, w_db := d3\<rparr>,
      mc_threads = [wait_get eng now acc ds (c_taskName c)], mc_answers = out\<rparr>"
    unfolding detect_loopP.simps bind_bind if_not_P[OF assms(3)]
    by (rule runs_first_part_sql[where res = "Inr n"]) (use assms(5) in \<open>simp_all add: assms(4) wait_get_def bind_bind\<close>)
  finally show ?thesis by simp
qed

text \<open>Where the detection has come to, as the table of schedules sees it.\<close>

lemma detect_prefix:
  assumes nf: "no_faults eng" and k: "keyed s_task_name (task_schedules d)"
    and perm: "mset (cs @ ds) = mset (task_schedules d)"
    and run: "detect_loop eng now [] (map (cand_of cr) (filter (watched cr) cs)) d = (res, d2)"
  shows "snd res = None" and "keyed s_task_name (task_schedules d2)"
    and "r \<in> set (task_schedules d) \<Longrightarrow> at_key s_task_name (s_task_name r) (task_schedules d2) =
      Some (if r \<in> set cs \<and> overdue cr now r then set_missed eng now r else r)"
proof -
  let ?rs = "filter (watched cr) cs"
  have all: "keyed s_task_name (cs @ ds)"
    using mset_eq_distinct_map[OF perm] k by (simp add: keyed_def)
  have sub: "set (cs @ ds) = set (task_schedules d)"
    using perm by (rule mset_eq_setD)
  have dist: "distinct (map s_task_name ?rs)"
    using all by (simp add: keyed_def distinct_map_filter)
  have live: "set ?rs \<subseteq> set (task_schedules d)" "\<forall>r\<in>set ?rs. s_status r = ScheduleStatusOK"
    using sub by (auto simp: watched_def)
  note loop = detect_loop_no_faults[OF nf k dist live, of now "[]" cr, unfolded run detect.point_loop_as_map]
  show "snd res = None"
    using loop by simp
  have name: "s_task_name (if s_status x = ScheduleStatusOK then case List.find (\<lambda>c. c_taskName c = s_task_name x \<and>
      \<not> Before now (c_deadline c)) (map (cand_of cr) ?rs) of None \<Rightarrow> x | Some c \<Rightarrow> set_missed eng now x else x) =
      s_task_name x" for x
    by (simp add: set_missed_def split: option.split)
  show "keyed s_task_name (task_schedules d2)"
    using loop k by (simp only: keyed_def list.map_comp comp_def name snd_conv)
  show "at_key s_task_name (s_task_name r) (task_schedules d2) =
      Some (if r \<in> set cs \<and> overdue cr now r then set_missed eng now r else r)"
    if r: "r \<in> set (task_schedules d)"
  proof -
    have same: "x = r" if "x \<in> set cs" "s_task_name x = s_task_name r" for x
      using that r sub k by (auto simp: keyed_def distinct_map dest: inj_onD)
    have due: "List.find (\<lambda>c. c_taskName c = s_task_name r \<and> \<not> Before now (c_deadline c)) (map (cand_of cr) ?rs) =
        (if r \<in> set cs \<and> overdue cr now r then Some (cand_of cr r) else None)"
    proof (cases "r \<in> set cs")
      case True
      have "keyed s_task_name cs"
        using all by (simp add: keyed_def)
      from detect.find_candidate[OF refl refl _ this True, where cand = "cand_of cr" and q = "watched cr" and now = now]
      show ?thesis
        using True by (simp add: overdue_watched)
    next
      case False
      then show ?thesis
        using same by (auto simp: find_None_iff)
    qed
    then show ?thesis
      using loop r by (simp add: at_key_map[of s_task_name, OF name] at_key_mem[OF k] overdue_def)
  qed
qed

lemma detection_midway:
  assumes nf: "no_faults eng" and "engine_ok eng" and k: "keyed s_task_name (task_schedules (w_db w))"
    and scan: "scan_schedules eng (Suc (stmts (w_db w))) (task_schedules (w_db w)) = earlier @ b # later"
    and "overdue (site_cron st) now b"
  obtains acc cs d where
    "(conc_step st wk)\<^sup>*\<^sup>* \<lparr>mc_world = w, mc_threads = [], mc_answers = []\<rparr>
       \<lparr>mc_world = w\<lparr>w_db := d\<rparr>, mc_threads = [wait_get eng now acc cs (s_task_name b)], mc_answers = []\<rparr>"
    and "keyed s_task_name (task_schedules d)"
    and "at_key s_task_name (s_task_name b) (task_schedules d) = Some (set_missed eng now b)"
    and "\<And>a. a \<in> set earlier \<Longrightarrow> overdue (site_cron st) now a \<Longrightarrow> s_task_name a \<noteq> s_task_name b \<and>
       at_key s_task_name (s_task_name a) (task_schedules d) = Some (set_missed eng now a)"
proof -
  let ?cr = "site_cron st" and ?k = "s_task_name b"
  let ?pre = "map (cand_of ?cr) (filter (watched ?cr) earlier)"
  let ?d1 = "(w_db w)\<lparr>stmts := Suc (stmts (w_db w))\<rparr>"
  let ?p = "\<lambda>x. s_task_name x = ?k \<and> s_status x = ScheduleStatusOK"
  have perm: "mset (earlier @ b # later) = mset (task_schedules (w_db w))"
    using assms(2) scan by (metis engine_ok_def)
  have mem: "set (earlier @ b # later) = set (task_schedules (w_db w))"
    using perm by (rule mset_eq_setD)
  have apart: "a \<in> set earlier \<Longrightarrow> s_task_name a \<noteq> ?k" for a
    using mset_eq_distinct_map[OF perm k[unfolded keyed_def]] by (auto simp: image_iff)
  have due: "watched ?cr b" "\<not> Before now (c_deadline (cand_of ?cr b))" "s_status b = ScheduleStatusOK"
    using assms(5) by (simp_all add: overdue_watched) (simp add: watched_def)
  have sel: "select_ok_schedules ?cr eng (w_db w) =
      (Inr (?pre @ cand_of ?cr b # map (cand_of ?cr) (filter (watched ?cr) later)), ?d1)"
    using due(1) by (simp add: select_ok_schedules_def Query_no_faults[OF nf] select_as_filter scan)
  obtain acc err d2 where run: "detect_loop eng now [] ?pre ?d1 = ((acc, err), d2)"
    by (metis prod.exhaust)
  have perm1: "mset (earlier @ b # later) = mset (task_schedules ?d1)" and k1: "keyed s_task_name (task_schedules ?d1)"
    using perm k by simp_all
  note prefix = detect_prefix[OF nf k1 perm1 run]
  let ?d3 = "d2\<lparr>task_schedules := upd_where ?p (set_missed eng now) (task_schedules d2), stmts := Suc (stmts d2)\<rparr>"
  have row: "at_key s_task_name ?k (task_schedules d2) = Some b"
    using prefix(3)[of b] mem[symmetric] apart[of b] by auto
  have upd: "Exec eng (missed_stmt eng now (cand_of ?cr b)) d2 =
      (Inr \<lparr>affected = cnt_where ?p (task_schedules d2), affected_err = None\<rparr>, ?d3)"
    by (simp add: missed_stmt_def Exec_update_schedules[OF nf])
  have hit: "fst (RowsAffected \<lparr>affected = cnt_where ?p (task_schedules d2), affected_err = None\<rparr>) \<noteq> 0"
    using due(3) at_key_SomeD[OF row] by (auto simp: RowsAffected_def table_simps)
  have "err = None"
    using prefix(1) by simp
  note half = half_check[OF sel run[unfolded this] due(2) upd hit, of wk "[]"]
  show ?thesis
  proof (rule that)
    show "keyed s_task_name (task_schedules ?d3)"
      using prefix(2) by (simp add: mis.keyed_upd)
    show "at_key s_task_name ?k (task_schedules ?d3) = Some (set_missed eng now b)"
      using row due(3) by (simp add: mis.at_key_point_guarded)
    show "s_task_name a \<noteq> ?k \<and> at_key s_task_name (s_task_name a) (task_schedules ?d3) = Some (set_missed eng now a)"
      if "a \<in> set earlier" "overdue ?cr now a" for a
      using prefix(3)[of a] mem[symmetric] apart[OF that(1)] that by (auto simp: mis.at_key_point_guarded)
  qed (use half in simp)
qed

lemma run_wait_get_deleted:
  assumes "no_faults eng" and "b \<notin> s_task_name ` set (task_schedules (w_db w))"
  shows "run (wait_get eng now acc cs b) w = (None, w\<lparr>w_db := (w_db w)\<lparr>stmts := Suc (stmts (w_db w))\<rparr>\<rparr>)"
  using assms(2)
  by (simp add: wait_get_def run_bind run_db_def ScheduleGet_no_faults[OF assms(1)] at_key_None[THEN iffD2]
      after_detect_def silent_def)

lemma HandleDelete_stored:
  assumes "no_faults eng" and "at_key s_task_name k (task_schedules (w_db w)) = Some r"
  shows "HandleDelete eng k w =
    (reply 204 NoBody, w\<lparr>w_db := (w_db w)\<lparr>
       task_schedules := del_where (\<lambda>x. s_task_name x = k) (task_schedules (w_db w)),
       stmts := Suc (stmts (w_db w))\<rparr>\<rparr>)"
proof -
  have "cnt_where (\<lambda>x. s_task_name x = k) (task_schedules (w_db w)) \<noteq> 0"
    using at_key_SomeD[OF assms(2)] by (auto simp: table_simps)
  then show ?thesis
    by (simp add: HandleDelete_def run_db_def ScheduleDelete_def Exec_no_faults[OF assms(1)] delete_schedules_def
        checkRowsAffected_def RowsAffected_def)
qed

lemma missed_not_returned:
  assumes "no_faults eng" and "engine_ok eng" and "keyed s_task_name (task_schedules d)"
    and "at_key s_task_name k (task_schedules d) = Some (set_missed e now r)"
  shows "k \<notin> sched_TaskName ` set (fst (fst (DetectMissed cr eng at d)))"
proof
  assume "k \<in> sched_TaskName ` set (fst (fst (DetectMissed cr eng at d)))"
  then obtain x where x: "x \<in> set (scan_schedules eng (Suc (stmts d)) (task_schedules d))" "overdue cr at x"
    "s_task_name x = k"
    by (auto simp: DetectMissed_no_faults(1)[OF assms(1-3)] scanSchedule_def set_missed_def)
  have "x \<in> set (task_schedules d)"
    using x(1) assms(2) by (metis engine_ok_def mset_eq_setD)
  then have "x = set_missed e now r"
    using at_key_mem[OF assms(3), of x] x(3) assms(4) by simp
  then show False
    using x(2) by simp
qed

section \<open>A sweep whose candidates have grown stale\<close>

text \<open>
  Between the \<open>SELECT\<close> of a sweep and its updates the table may change. On whatever table the loop
  then runs, its effect is that of the guarded point updates.
\<close>

lemma sweep_loop_rows:
  assumes nf: "no_faults eng"
  shows "keyed r_run_id (task_runs d) \<Longrightarrow>
    task_runs (snd (sweep_loop eng now acc cs d)) =
      point_loop r_run_id (\<lambda>r. r_status r = StatusRunning) c_runID (\<lambda>c. \<not> within_ttl now c)
        (set_timeout eng now) cs (task_runs d)"
proof (induction cs arbitrary: acc d)
  case Nil
  then show ?case by simp
next
  case (Cons c cs)
  let ?p = "\<lambda>r. r_run_id r = c_runID c \<and> r_status r = StatusRunning"
  let ?rows = "upd_where ?p (set_timeout eng now c) (task_runs d)"
  have keyed: "keyed r_run_id ?rows"
    using Cons.prems by (rule tmo.keyed_upd)
  have found: "at_key r_run_id (c_runID c) ?rows \<noteq> None" if hit: "cnt_where ?p (task_runs d) \<noteq> 0"
  proof -
    obtain r where "r \<in> set (task_runs d)" "r_run_id r = c_runID c"
      using hit by (metis (mono_tags, lifting) cnt_where_0)
    then have "c_runID c \<in> set (map r_run_id ?rows)"
      unfolding tmo.map_key_upd set_map by (metis image_eqI)
    then show ?thesis by (simp add: at_key_None)
  qed
  show ?case
    using Cons.IH Cons.prems keyed found
    by (auto simp: timeout_stmt_def Exec_update_runs[OF nf] RowsAffected_def TaskGet_no_faults[OF nf]
        split: option.split)
qed

lemma stale_sweep:
  assumes "no_faults eng" and "engine_ok eng" and "runs_ok (task_runs d)"
    and "at_key r_run_id k (task_runs d) = Some r" and "expired now r"
    and "select_candidates eng d = (Inr cs, d1)"
    and "Heartbeat eng k beat d1 = (res, d2)" and "task_runs d3 = task_runs d2"
  shows "res = Inr () \<and>
    at_key r_run_id k (task_runs d2) = Some (set_heartbeat eng beat r) \<and>
    at_key r_run_id k (task_runs (snd (sweep_loop eng now [] cs d3))) =
      Some (set_timeout eng now (scan_candidate r) (set_heartbeat eng beat r))"
proof -
  let ?live = "\<lambda>r. r_status r = StatusRunning"
  have k: "keyed r_run_id (task_runs d)" and r: "r \<in> set (task_runs d)" "r_run_id r = k"
    and live: "?live r" "has_ttl r"
    using assms(3-5) by (auto simp: runs_ok_def expired_def has_ttl_def dest: at_key_SomeD)
  have d1: "task_runs d1 = task_runs d"
    and cs: "cs = map scan_candidate (filter has_ttl (scan_runs eng (Suc (stmts d)) (task_runs d)))"
    using assms(6) by (auto simp: select_candidates_def Query_no_faults[OF assms(1)])
  have perm: "mset (scan_runs eng (Suc (stmts d)) (task_runs d)) = mset (task_runs d)"
    using assms(2) by (simp add: engine_ok_def)
  have beat: "res = Inr ()"
    and rows: "task_runs d2 = upd_where (\<lambda>r. r_run_id r = k \<and> ?live r) (set_heartbeat eng beat) (task_runs d)"
    using assms(7) k live(1) assms(4) by (auto simp: Heartbeat_no_faults[OF assms(1)] d1)
  have row: "at_key r_run_id k (task_runs d2) = Some (set_heartbeat eng beat r)"
    using assms(4) live(1) by (simp add: rows hb.at_key_point_guarded)
  have "keyed r_run_id (task_runs d3)"
    using k by (simp add: assms(8) rows hb.keyed_upd)
  note loop = sweep_loop_rows[OF assms(1) this, of now "[]" cs, unfolded sweep.point_loop_as_map]
  have "List.find (\<lambda>c. c_runID c = k \<and> \<not> within_ttl now c) cs = Some (scan_candidate r)"
    using sweep.find_candidate[OF cs perm _ k r(1), where now = now] r(2) assms(5) live
    by (simp add: expired_def)
  then have "at_key r_run_id k (task_runs (snd (sweep_loop eng now [] cs d3))) =
      Some (set_timeout eng now (scan_candidate r) (set_heartbeat eng beat r))"
    using row live(1) r(2) unfolding loop assms(8)
    by (subst at_key_map) (auto simp: set_timeout_def set_heartbeat_def split: option.split)
  with beat row show ?thesis by blast
qed

lemma run_after_select:
  "task_runs (w_db (snd (run (after_select eng now (Inr cs)) w))) =
     task_runs (snd (sweep_loop eng now [] cs (w_db w)))"
  by (simp add: after_select_def run_bind run_sweep_loopP run_announce_all split_beta publish_each_fields
      split: option.split)

section \<open>A success during a sweep\<close>

text \<open>A tick of the sweeper that has marked the run \<open>k\<close> and has not yet read it back.\<close>

definition wait_read :: "engine \<Rightarrow> string \<Rightarrow> response option prog" where
  "wait_read eng k =
     bind (sql (TaskGet eng k))
       (\<lambda>got. silent (case got of Inl err \<Rightarrow> Ret () | Inr task \<Rightarrow> announce EventTimeout task))"

lemma bind_Ret: "bind p Ret = p"
  by (induction p rule: prog_induct) (simp_all add: fun_eq_iff map_prod_def split_beta)

lemma half_marked:
  assumes "select_candidates eng (w_db w) = (Inr [c], d1)" and "\<not> within_ttl now c"
    and "Exec eng (timeout_stmt eng now c) d1 = (Inr n, d2)" and "fst (RowsAffected n) \<noteq> 0"
  shows "(conc_step st wk)\<^sup>*\<^sup>* \<lparr>mc_world = w, mc_threads = [], mc_answers = out\<rparr>
     \<lparr>mc_world = w\<lparr>w_db := d2\<rparr>, mc_threads = [wait_read eng (c_runID c)], mc_answers = out\<rparr>"
proof -
  let ?s = "\<lambda>d p. \<lparr>mc_world = w\<lparr>w_db := d\<rparr>, mc_threads = [p], mc_answers = out\<rparr>"
  have "(conc_step st wk)\<^sup>*\<^sup>* \<lparr>mc_world = w, mc_threads = [], mc_answers = out\<rparr>
      (?s d1 (silent (after_select eng now (Inr [c]))))"
    using half_sweep[of st wk w "[]" out eng now] by (simp add: assms(1) run_db_def)
  also have "silent (after_select eng now (Inr [c])) =
      bind (sql (Exec eng (timeout_stmt eng now c)))
        (\<lambda>res. case res of Inl err \<Rightarrow> Ret None
           | Inr n \<Rightarrow> if fst (RowsAffected n) = 0 then Ret None else wait_read eng (c_runID c))"
    using assms(2)
    by (auto simp: after_select_def silent_def wait_read_def bind_bind bind_Ret
        intro!: arg_cong2[where f = bind] ext split: sum.split)
  also have "(conc_step st wk)\<^sup>*\<^sup>* (?s d1 \<dots>) (?s d2 (wait_read eng (c_runID c)))"
    using runs_first_part_sql[of "Exec eng (timeout_stmt eng now c)" "w\<lparr>w_db := d1\<rparr>" "Inr n" d2
        "\<lambda>res. case res of Inl err \<Rightarrow> Ret None
           | Inr n \<Rightarrow> if fst (RowsAffected n) = 0 then Ret None else wait_read eng (c_runID c)"] assms(3,4)
    by simp
  finally show ?thesis .
qed

lemma sweep_midway:
  assumes nf: "no_faults eng" and "engine_ok eng" and k: "keyed r_run_id (task_runs (w_db w))"
    and only: "filter has_ttl (task_runs (w_db w)) = [r]" and "expired now r"
  obtains d where
    "(conc_step st wk)\<^sup>*\<^sup>* \<lparr>mc_world = w, mc_threads = [], mc_answers = []\<rparr>
       \<lparr>mc_world = w\<lparr>w_db := d\<rparr>, mc_threads = [wait_read eng (r_run_id r)], mc_answers = []\<rparr>"
    and "keyed r_run_id (task_runs d)"
    and "at_key r_run_id (r_run_id r) (task_runs d) = Some (set_timeout eng now (scan_candidate r) r)"
proof -
  let ?c = "scan_candidate r" and ?d1 = "(w_db w)\<lparr>stmts := Suc (stmts (w_db w))\<rparr>"
  let ?p = "\<lambda>x. r_run_id x = r_run_id r \<and> r_status x = StatusRunning"
  let ?rows = "upd_where ?p (set_timeout eng now ?c) (task_runs (w_db w))"
  have r: "r \<in> set (task_runs (w_db w))" "r_status r = StatusRunning" "\<not> within_ttl now ?c"
    using only assms(5) by (auto simp: expired_def has_ttl_def filter_eq_Cons_iff)
  have "mset (filter has_ttl (scan_runs eng (Suc (stmts (w_db w))) (task_runs (w_db w)))) =
      mset (filter has_ttl (task_runs (w_db w)))"
    using assms(2) by (simp only: engine_ok_def mset_filter)
  then have "filter has_ttl (scan_runs eng (Suc (stmts (w_db w))) (task_runs (w_db w))) = [r]"
    by (simp only: only mset.simps mset_single_iff)
  then have sel: "select_candidates eng (w_db w) = (Inr [?c], ?d1)"
    by (simp add: select_candidates_def Query_no_faults[OF nf])
  have upd: "Exec eng (timeout_stmt eng now ?c) ?d1 =
      (Inr \<lparr>affected = cnt_where ?p (task_runs (w_db w)), affected_err = None\<rparr>,
       ?d1\<lparr>task_runs := ?rows, stmts := Suc (stmts ?d1)\<rparr>)"
    by (simp add: timeout_stmt_def Exec_update_runs[OF nf] scan_candidate_def)
  have hit: "fst (RowsAffected \<lparr>affected = cnt_where ?p (task_runs (w_db w)), affected_err = None\<rparr>) \<noteq> 0"
    using r by (auto simp: RowsAffected_def table_simps)
  show ?thesis
  proof (rule that)
    show "keyed r_run_id (task_runs (?d1\<lparr>task_runs := ?rows, stmts := Suc (stmts ?d1)\<rparr>))"
      using k by (simp add: tmo.keyed_upd)
    show "at_key r_run_id (r_run_id r) (task_runs (?d1\<lparr>task_runs := ?rows, stmts := Suc (stmts ?d1)\<rparr>)) =
        Some (set_timeout eng now ?c r)"
      using at_key_mem[OF k r(1)] r(2) by (simp add: tmo.at_key_point_guarded)
  qed (use half_marked[OF sel r(3) upd hit] in \<open>simp add: scan_candidate_def\<close>)
qed

lemma lying_hub:
  assumes "buf (chans h ch) = [e, \<lparr>evt_Type = EventTimeout, evt_Task = scanTaskRun r\<rparr>]" and "r_status r = StatusSuccess"
  shows "\<not> hub_tells h"
proof
  assume "hub_tells h"
  then have "\<forall>x\<in>set (buf (chans h ch)). coherent x"
    unfolding hub_tells_def by blast
  then show False
    using assms by (simp add: coherent_def scanTaskRun_def)
qed

section \<open>Properties\<close>

text \<open>For the witnesses: sites whose router knows one route, and two schedules that are overdue.\<close>

definition sample_succeeding :: site where
  "sample_succeeding = sample_site\<lparr>site_apiKey := [], lookup := (\<lambda>rs m p. Some (EventsSuccess, []))\<rparr>"

definition sample_deleting :: site where
  "sample_deleting = sample_site\<lparr>site_apiKey := [], lookup := (\<lambda>rs m p. Some (SchedulesDelete, ''other''))\<rparr>"

definition two_overdue :: world where
  "two_overdue =
     \<lparr>w_db = sample_db\<lparr>task_schedules := [sample_sched None, (sample_sched None)\<lparr>s_task_name := ''other''\<rparr>]\<rparr>,
      w_hub = snd (Subscribe NewHub)\<rparr>"







end
