(* ===== verification/DemoWorker.thy ===== *)
theory DemoWorker
  imports RunHistory Config
begin

text \<open>
  \<open>cmd/demo-worker/main.go\<close>: the fake job runner that reports its tasks over HTTP. What it does
  outside is the parameter \<open>outside\<close>: one HTTP exchange (a transport error, or a status and a
  body) and the passing of time. The draws of \<open>math/rand\<close> of one task are the argument
  \<open>draws\<close>, in the range of their \<open>rand.Intn\<close>; a log line is a constructor of \<open>demo_log\<close>.
  \<open>local_server\<close> is the other end: the modelled server, with a clock.
\<close>

record demo_config =
  baseURL :: string
  demo_apiKey :: string

definition demo_getEnv :: "(string \<Rightarrow> string) \<Rightarrow> string \<Rightarrow> string \<Rightarrow> string" where
  "demo_getEnv env key fallback = (let v = env key in if v \<noteq> '''' then v else fallback)"

definition demo_vars :: "(string \<Rightarrow> string) \<Rightarrow> demo_config" where
  "demo_vars env =
     \<lparr>baseURL = demo_getEnv env ''CHRONOS_BASE_URL'' ''http://localhost:8080'',
      demo_apiKey = demo_getEnv env ''CHRONOS_API_KEY'' ''''\<rparr>"

definition taskNames :: "string list" where
  "taskNames = [''nightly-backup'', ''invoice-sync'', ''email-digest'', ''report-export'']"

record outgoing =
  out_method :: string
  out_url :: string
  out_headers :: "(string \<times> string) list"
  out_body :: string

record 'w outside =
  do_request :: "outgoing \<Rightarrow> 'w \<Rightarrow> (string + (nat \<times> string)) \<times> 'w"
  pause :: "duration \<Rightarrow> 'w \<Rightarrow> 'w"

datatype demo_error = TransportError string | UnexpectedStatus string nat | BadResponse

record draws =
  draw_name :: nat
  draw_ttl :: nat
  draw_outcome :: nat

datatype demo_log =
    LogStartFailed string demo_error
  | LogStarted string string
  | LogStuck string
  | LogFailError string demo_error
  | LogFailed string string
  | LogBeatError string demo_error
  | LogSuccessError string demo_error
  | LogSucceeded string string

section \<open>The requests\<close>

definition postJSON ::
  "demo_config \<Rightarrow> 'w outside \<Rightarrow> string \<Rightarrow> json \<Rightarrow> 'w \<Rightarrow> (demo_error + string) \<times> 'w"
where
  "postJSON cfg out path body w =
     (let req = \<lparr>out_method = ''POST'', out_url = baseURL cfg @ path,
                 out_headers = (''Content-Type'', ''application/json'') #
                   (if demo_apiKey cfg \<noteq> '''' then [(''Authorization'', ''Bearer '' @ demo_apiKey cfg)] else []),
                 out_body = render body\<rparr>
      in case do_request out req w of
           (Inl err, w1) \<Rightarrow> (Inl (TransportError err), w1)
         | (Inr (status, content), w1) \<Rightarrow>
             if 300 \<le> status then (Inl (UnexpectedStatus path status), w1) else (Inr content, w1))"

definition demo_start ::
  "demo_config \<Rightarrow> 'w outside \<Rightarrow> string \<Rightarrow> nat \<Rightarrow> 'w \<Rightarrow> (demo_error + string) \<times> 'w"
where
  "demo_start cfg out taskName draw w =
     (let body = JObject ([(''source'', JString ''demo-go-worker''), (''task_name'', JString taskName)] @
                          (if draw = 0 then [(''ttl_seconds'', JNumber ''3'')] else []))
      in case postJSON cfg out ''/api/v1/events/start'' body w of
           (Inl err, w1) \<Rightarrow> (Inl err, w1)
         | (Inr content, w1) \<Rightarrow>
             (case Decode [(''run_id'', put_string (\<lambda>s r. s))] '''' content of
                None \<Rightarrow> (Inl BadResponse, w1)
              | Some runID \<Rightarrow> (Inr runID, w1)))"

definition demo_heartbeat :: "demo_config \<Rightarrow> 'w outside \<Rightarrow> string \<Rightarrow> 'w \<Rightarrow> (demo_error + string) \<times> 'w" where
  "demo_heartbeat cfg out runID w =
     postJSON cfg out ''/api/v1/events/heartbeat'' (JObject [(''run_id'', JString runID)]) w"

definition demo_succeed :: "demo_config \<Rightarrow> 'w outside \<Rightarrow> string \<Rightarrow> 'w \<Rightarrow> (demo_error + string) \<times> 'w" where
  "demo_succeed cfg out runID w =
     postJSON cfg out ''/api/v1/events/success'' (JObject [(''run_id'', JString runID)]) w"

definition demo_fail ::
  "demo_config \<Rightarrow> 'w outside \<Rightarrow> string \<Rightarrow> string \<Rightarrow> 'w \<Rightarrow> (demo_error + string) \<times> 'w"
where
  "demo_fail cfg out runID errMsg w =
     postJSON cfg out ''/api/v1/events/failed''
       (JObject [(''error_message'', JString errMsg), (''run_id'', JString runID)]) w"

section \<open>One task\<close>

definition Millisecond :: duration where "Millisecond = 1000000"

definition demo_traceback :: string where
  "demo_traceback = ''Traceback (most recent call last):'' @ [CHR 0x0A] @ ''  connection refused to db:5432''"

fun demo_heartbeats ::
  "demo_config \<Rightarrow> 'w outside \<Rightarrow> string \<Rightarrow> string \<Rightarrow> nat \<Rightarrow> 'w \<Rightarrow> demo_log list \<times> 'w"
where
  "demo_heartbeats cfg out name runID 0 w = ([], w)"
| "demo_heartbeats cfg out name runID (Suc n) w =
     (let w1 = pause out (300 * Millisecond) w;
          (r, w2) = demo_heartbeat cfg out runID w1;
          (logs, w3) = demo_heartbeats cfg out name runID n w2
      in ((case r of Inl err \<Rightarrow> [LogBeatError name err] | Inr _ \<Rightarrow> []) @ logs, w3))"

definition runDemoTask :: "demo_config \<Rightarrow> 'w outside \<Rightarrow> draws \<Rightarrow> 'w \<Rightarrow> demo_log list \<times> 'w" where
  "runDemoTask cfg out dr w =
     (let name = taskNames ! draw_name dr in
      case demo_start cfg out name (draw_ttl dr) w of
        (Inl err, w1) \<Rightarrow> ([LogStartFailed name err], w1)
      | (Inr runID, w1) \<Rightarrow>
          (let (logs, w9) =
             (if draw_outcome dr = 0 then ([LogStuck name], w1)
              else if draw_outcome dr = 1 \<or> draw_outcome dr = 2 then
                (case demo_fail cfg out runID demo_traceback (pause out (400 * Millisecond) w1) of
                   (Inl err, w2) \<Rightarrow> ([LogFailError name err], w2)
                 | (Inr _, w2) \<Rightarrow> ([LogFailed name runID], w2))
              else
                (let (beats, w2) = demo_heartbeats cfg out name runID 2 w1 in
                 case demo_succeed cfg out runID (pause out (300 * Millisecond) w2) of
                   (Inl err, w3) \<Rightarrow> (beats @ [LogSuccessError name err], w3)
                 | (Inr _, w3) \<Rightarrow> (beats @ [LogSucceeded name runID], w3)))
           in (LogStarted name runID # logs, w9)))"

text \<open>The endless loop of \<open>main\<close>, for as many tasks as there are draws.\<close>

fun demo_main :: "demo_config \<Rightarrow> 'w outside \<Rightarrow> draws list \<Rightarrow> 'w \<Rightarrow> demo_log list \<times> 'w" where
  "demo_main cfg out [] w = ([], w)"
| "demo_main cfg out (dr # drs) w =
     (let (logs, w1) = runDemoTask cfg out dr w;
          (more, w2) = demo_main cfg out drs (pause out (3 * Second) w1)
      in (logs @ more, w2))"

section \<open>Against the server\<close>

text \<open>
  The server at \<open>baseURL\<close>, with a clock that only the pauses of the worker advance; \<open>uuid\<close> is the
  identifier a start without one gets.
\<close>

definition local_server ::
  "site \<Rightarrow> engine \<Rightarrow> (time \<Rightarrow> int) \<Rightarrow> demo_config \<Rightarrow> string \<Rightarrow> (time \<times> world) outside"
where
  "local_server st eng tz cfg uuid =
     \<lparr>do_request = (\<lambda>q (t, w).
        let (r, w1) = ServeHTTP st \<lparr>m_engine = eng, m_now = t, m_uuid = uuid\<rparr>
              \<lparr>q_method = out_method q, q_path = TrimPrefix (out_url q) (baseURL cfg),
               q_authorization = (case map_of (out_headers q) ''Authorization'' of None \<Rightarrow> '''' | Some a \<Rightarrow> a),
               q_token = '''', q_status = '''', q_body = out_body q\<rparr> w
        in (Inr (code r, (case payload_json tz (payload r) of None \<Rightarrow> '''' | Some j \<Rightarrow> render j)), (t, w1))),
      pause = (\<lambda>d (t, w). (Add t d, w))\<rparr>"

text \<open>The router finds every route without a parameter, and only the key of the site is needed.\<close>

definition static_routes :: "site \<Rightarrow> bool" where
  "static_routes st \<longleftrightarrow>
     (\<forall>(m, p, e)\<in>set route_table. CHR '':'' \<notin> set p \<longrightarrow> lookup st route_table m p = Some (e, ''''))"

lemma event_routes:
  assumes "static_routes st"
  shows "lookup st route_table ''POST'' ''/api/v1/events/start'' = Some (EventsStart, '''')"
    and "lookup st route_table ''POST'' ''/api/v1/events/heartbeat'' = Some (EventsHeartbeat, '''')"
    and "lookup st route_table ''POST'' ''/api/v1/events/success'' = Some (EventsSuccess, '''')"
    and "lookup st route_table ''POST'' ''/api/v1/events/failed'' = Some (EventsFailed, '''')"
  using assms by (auto simp: static_routes_def route_table_def api_routes_def grouped_def)

lemma post_served:
  assumes "lookup st route_table ''POST'' path = Some (e, '''')" and "demo_apiKey cfg = site_apiKey st"
    and "\<And>q. q_body q = render body \<Longrightarrow>
      run_endpoint st \<lparr>m_engine = eng, m_now = t, m_uuid = uuid\<rparr> e '''' q w = (reply n b, w1)"
    and "n < 300"
  shows "postJSON cfg (local_server st eng tz cfg uuid) path body (t, w) =
    (Inr (case payload_json tz b of None \<Rightarrow> '''' | Some j \<Rightarrow> render j), (t, w1))"
  using assms(1,2,4) assms(3) TrimPrefix_append[of "''Bearer ''" "site_apiKey st"]
  by (auto simp: postJSON_def local_server_def Let_def ServeHTTP_def requireAPIKey_cases bearerToken_def
      HasPrefix_iff)

section \<open>What the reports do to the stored run\<close>

lemma start_stored:
  assumes "no_faults eng" and "bind_start g raw = Inr req" and "start_RunID req = ''''"
    and "uuid \<notin> r_run_id ` set (task_runs (w_db w))" and "world_ok w"
  obtains w1 where "HandleStart g eng t uuid raw w = (reply 201 (JRunID uuid), w1)" and "world_ok w1"
    and "at_key r_run_id uuid (task_runs (w_db w1)) = Some (new_run_row eng (started_task req uuid t))"
proof -
  let ?t = "started_task req uuid t" and ?w1 = "snd (HandleStart g eng t uuid raw w)"
  have id: "RunID ?t = uuid" "chosen_run_id req uuid = uuid"
    using assms(3) by (simp_all add: started_task_def chosen_run_id_def)
  then have fresh: "RunID ?t \<notin> r_run_id ` set (task_runs (w_db w))"
    using assms(4) by simp
  have "fst (Create eng ?t (w_db w)) = Inr ()"
    by (rule create_fresh(1)[OF assms(1) fresh])
  then have "run_db (Create eng ?t) w = (Inr (), w\<lparr>w_db := snd (Create eng ?t (w_db w))\<rparr>)"
    by (simp add: run_db_def Let_def split_beta)
  then have "HandleStart g eng t uuid raw w = (reply 201 (JRunID uuid), ?w1)"
    and rows: "task_runs (w_db ?w1) = task_runs (w_db w) @ [new_run_row eng ?t]"
    using HandleStart_created[OF assms(2), of eng uuid t w] id create_fresh(2)[OF assms(1) fresh] by auto
  moreover have "world_ok ?w1"
    using assms(5) by (rule world_ok_HandleStart)
  moreover have "at_key r_run_id uuid (task_runs (w_db w)) = None"
    using assms(4) by (simp add: at_key_None)
  then have "at_key r_run_id uuid (task_runs (w_db ?w1)) = Some (new_run_row eng ?t)"
    using id by (simp add: rows at_key_append new_run_row_def)
  ultimately show thesis
    using that by blast
qed

lemma beat_stored:
  assumes "no_faults eng" and "bind_heartbeat g raw = Inr \<lparr>heartbeat_RunID = k\<rparr>" and "world_ok w"
    and "at_key r_run_id k (task_runs (w_db w)) = Some r" and "r_status r = StatusRunning"
  obtains w1 where "HandleHeartbeat g eng t raw w = (reply 204 NoBody, w1)" and "world_ok w1"
    and "at_key r_run_id k (task_runs (w_db w1)) = Some (set_heartbeat eng t r)"
proof -
  let ?w1 = "snd (HandleHeartbeat g eng t raw w)"
  have k: "keyed r_run_id (task_runs (w_db w))"
    using assms(3) by (simp add: world_ok_def runs_ok_def)
  note beat = Heartbeat_no_faults[OF assms(1) k, of k t]
  have "HandleHeartbeat g eng t raw w = (reply 204 NoBody, ?w1)"
    using assms(4,5) by (simp add: HandleHeartbeat_def assms(2) run_db_def beat)
  moreover have "at_key r_run_id k (task_runs (w_db ?w1)) = Some (set_heartbeat eng t r)"
    using assms(4,5) by (simp add: HandleHeartbeat_def assms(2) run_db_def beat hb.at_key_point_guarded)
  ultimately show thesis
    using that world_ok_HandleHeartbeat[OF assms(3)] by blast
qed

lemma finish_stored:
  assumes "no_faults eng" and "world_ok w" and "at_key r_run_id k (task_runs (w_db w)) = Some r"
  shows "bind_success g raw = Inr \<lparr>success_RunID = k\<rparr> \<Longrightarrow>
      \<exists>w1. HandleSuccess g eng t raw w = (reply 204 NoBody, w1) \<and> world_ok w1 \<and>
        at_key r_run_id k (task_runs (w_db w1)) =
          Some (set_finished eng (StatusSuccess, t, Milliseconds (Sub t (r_started_at r)), '''') r)"
    and "bind_failed g raw = Inr \<lparr>failed_RunID = k, failed_ErrorMessage = msg\<rparr> \<Longrightarrow>
      \<exists>w1. HandleFailed g eng t raw w = (reply 204 NoBody, w1) \<and> world_ok w1 \<and>
        at_key r_run_id k (task_runs (w_db w1)) =
          Some (set_finished eng (StatusFailed, t, Milliseconds (Sub t (r_started_at r)), msg) r)"
proof -
  note fin = Finish_no_faults[OF assms(1), of k]
  have point: "at_key r_run_id k (upd_where (\<lambda>r. r_run_id r = k) (set_finished eng u) (task_runs (w_db w))) =
      Some (set_finished eng u r)" for u
    using assms(3) by (simp add: fin.at_key_point)
  show "\<exists>w1. HandleSuccess g eng t raw w = (reply 204 NoBody, w1) \<and> world_ok w1 \<and>
        at_key r_run_id k (task_runs (w_db w1)) =
          Some (set_finished eng (StatusSuccess, t, Milliseconds (Sub t (r_started_at r)), '''') r)"
    if "bind_success g raw = Inr \<lparr>success_RunID = k\<rparr>"
    using world_ok_HandleSuccess[OF assms(2), of g eng t raw] assms(3) point
    by (intro exI[of _ "snd (HandleSuccess g eng t raw w)"]) (simp add: HandleSuccess_def that run_db_def fin)
  show "\<exists>w1. HandleFailed g eng t raw w = (reply 204 NoBody, w1) \<and> world_ok w1 \<and>
        at_key r_run_id k (task_runs (w_db w1)) =
          Some (set_finished eng (StatusFailed, t, Milliseconds (Sub t (r_started_at r)), msg) r)"
    if "bind_failed g raw = Inr \<lparr>failed_RunID = k, failed_ErrorMessage = msg\<rparr>"
    using world_ok_HandleFailed[OF assms(2), of g eng t raw] assms(3) point
    by (intro exI[of _ "snd (HandleFailed g eng t raw w)"]) (simp add: HandleFailed_def that run_db_def fin)
qed

section \<open>The bodies of the worker\<close>

abbreviation run_id_json :: "string \<Rightarrow> json" where
  "run_id_json k \<equiv> JObject [(''run_id'', JString k)]"

definition demo_request :: "string \<Rightarrow> nat \<Rightarrow> StartRequest" where
  "demo_request name draw =
     \<lparr>start_TaskName = name, start_RunID = '''', start_Source = ''demo-go-worker'',
      start_TTLSeconds = (if draw = 0 then Some 3 else None)\<rparr>"

lemma demo_start_binds:
  assumes "name \<in> set taskNames"
  shows "bind_start g (render (JObject ([(''source'', JString ''demo-go-worker''), (''task_name'', JString name)] @
      (if draw = 0 then [(''ttl_seconds'', JNumber ''3'')] else [])))) = Inr (demo_request name draw)"
proof -
  have "integer_literal ''3'' \<and> Atoi ''3'' = Some 3"
    by code_simp
  moreover have "valid_utf8 name" "name \<noteq> []"
    using assms by (auto simp: taskNames_def utf8_intros)
  ultimately show ?thesis
    unfolding bind_start_def decode_start_def
    by (cases "draw = 0"; subst Decode_render; simp add: utf8_intros field_defs required_def demo_request_def)
qed

lemma valid_traceback: "valid_utf8 demo_traceback"
  by (simp add: demo_traceback_def valid_utf8_ascii is_ascii_def)

lemma demo_reports_bind:
  assumes "valid_utf8 k" and "k \<noteq> ''''"
  shows "bind_heartbeat g (render (run_id_json k)) = Inr \<lparr>heartbeat_RunID = k\<rparr>"
    and "bind_success g (render (run_id_json k)) = Inr \<lparr>success_RunID = k\<rparr>"
    and "bind_failed g (render (JObject [(''error_message'', JString demo_traceback), (''run_id'', JString k)])) =
      Inr \<lparr>failed_RunID = k, failed_ErrorMessage = demo_traceback\<rparr>"
    and "Decode [(''run_id'', put_string (\<lambda>s r. s))] '''' (render (run_id_json k)) = Some k"
proof -
  show "bind_heartbeat g (render (run_id_json k)) = Inr \<lparr>heartbeat_RunID = k\<rparr>"
    "bind_success g (render (run_id_json k)) = Inr \<lparr>success_RunID = k\<rparr>"
    using assms(2) unfolding bind_heartbeat_def bind_success_def decode_run_id[OF assms(1)]
    by (simp_all add: required_def)
  show "bind_failed g (render (JObject [(''error_message'', JString demo_traceback), (''run_id'', JString k)])) =
      Inr \<lparr>failed_RunID = k, failed_ErrorMessage = demo_traceback\<rparr>"
    using assms valid_traceback unfolding bind_failed_def decode_failed_def
    by (subst Decode_render; simp add: utf8_intros field_defs required_def)
  show "Decode [(''run_id'', put_string (\<lambda>s r. s))] '''' (render (run_id_json k)) = Some k"
    using assms by (subst Decode_render; simp add: utf8_intros field_defs)
qed

section \<open>The reports arrive\<close>

text \<open>A worker with the right key and a server without faults that hands out the fresh id \<open>uuid\<close>.\<close>

definition demo_setting :: "site \<Rightarrow> engine \<Rightarrow> demo_config \<Rightarrow> string \<Rightarrow> bool" where
  "demo_setting st eng cfg uuid \<longleftrightarrow>
     no_faults eng \<and> static_routes st \<and> demo_apiKey cfg = site_apiKey st \<and> valid_utf8 uuid \<and> uuid \<noteq> ''''"

lemma demo_start_ok:
  assumes "demo_setting st eng cfg uuid" and "name \<in> set taskNames" and "world_ok w"
    and "uuid \<notin> r_run_id ` set (task_runs (w_db w))"
  obtains w1 where "demo_start cfg (local_server st eng tz cfg uuid) name draw (t, w) = (Inr uuid, (t, w1))"
    and "world_ok w1"
    and "at_key r_run_id uuid (task_runs (w_db w1)) =
      Some (new_run_row eng (started_task (demo_request name draw) uuid t))"
proof -
  have setting: "no_faults eng" "static_routes st" "demo_apiKey cfg = site_apiKey st" "valid_utf8 uuid" "uuid \<noteq> ''''"
    using assms(1) by (simp_all add: demo_setting_def)
  let ?body = "JObject ([(''source'', JString ''demo-go-worker''), (''task_name'', JString name)] @
      (if draw = 0 then [(''ttl_seconds'', JNumber ''3'')] else []))"
  obtain w1 where w1: "HandleStart (site_gin st) eng t uuid (render ?body) w = (reply 201 (JRunID uuid), w1)"
    "world_ok w1" "at_key r_run_id uuid (task_runs (w_db w1)) =
      Some (new_run_row eng (started_task (demo_request name draw) uuid t))"
    using start_stored[OF setting(1) demo_start_binds[OF assms(2), of "site_gin st" draw] _ assms(4,3), of t]
    by (auto simp: demo_request_def)
  have "postJSON cfg (local_server st eng tz cfg uuid) ''/api/v1/events/start'' ?body (t, w) =
      (Inr (render (run_id_json uuid)), (t, w1))"
    using post_served[OF event_routes(1)[OF setting(2)] setting(3), of ?body eng t uuid w 201 "JRunID uuid" w1 tz] w1(1)
    by (simp add: run_endpoint_def payload_json_def)
  then have "demo_start cfg (local_server st eng tz cfg uuid) name draw (t, w) = (Inr uuid, (t, w1))"
    using demo_reports_bind(4)[OF setting(4,5)] by (simp add: demo_start_def Let_def)
  with w1 show thesis
    using that by blast
qed

lemma demo_heartbeat_ok:
  assumes "demo_setting st eng cfg uuid" and "world_ok w"
    and "at_key r_run_id uuid (task_runs (w_db w)) = Some r" and "r_status r = StatusRunning"
  obtains w1 where "demo_heartbeat cfg (local_server st eng tz cfg uuid) uuid (t, w) = (Inr '''', (t, w1))"
    and "world_ok w1" and "at_key r_run_id uuid (task_runs (w_db w1)) = Some (set_heartbeat eng t r)"
proof -
  have setting: "no_faults eng" "static_routes st" "demo_apiKey cfg = site_apiKey st" "valid_utf8 uuid" "uuid \<noteq> ''''"
    using assms(1) by (simp_all add: demo_setting_def)
  obtain w1 where w1: "HandleHeartbeat (site_gin st) eng t (render (run_id_json uuid)) w = (reply 204 NoBody, w1)"
    "world_ok w1" "at_key r_run_id uuid (task_runs (w_db w1)) = Some (set_heartbeat eng t r)"
    using beat_stored[OF setting(1) demo_reports_bind(1)[OF setting(4,5)] assms(2-4)] by blast
  have "demo_heartbeat cfg (local_server st eng tz cfg uuid) uuid (t, w) = (Inr '''', (t, w1))"
    unfolding demo_heartbeat_def
    using post_served[OF event_routes(2)[OF setting(2)] setting(3), of "run_id_json uuid" eng t uuid w 204 NoBody w1 tz] w1(1)
    by (simp add: run_endpoint_def payload_json_def)
  with w1 show thesis
    using that by blast
qed

lemma demo_finish_ok:
  assumes "demo_setting st eng cfg uuid" and "world_ok w"
    and "at_key r_run_id uuid (task_runs (w_db w)) = Some r"
  shows "\<exists>w1. demo_succeed cfg (local_server st eng tz cfg uuid) uuid (t, w) = (Inr '''', (t, w1)) \<and>
      at_key r_run_id uuid (task_runs (w_db w1)) =
        Some (set_finished eng (StatusSuccess, t, Milliseconds (Sub t (r_started_at r)), '''') r)"
    and "\<exists>w1. demo_fail cfg (local_server st eng tz cfg uuid) uuid demo_traceback (t, w) = (Inr '''', (t, w1)) \<and>
      at_key r_run_id uuid (task_runs (w_db w1)) =
        Some (set_finished eng (StatusFailed, t, Milliseconds (Sub t (r_started_at r)), demo_traceback) r)"
proof -
  have setting: "no_faults eng" "static_routes st" "demo_apiKey cfg = site_apiKey st" "valid_utf8 uuid" "uuid \<noteq> ''''"
    using assms(1) by (simp_all add: demo_setting_def)
  note post = post_served[OF event_routes(3)[OF setting(2)] setting(3)] post_served[OF event_routes(4)[OF setting(2)] setting(3)]
  obtain w1 where "HandleSuccess (site_gin st) eng t (render (run_id_json uuid)) w = (reply 204 NoBody, w1)"
    "at_key r_run_id uuid (task_runs (w_db w1)) =
       Some (set_finished eng (StatusSuccess, t, Milliseconds (Sub t (r_started_at r)), '''') r)"
    using finish_stored(1)[OF setting(1) assms(2,3) demo_reports_bind(2)[OF setting(4,5)]] by blast
  then show "\<exists>w1. demo_succeed cfg (local_server st eng tz cfg uuid) uuid (t, w) = (Inr '''', (t, w1)) \<and>
      at_key r_run_id uuid (task_runs (w_db w1)) =
        Some (set_finished eng (StatusSuccess, t, Milliseconds (Sub t (r_started_at r)), '''') r)"
    using post(1)[of "run_id_json uuid" eng t uuid w 204 NoBody w1 tz]
    by (simp add: demo_succeed_def run_endpoint_def payload_json_def)
  obtain w2 where "HandleFailed (site_gin st) eng t
      (render (JObject [(''error_message'', JString demo_traceback), (''run_id'', JString uuid)])) w = (reply 204 NoBody, w2)"
    "at_key r_run_id uuid (task_runs (w_db w2)) =
       Some (set_finished eng (StatusFailed, t, Milliseconds (Sub t (r_started_at r)), demo_traceback) r)"
    using finish_stored(2)[OF setting(1) assms(2,3) demo_reports_bind(3)[OF setting(4,5)]] by blast
  then show "\<exists>w1. demo_fail cfg (local_server st eng tz cfg uuid) uuid demo_traceback (t, w) = (Inr '''', (t, w1)) \<and>
      at_key r_run_id uuid (task_runs (w_db w1)) =
        Some (set_finished eng (StatusFailed, t, Milliseconds (Sub t (r_started_at r)), demo_traceback) r)"
    using post(2)[of "JObject [(''error_message'', JString demo_traceback), (''run_id'', JString uuid)]" eng t uuid w 204 NoBody w2 tz]
    by (simp add: demo_fail_def run_endpoint_def payload_json_def)
qed

section \<open>One task against the server\<close>

lemma pause_local [simp]: "pause (local_server st eng tz cfg uuid) d (t, w) = (Add t d, w)"
  by (simp add: local_server_def)

lemma Add_ms [simp]:
  "Add t (300 * Millisecond) = t + 300000000" "Add t (400 * Millisecond) = t + 400000000"
  by (simp_all add: Add_def Millisecond_def)

lemma elapsed: "Milliseconds (Sub (t + 400000000) t) = 400" "Milliseconds (Sub (t + 900000000) t) = 900"
  by (simp_all add: Milliseconds_def Sub_def signed_divide_int_def)

lemma taskNames_nth: "i < 4 \<Longrightarrow> taskNames ! i \<in> set taskNames"
  by (rule nth_mem) (simp add: taskNames_def)

lemma demo_failing_task:
  assumes "demo_setting st eng cfg uuid" and "world_ok w" and "uuid \<notin> r_run_id ` set (task_runs (w_db w))"
    and "draw_name dr < 4" and "draw_outcome dr \<in> {1, 2}"
  obtains w1 where "runDemoTask cfg (local_server st eng tz cfg uuid) dr (t, w) =
      ([LogStarted (taskNames ! draw_name dr) uuid, LogFailed (taskNames ! draw_name dr) uuid], (t + 400000000, w1))"
    and "at_key r_run_id uuid (task_runs (w_db w1)) =
      Some (set_finished eng (StatusFailed, t + 400000000, Milliseconds (Sub (t + 400000000) (stamp eng t)), demo_traceback)
        (new_run_row eng (started_task (demo_request (taskNames ! draw_name dr) (draw_ttl dr)) uuid t)))"
proof -
  let ?row = "new_run_row eng (started_task (demo_request (taskNames ! draw_name dr) (draw_ttl dr)) uuid t)"
  obtain w1 where w1: "demo_start cfg (local_server st eng tz cfg uuid) (taskNames ! draw_name dr) (draw_ttl dr) (t, w) =
      (Inr uuid, (t, w1))" "world_ok w1" "at_key r_run_id uuid (task_runs (w_db w1)) = Some ?row"
    by (rule demo_start_ok[OF assms(1) taskNames_nth[OF assms(4)] assms(2,3)])
  have start: "r_started_at ?row = stamp eng t"
    by (simp add: new_run_row_def started_task_def)
  obtain w2 where "demo_fail cfg (local_server st eng tz cfg uuid) uuid demo_traceback (t + 400000000, w1) =
      (Inr '''', (t + 400000000, w2))"
    "at_key r_run_id uuid (task_runs (w_db w2)) = Some (set_finished eng
      (StatusFailed, t + 400000000, Milliseconds (Sub (t + 400000000) (r_started_at ?row)), demo_traceback) ?row)"
    using demo_finish_ok(2)[OF assms(1) w1(2,3)] by blast
  then show thesis
    using w1(1) assms(5) unfolding start by (intro that[of w2]) (auto simp: runDemoTask_def Let_def)
qed

lemma demo_successful_task:
  assumes "demo_setting st eng cfg uuid" and "world_ok w" and "uuid \<notin> r_run_id ` set (task_runs (w_db w))"
    and "draw_name dr < 4" and "2 < draw_outcome dr"
  obtains w1 where "runDemoTask cfg (local_server st eng tz cfg uuid) dr (t, w) =
      ([LogStarted (taskNames ! draw_name dr) uuid, LogSucceeded (taskNames ! draw_name dr) uuid], (t + 900000000, w1))"
    and "at_key r_run_id uuid (task_runs (w_db w1)) =
      Some (set_finished eng (StatusSuccess, t + 900000000, Milliseconds (Sub (t + 900000000) (stamp eng t)), '''')
        (set_heartbeat eng (t + 600000000) (set_heartbeat eng (t + 300000000)
          (new_run_row eng (started_task (demo_request (taskNames ! draw_name dr) (draw_ttl dr)) uuid t)))))"
proof -
  let ?srv = "local_server st eng tz cfg uuid"
  let ?row = "new_run_row eng (started_task (demo_request (taskNames ! draw_name dr) (draw_ttl dr)) uuid t)"
  obtain w1 where w1: "demo_start cfg ?srv (taskNames ! draw_name dr) (draw_ttl dr) (t, w) = (Inr uuid, (t, w1))"
    "world_ok w1" "at_key r_run_id uuid (task_runs (w_db w1)) = Some ?row"
    by (rule demo_start_ok[OF assms(1) taskNames_nth[OF assms(4)] assms(2,3)])
  have live: "r_status ?row = StatusRunning" "r_status (set_heartbeat eng b r) = r_status r"
    "r_started_at ?row = stamp eng t" "r_started_at (set_heartbeat eng b r) = r_started_at r" for b r
    by (simp_all add: new_run_row_def started_task_def set_heartbeat_def)
  obtain w2 where w2: "demo_heartbeat cfg ?srv uuid (t + 300000000, w1) = (Inr '''', (t + 300000000, w2))" "world_ok w2"
    "at_key r_run_id uuid (task_runs (w_db w2)) = Some (set_heartbeat eng (t + 300000000) ?row)"
    by (rule demo_heartbeat_ok[OF assms(1) w1(2,3) live(1)])
  obtain w3 where w3: "demo_heartbeat cfg ?srv uuid (t + 600000000, w2) = (Inr '''', (t + 600000000, w3))" "world_ok w3"
    "at_key r_run_id uuid (task_runs (w_db w3)) =
      Some (set_heartbeat eng (t + 600000000) (set_heartbeat eng (t + 300000000) ?row))"
    by (rule demo_heartbeat_ok[OF assms(1) w2(2,3)]) (simp add: live)
  have beats: "demo_heartbeats cfg ?srv name uuid 2 (t, w1) = ([], (t + 600000000, w3))" for name
    using w2(1) w3(1) by (simp add: numeral_2_eq_2 add.commute)
  obtain w4 where "demo_succeed cfg ?srv uuid (t + 900000000, w3) = (Inr '''', (t + 900000000, w4))"
    "at_key r_run_id uuid (task_runs (w_db w4)) = Some (set_finished eng
      (StatusSuccess, t + 900000000, Milliseconds (Sub (t + 900000000) (stamp eng t)), '''')
      (set_heartbeat eng (t + 600000000) (set_heartbeat eng (t + 300000000) ?row)))"
    using demo_finish_ok(1)[OF assms(1) w3(2,3)] live by metis
  then show thesis
    using w1(1) beats assms(5) by (intro that[of w4]) (simp_all add: runDemoTask_def Let_def add.commute)
qed

section \<open>Properties\<close>

text \<open>For the witnesses: the sample site with a router that knows the routes without parameters.\<close>

definition demo_site :: site where
  "demo_site = sample_site\<lparr>lookup := (\<lambda>rs m p.
     map_option (\<lambda>(_, _, e). (e, [])) (List.find (\<lambda>(m', p', e). m' = m \<and> p' = p) rs))\<rparr>"

definition demo_client :: demo_config where
  "demo_client = \<lparr>baseURL = ''http://localhost:8080'', demo_apiKey = ''secret''\<rparr>"

lemma demo_setting_sample: "demo_setting demo_site plain_engine demo_client ''u''"
  by (simp add: demo_setting_def static_routes_def demo_site_def demo_client_def sample_site_def
      route_table_def api_routes_def grouped_def utf8_intros)

lemma fresh_u: "''u'' \<notin> r_run_id ` set (task_runs (w_db sample_world))"
  by (simp add: sample_world_def sample_db_def sample_row_def)

text \<open>
  C30. A demo task that is drawn to succeed or to fail, against a server without faults that hands out
  a fresh id: the worker logs the start and the report and no error, and the server has stored the
  run with its outcome, \<open>900\<close> milliseconds for a success (after two heartbeats) and \<open>400\<close> for a failure.
\<close>

theorem demo_task_recorded:
  assumes "demo_setting st eng cfg uuid" and "world_ok w" and "uuid \<notin> r_run_id ` set (task_runs (w_db w))"
    and "\<And>x. stamp eng x = x" and "draw_name dr < 4" and "draw_outcome dr \<noteq> 0"
  shows "\<exists>w1 row. runDemoTask cfg (local_server st eng tz cfg uuid) dr (t, w) =
      ([LogStarted (taskNames ! draw_name dr) uuid,
        if draw_outcome dr \<le> 2 then LogFailed (taskNames ! draw_name dr) uuid
        else LogSucceeded (taskNames ! draw_name dr) uuid],
       (t + (if draw_outcome dr \<le> 2 then 400000000 else 900000000), w1)) \<and>
    at_key r_run_id uuid (task_runs (w_db w1)) = Some row \<and>
    r_task_name row = taskNames ! draw_name dr \<and>
    (if draw_outcome dr \<le> 2
     then r_status row = StatusFailed \<and> r_duration_ms row = Some 400 \<and> r_error_message row = Some demo_traceback
     else r_status row = StatusSuccess \<and> r_duration_ms row = Some 900 \<and>
       r_last_heartbeat_at row = Some (t + 600000000))"
proof (cases "draw_outcome dr \<le> 2")
  case True
  then have "draw_outcome dr \<in> {1, 2}"
    using assms(6) by auto
  from demo_failing_task[OF assms(1-3,5) this, of tz t] show ?thesis
    using True by (force simp: assms(4) elapsed set_finished_def new_run_row_def started_task_def demo_request_def)
next
  case False
  then have "2 < draw_outcome dr"
    by simp
  from demo_successful_task[OF assms(1-3,5) this, of tz t] show ?thesis
    using False
    by (force simp: assms(4) elapsed set_finished_def set_heartbeat_def new_run_row_def started_task_def demo_request_def)
qed

theorem demo_task_recorded_witness:
  "\<exists>w1. runDemoTask demo_client (local_server demo_site plain_engine (\<lambda>_. 0) demo_client ''u'')
       \<lparr>draw_name = 1, draw_ttl = 4, draw_outcome = 9\<rparr> (0, sample_world) =
     ([LogStarted ''invoice-sync'' ''u'', LogSucceeded ''invoice-sync'' ''u''], (900000000, w1)) \<and>
   map_option r_duration_ms (at_key r_run_id ''u'' (task_runs (w_db w1))) = Some (Some 900)"
  using demo_task_recorded[OF demo_setting_sample world_ok_sample fresh_u,
      of "\<lparr>draw_name = 1, draw_ttl = 4, draw_outcome = 9\<rparr>" "\<lambda>_. 0" 0]
  by (auto simp: taskNames_def)

text \<open>
  The stuck task: it is stored as running and stays silent. It has a TTL only when the separate
  draw of \<open>start\<close> was 0 (one in ten), and then it expires once more than three seconds have passed;
  with any other draw no sweep at any later time finds it, though the code says it has a 3s TTL.
\<close>

lemma stuck_task_expires:
  assumes "demo_setting st eng cfg uuid" and "world_ok w" and "uuid \<notin> r_run_id ` set (task_runs (w_db w))"
    and "\<And>x. stamp eng x = x" and "draw_name dr < 4" and "draw_outcome dr = 0"
    and "runDemoTask cfg (local_server st eng tz cfg uuid) dr (t, w) = (logs, (t1, w1))"
    and "in_int64 (now - t)"
  shows "\<exists>row. at_key r_run_id uuid (task_runs (w_db w1)) = Some row \<and> r_status row = StatusRunning \<and>
    logs = [LogStarted (taskNames ! draw_name dr) uuid, LogStuck (taskNames ! draw_name dr)] \<and>
    (expired now row \<longleftrightarrow> draw_ttl dr = 0 \<and> 3000000000 < now - t)"
proof -
  let ?row = "new_run_row eng (started_task (demo_request (taskNames ! draw_name dr) (draw_ttl dr)) uuid t)"
  obtain w2 where w2: "demo_start cfg (local_server st eng tz cfg uuid) (taskNames ! draw_name dr) (draw_ttl dr) (t, w) =
      (Inr uuid, (t, w2))" "at_key r_run_id uuid (task_runs (w_db w2)) = Some ?row"
    using demo_start_ok[OF assms(1) taskNames_nth[OF assms(5)] assms(2,3)] by metis
  have "expired now ?row \<longleftrightarrow> draw_ttl dr = 0 \<and> 3000000000 < now - t"
    using assms(8) by (auto simp: expired_def has_ttl_def within_ttl_def scan_candidate_def new_run_row_def started_task_def
        demo_request_def assms(4) sint_Sub_in_range go_defs)
  then show ?thesis
    using w2 assms(6,7)
    by (auto simp: runDemoTask_def Let_def new_run_row_def started_task_def)
qed

end
