(* ===== verification/WebUI.thy ===== *)
theory WebUI
  imports Router DbOpen
begin

text \<open>
  \<open>internal/webui/webui.go\<close>: the dashboard embedded in the binary. The files the build embeds are
  the parameter \<open>embed\<close>, pairs of a path below \<open>dist/\<close> and its content; of \<open>io/fs\<close> and \<open>embed\<close>,
  \<open>ValidPath\<close>, \<open>Sub\<close>, \<open>Stat\<close> and \<open>ReadFile\<close> are modelled, while what \<open>http.FileServer\<close> makes of a
  file (content types, redirects, ranges) stays a parameter. The property composes it with the
  fallback of the router.
\<close>

type_synonym embed = "(string \<times> string) list"

definition ValidPath :: "string \<Rightarrow> bool" where
  "ValidPath name \<longleftrightarrow>
     valid_utf8 name \<and>
     (name = ''.'' \<or> list_all (\<lambda>p. p \<noteq> '''' \<and> p \<noteq> ''.'' \<and> p \<noteq> ''..'') (path_parts name))"

definition path_Join :: "string \<Rightarrow> string \<Rightarrow> string" where
  "path_Join dir name = CleanPath (dir @ ''/'' @ name)"

text \<open>
  An embedded file system knows its files and, as directories, the prefixes of their paths. A
  \<open>subFS\<close> looks a valid name up below its directory.
\<close>

definition embed_stat :: "embed \<Rightarrow> string \<Rightarrow> bool" where
  "embed_stat files path \<longleftrightarrow>
     ValidPath path \<and>
     (path = ''.'' \<or> list_ex (\<lambda>(f, content). f = path \<or> HasPrefix f (path @ ''/'')) files)"

definition embed_readFile :: "embed \<Rightarrow> string \<Rightarrow> string option" where
  "embed_readFile files path = (if ValidPath path then map_of files path else None)"

definition fs_Sub :: "embed \<Rightarrow> (string \<Rightarrow> nat \<times> string) \<Rightarrow> string \<Rightarrow> string + assets" where
  "fs_Sub files serve dir =
     (if \<not> ValidPath dir then Inl ''sub: invalid argument''
      else if dir = ''.'' then
        Inr \<lparr>fs_stat = embed_stat files, fs_readFile = embed_readFile files, fileServer = serve\<rparr>
      else
        Inr \<lparr>fs_stat = (\<lambda>name. ValidPath name \<and> embed_stat files (path_Join dir name)),
             fs_readFile = (\<lambda>name. if ValidPath name then embed_readFile files (path_Join dir name) else None),
             fileServer = serve\<rparr>)"

text \<open>\<open>Assets\<close>: the left side is the panic.\<close>

definition Assets :: "embed \<Rightarrow> (string \<Rightarrow> nat \<times> string) \<Rightarrow> string + assets" where
  "Assets distFS serve =
     (case fs_Sub distFS serve ''dist'' of
        Inl err \<Rightarrow> Inl err
      | Inr sub \<Rightarrow> Inr sub)"

section \<open>Joining a valid name\<close>

lemma path_parts_slash: "path_parts (a @ ''/'' @ b) = path_parts a @ path_parts b"
proof (induction a)
  case (Cons c a)
  have "path_parts a \<noteq> []" for a
    by (induction a) (auto split: list.split)
  with Cons show ?case
    by (auto split: list.split)
qed simp

lemma join_path_parts: "join_parts (path_parts s) = s"
proof (induction s)
  case (Cons c s)
  show ?case
  proof (cases "path_parts s")
    case Nil
    then have False by (cases s) (auto split: list.splits if_splits)
    then show ?thesis ..
  next
    case (Cons p ps)
    with Cons.IH show ?thesis
      by (cases ps) auto
  qed
qed simp

lemma clean_valid:
  "list_all (\<lambda>p. p \<noteq> '''' \<and> p \<noteq> ''.'' \<and> p \<noteq> ''..'') ps \<Longrightarrow> fold (clean_step rooted) ps acc = rev ps @ acc"
  by (induction ps arbitrary: acc) (simp_all add: clean_step_def)

lemma path_parts_dist: "path_parts ''dist'' = [''dist'']"
  by code_simp

lemma path_Join_dot: "path_Join ''dist'' ''.'' = ''dist''"
  unfolding path_Join_def by code_simp

lemma path_Join_dist:
  assumes "ValidPath name"
  shows "path_Join ''dist'' name = (if name = ''.'' then ''dist'' else ''dist/'' @ name)"
proof (cases "name = ''.''")
  case True
  then show ?thesis
    by (simp add: path_Join_dot)
next
  case False
  with assms have "fold (clean_step False) (path_parts name) [''dist''] = rev (path_parts name) @ [''dist'']"
    by (intro clean_valid) (simp add: ValidPath_def)
  then have "CleanPath (''dist'' @ ''/'' @ name) = join_parts (''dist'' # path_parts name)"
    unfolding CleanPath_def path_parts_slash path_parts_dist by (simp add: clean_step_def)
  also have "\<dots> = join_parts (path_parts (''dist'' @ ''/'' @ name))"
    unfolding path_parts_slash path_parts_dist by simp
  finally show ?thesis
    using False by (simp only: path_Join_def join_path_parts) simp
qed

lemma ValidPath_dist: "ValidPath ''dist''"
  unfolding ValidPath_def path_parts_dist by (simp add: valid_utf8_ascii is_ascii_def)

lemma ValidPath_below_dist:
  assumes "ValidPath name"
  shows "ValidPath (path_Join ''dist'' name)"
proof (cases "name = ''.''")
  case True
  then show ?thesis
    by (simp add: path_Join_dot ValidPath_dist)
next
  case False
  have "valid_utf8 (''dist/'' @ name)"
    using assms by (intro utf8_intros) (simp_all add: ValidPath_def)
  moreover have "path_parts (''dist/'' @ name) = ''dist'' # path_parts name"
    using path_parts_slash[of "''dist''" name] by (simp add: path_parts_dist)
  ultimately show ?thesis
    using assms False by (simp add: path_Join_dist ValidPath_def)
qed

lemma ValidPath_iff:
  "ValidPath name \<longleftrightarrow>
     name = ''.'' \<or> name \<noteq> ''.'' \<and> valid_utf8 name \<and> set (path_parts name) \<inter> {'''', ''.'', ''..''} = {}"
proof -
  have "valid_utf8 ''.''"
    by (simp add: valid_utf8_ascii is_ascii_def)
  moreover have "list_all (\<lambda>p. p \<noteq> '''' \<and> p \<noteq> ''.'' \<and> p \<noteq> ''..'') ps \<longleftrightarrow> set ps \<inter> {'''', ''.'', ''..''} = {}" for ps
    by (induction ps) auto
  ultimately show ?thesis
    by (cases "name = ''.''") (simp_all add: ValidPath_def)
qed

lemma embed_stat_dist:
  assumes "ValidPath name"
  shows "embed_stat files (path_Join ''dist'' name) \<longleftrightarrow>
    (\<exists>(f, content)\<in>set files.
       f = path_Join ''dist'' name \<or> HasPrefix f (path_Join ''dist'' name @ ''/''))"
proof -
  have "path_Join ''dist'' name \<noteq> ''.''"
    by (simp add: path_Join_dist[OF assms])
  then show ?thesis
    using ValidPath_below_dist[OF assms] by (simp add: embed_stat_def list_ex_iff)
qed

lemma Assets_dist:
  "Assets files serve =
     Inr \<lparr>fs_stat = (\<lambda>name. ValidPath name \<and> embed_stat files (path_Join ''dist'' name)),
          fs_readFile = (\<lambda>name. if ValidPath name then embed_readFile files (path_Join ''dist'' name) else None),
          fileServer = serve\<rparr>"
  by (simp add: Assets_def fs_Sub_def ValidPath_dist)

text \<open>The files the dashboard serves.\<close>

lemma served_files:
  assumes "Assets files serve = Inr fs"
  shows "(file \<noteq> '''' \<and> fs_stat fs file) \<longleftrightarrow>
    file = ''.'' \<and> (\<exists>(f, content)\<in>set files. f = ''dist'' \<or> HasPrefix f ''dist/'') \<or>
    file \<noteq> ''.'' \<and> valid_utf8 file \<and> set (path_parts file) \<inter> {'''', ''.'', ''..''} = {} \<and>
    (\<exists>(f, content)\<in>set files. f = ''dist/'' @ file \<or> HasPrefix f (''dist/'' @ file @ ''/''))"
proof -
  have fs: "fs = \<lparr>fs_stat = (\<lambda>name. ValidPath name \<and> embed_stat files (path_Join ''dist'' name)),
      fs_readFile = (\<lambda>name. if ValidPath name then embed_readFile files (path_Join ''dist'' name) else None),
      fileServer = serve\<rparr>"
    using assms by (simp add: Assets_dist)
  show ?thesis
  proof (cases "ValidPath file")
    case True
    then have "file \<noteq> ''''"
      unfolding ValidPath_iff by auto
    then have "(file \<noteq> '''' \<and> fs_stat fs file) \<longleftrightarrow>
        (\<exists>(f, content)\<in>set files. f = path_Join ''dist'' file \<or> HasPrefix f (path_Join ''dist'' file @ ''/''))"
      using True by (simp add: fs embed_stat_dist)
    then show ?thesis
      using True unfolding path_Join_dist[OF True] ValidPath_iff
      by (cases "file = ''.''") simp_all
  next
    case False
    then have "\<not> fs_stat fs file"
      by (simp add: fs)
    with False show ?thesis
      unfolding ValidPath_iff by blast
  qed
qed

section \<open>Properties\<close>



end
