(* ===== verification/Shutdown.thy ===== *)
theory Shutdown
  imports Server
begin

text \<open>
  \<open>cmd/server/main.go\<close>, how the process ends: a database that does not open, a socket that does not
  listen, or a signal and the graceful shutdown. \<open>log.Fatalf\<close> exits at once, so that the deferred
  \<open>conn.Close\<close> does not run. \<open>http_Shutdown\<close> is \<open>http.Server.Shutdown\<close> as documented: new
  connections are refused, and the server waits until every request that is being served has
  returned or the context ends. The requests in progress are the open streams, each with the loop
  of its handler, and other requests, which are only numbered; what happens between two looks of
  \<open>Shutdown\<close> at its connections is a list of \<open>conn_event\<close>. The context of a request does not end
  with the context of the signal: nothing tells a stream that the server is stopping.
\<close>

datatype last_log =
    FailedToOpen open_error
  | ServerError string
  | ForcedShutdown string
  | ServerStopped

record process_end =
  exit_code :: int
  last_line :: last_log
  db_closed :: bool

definition log_Fatalf :: "last_log \<Rightarrow> process_end" where
  "log_Fatalf line = \<lparr>exit_code = 1, last_line = line, db_closed = False\<rparr>"

section \<open>The requests in progress\<close>

datatype conn_event =
    StreamTurn nat "unit signal"
  | RequestReturns nat

definition turn_stream :: "nat \<Rightarrow> unit signal \<Rightarrow> server \<Rightarrow> server" where
  "turn_stream ch sig s =
     (case map_of (s_streams s) ch of
        None \<Rightarrow> s
      | Some frames \<Rightarrow>
          let (finished, frames1, h1) = consume_select send_frame ch sig (frames, w_hub (s_world s))
          in s\<lparr>s_world := with_hub h1 (s_world s),
               s_streams :=
                 (if finished then filter (\<lambda>(c, fs). c \<noteq> ch) (s_streams s)
                  else map (\<lambda>(c, fs). (c, if c = ch then frames1 else fs)) (s_streams s))\<rparr>)"

fun conn_happens :: "conn_event \<Rightarrow> nat list \<times> server \<Rightarrow> nat list \<times> server" where
  "conn_happens (StreamTurn ch sig) (rs, s) = (rs, turn_stream ch sig s)"
| "conn_happens (RequestReturns r) (rs, s) = (removeAll r rs, s)"

definition quiescent :: "nat list \<times> server \<Rightarrow> bool" where
  "quiescent st \<longleftrightarrow> fst st = [] \<and> s_streams (snd st) = []"

text \<open>The result \<open>None\<close> says that \<open>Shutdown\<close> still waits, \<open>Some None\<close> that it returned no error.\<close>

fun http_Shutdown ::
  "time \<Rightarrow> (conn_event list \<times> time) list \<Rightarrow> nat list \<times> server \<Rightarrow> string option option"
where
  "http_Shutdown deadline [] st = (if quiescent st then Some None else None)"
| "http_Shutdown deadline ((evs, now) # waits) st =
     (if quiescent st then Some None
      else if deadline \<le> now then Some (Some ''context deadline exceeded'')
      else http_Shutdown deadline waits (fold conn_happens evs st))"

section \<open>The end of main\<close>

text \<open>\<open>ListenAndServe\<close> in its goroutine: the error it returns while \<open>main\<close> waits for a signal.\<close>

definition listener_ends :: "string option \<Rightarrow> process_end option" where
  "listener_ends err =
     (case err of
        None \<Rightarrow> None
      | Some e \<Rightarrow> if e = ''http: Server closed'' then None else Some (log_Fatalf (ServerError e)))"

definition shutdown_server ::
  "time \<Rightarrow> (conn_event list \<times> time) list \<Rightarrow> nat list \<times> server \<Rightarrow> process_end option"
where
  "shutdown_server signalled waits st =
     (case http_Shutdown (Add signalled (5 * Second)) waits st of
        None \<Rightarrow> None
      | Some (Some err) \<Rightarrow> Some (log_Fatalf (ForcedShutdown err))
      | Some None \<Rightarrow> Some \<lparr>exit_code = 0, last_line = ServerStopped, db_closed = True\<rparr>)"

definition main_ends ::
  "system \<Rightarrow> (string \<Rightarrow> string) \<Rightarrow> string option \<Rightarrow> time \<Rightarrow> (conn_event list \<times> time) list \<Rightarrow>
   nat list \<times> server \<Rightarrow> process_end option"
where
  "main_ends sys env listen_err signalled waits st =
     (case Main sys env of
        Fatal err \<Rightarrow> Some (log_Fatalf (FailedToOpen err))
      | Serving cfg conn wk \<Rightarrow>
          (case listener_ends listen_err of
             Some e \<Rightarrow> Some e
           | None \<Rightarrow> shutdown_server signalled waits st))"

section \<open>Which requests have ended\<close>

text \<open>The streams are subscribed, so that their channels are open and only a client ends them.\<close>

definition drain_ok :: "server \<Rightarrow> bool" where
  "drain_ok s \<longleftrightarrow> hub_ok (w_hub (s_world s)) \<and> fst ` set (s_streams s) \<subseteq> set (subs (w_hub (s_world s)))"

lemma drain_ok_server: "server_ok s \<Longrightarrow> drain_ok s"
  using listener_subscribed[of s] by (auto simp: drain_ok_def server_ok_def world_ok_def listeners_def)

lemma unsubscribe_subs: "set (subs (unsubscribe ch h)) = set (subs h) - {ch}"
  by (auto simp: unsubscribe_def close_chan_def)

lemma open_turn:
  assumes "hub_ok h" and "ch \<in> set (subs h)"
  shows "fst (consume_select react ch sig (x, h)) \<longleftrightarrow> sig = CtxDone"
  using assms
  by (auto simp: consume_select_def receive_def hub_ok_def split: signal.split list.split)

lemma turn_stream_ends:
  assumes "drain_ok s"
  shows "drain_ok (turn_stream ch sig s)"
    and "fst ` set (s_streams (turn_stream ch sig s)) =
      fst ` set (s_streams s) - (if sig = CtxDone then {ch} else {})"
proof -
  have "drain_ok (turn_stream ch sig s) \<and> fst ` set (s_streams (turn_stream ch sig s)) =
      fst ` set (s_streams s) - (if sig = CtxDone then {ch} else {})"
  proof (cases "map_of (s_streams s) ch")
    case None
    then have "turn_stream ch sig s = s"
      by (simp add: turn_stream_def)
    moreover have "ch \<notin> fst ` set (s_streams s)"
      using None by (simp only: map_of_eq_None_iff not_False_eq_True)
    ultimately show ?thesis
      using assms by simp
  next
    case (Some frames)
    let ?h = "w_hub (s_world s)"
    have hub: "hub_ok ?h" and ch: "ch \<in> set (subs ?h)"
      using assms map_of_SomeD[OF Some] by (force simp: drain_ok_def)+
    obtain fin frames1 h1 where c: "consume_select send_frame ch sig (frames, ?h) = (fin, frames1, h1)"
      by (metis prod_cases3)
    have fin: "fin \<longleftrightarrow> sig = CtxDone" and "hub_ok h1"
      using open_turn[OF hub ch, of send_frame sig frames] hub_ok_consume_select[OF hub, of send_frame ch sig frames] c
      by simp_all
    moreover have "set (subs h1) = set (subs ?h) - (if fin then {ch} else {})"
    proof (cases rule: consume_select_cases[of send_frame ch sig frames ?h])
      case ended
      then show ?thesis using c by (simp add: unsubscribe_subs)
    next
      case (event now evt h1')
      then show ?thesis using c receive_subs[of ch ?h] by simp
    next
      case idle
      then show ?thesis using c by simp
    qed
    moreover have "s_streams (turn_stream ch sig s) =
        (if fin then filter (\<lambda>(c, fs). c \<noteq> ch) (s_streams s)
         else map (\<lambda>(c, fs). (c, if c = ch then frames1 else fs)) (s_streams s))"
      and "w_hub (s_world (turn_stream ch sig s)) = h1"
      using Some c by (simp_all add: turn_stream_def)
    moreover have "fst ` set (filter (\<lambda>(c, fs). c \<noteq> ch) l) = fst ` set l - {ch}"
        "fst ` set (map (\<lambda>(c, fs). (c, if c = ch then frames1 else fs)) l) = fst ` set l" for l :: "(nat \<times> frame list) list"
      by (induction l) auto
    ultimately show ?thesis
      using assms by (auto simp only: drain_ok_def split: if_splits)
  qed
  then show "drain_ok (turn_stream ch sig s)"
    and "fst ` set (s_streams (turn_stream ch sig s)) =
      fst ` set (s_streams s) - (if sig = CtxDone then {ch} else {})"
    by blast+
qed

lemma drained:
  "drain_ok s \<Longrightarrow> fold conn_happens evs (rs, s) = (rs1, s1) \<Longrightarrow>
   drain_ok s1 \<and> set rs1 = {r \<in> set rs. RequestReturns r \<notin> set evs} \<and>
   fst ` set (s_streams s1) = {ch \<in> fst ` set (s_streams s). StreamTurn ch CtxDone \<notin> set evs}"
proof (induction evs arbitrary: rs s)
  case (Cons e evs)
  show ?case
  proof (cases e)
    case (StreamTurn ch sig)
    then show ?thesis
      using Cons.IH[OF turn_stream_ends(1)[OF Cons.prems(1)], of rs ch sig] Cons.prems
        turn_stream_ends(2)[OF Cons.prems(1), of ch sig]
      by (auto split: if_splits)
  next
    case (RequestReturns r)
    then show ?thesis
      using Cons.IH[OF Cons.prems(1), of "removeAll r rs"] Cons.prems(2) by auto
  qed
qed auto

lemma quiescent_stays: "quiescent st \<Longrightarrow> fold conn_happens evs st = st"
proof (induction evs)
  case (Cons e evs)
  then have "conn_happens e st = st"
    by (cases st; cases e) (simp_all add: quiescent_def turn_stream_def)
  with Cons show ?case by simp
qed simp

definition before_deadline :: "time \<Rightarrow> (conn_event list \<times> time) list \<Rightarrow> conn_event list" where
  "before_deadline deadline waits = concat (map fst (takeWhile (\<lambda>w. snd w < deadline) waits))"

lemma http_Shutdown_returns:
  "\<exists>w\<in>set waits. deadline \<le> snd w \<Longrightarrow>
   http_Shutdown deadline waits st =
     Some (if quiescent (fold conn_happens (before_deadline deadline waits) st) then None
           else Some ''context deadline exceeded'')"
proof (induction waits arbitrary: st)
  case (Cons w waits)
  show ?case
  proof (cases "quiescent st")
    case True
    then show ?thesis
      by (cases w) (simp add: quiescent_stays)
  next
    case False
    obtain evs now where w: "w = (evs, now)"
      by fastforce
    show ?thesis
    proof (cases "deadline \<le> now")
      case True
      with False w show ?thesis
        by (simp add: before_deadline_def)
    next
      case early: False
      then have "\<exists>w\<in>set waits. deadline \<le> snd w"
        using Cons.prems w by auto
      with Cons.IH[of "fold conn_happens evs st"] False early w show ?thesis
        by (simp add: before_deadline_def)
    qed
  qed
qed simp

section \<open>Properties\<close>

text \<open>
  C31. The graceful shutdown ends: once five seconds have passed since the signal, the process has
  stopped, cleanly and with the database closed when every request in progress had returned
  before, and otherwise by \<open>log.Fatalf\<close>, with exit code 1 and the database left open. A
  stream returns only when its client goes away, so that one open dashboard makes every shutdown
  a forced one.
\<close>

theorem shutdown_outcome:
  assumes "Main sys env = Serving cfg conn wk" and "server_ok s"
    and "\<exists>w\<in>set waits. signalled + 5000000000 \<le> snd w"
  shows "main_ends sys env None signalled waits (rs, s) =
    Some (if (\<forall>ch frames. (ch, frames) \<in> set (s_streams s) \<longrightarrow>
                StreamTurn ch CtxDone \<in> set (before_deadline (signalled + 5000000000) waits)) \<and>
             (\<forall>r\<in>set rs. RequestReturns r \<in> set (before_deadline (signalled + 5000000000) waits))
          then \<lparr>exit_code = 0, last_line = ServerStopped, db_closed = True\<rparr>
          else \<lparr>exit_code = 1, last_line = ForcedShutdown ''context deadline exceeded'', db_closed = False\<rparr>)"
proof -
  have deadline: "Add signalled (5 * Second) = signalled + 5000000000"
    by (simp add: Add_def go_defs)
  let ?evs = "before_deadline (signalled + 5000000000) waits"
  obtain rs1 s1 where f: "fold conn_happens ?evs (rs, s) = (rs1, s1)"
    by fastforce
  have d: "set rs1 = {r \<in> set rs. RequestReturns r \<notin> set ?evs}"
      "fst ` set (s_streams s1) = {ch \<in> fst ` set (s_streams s). StreamTurn ch CtxDone \<notin> set ?evs}"
    using drained[OF drain_ok_server[OF assms(2)] f] by blast+
  have e: "rs1 = [] \<longleftrightarrow> set rs1 = {}" "s_streams s1 = [] \<longleftrightarrow> fst ` set (s_streams s1) = {}"
    by simp_all
  have "quiescent (fold conn_happens ?evs (rs, s)) \<longleftrightarrow> rs1 = [] \<and> s_streams s1 = []"
    unfolding f by (simp add: quiescent_def)
  then have q: "quiescent (fold conn_happens ?evs (rs, s)) \<longleftrightarrow>
      (\<forall>ch frames. (ch, frames) \<in> set (s_streams s) \<longrightarrow> StreamTurn ch CtxDone \<in> set ?evs) \<and>
      (\<forall>r\<in>set rs. RequestReturns r \<in> set ?evs)"
    unfolding e d by force
  show ?thesis
    unfolding q[symmetric]
    by (simp add: main_ends_def listener_ends_def shutdown_server_def deadline log_Fatalf_def assms(1)
        http_Shutdown_returns[OF assms(3)])
qed

theorem shutdown_outcome_witness:
  "main_ends healthy_system (\<lambda>_. []) None 0 [([StreamTurn 0 (Ticked ())], 1), ([], 5000000000)]
      ([], \<lparr>s_world = sample_world, s_dispatcher = NotStarted, s_streams = [(0, [])]\<rparr>) =
     Some \<lparr>exit_code = 1, last_line = ForcedShutdown ''context deadline exceeded'', db_closed = False\<rparr> \<and>
   main_ends healthy_system (\<lambda>_. []) None 0 [([StreamTurn 0 CtxDone], 1), ([], 5000000000)]
      ([], \<lparr>s_world = sample_world, s_dispatcher = NotStarted, s_streams = [(0, [])]\<rparr>) =
     Some \<lparr>exit_code = 0, last_line = ServerStopped, db_closed = True\<rparr>"
proof -
  let ?s = "\<lparr>s_world = sample_world, s_dispatcher = NotStarted, s_streams = [(0, [])]\<rparr>"
  have "server_ok ?s"
    by (simp add: server_ok_def listeners_def)
  moreover have "Main healthy_system (\<lambda>_. []) =
      Serving (Load (\<lambda>_. [])) \<lparr>driver = ''sqlite'', max_open = 1\<rparr> (start_workers (Load (\<lambda>_. [])))"
    by (simp add: Main_def Let_def OpenDB_def openSQLite_def healthy_system_def Load_def getEnv_def)
  ultimately show ?thesis
    using shutdown_outcome[of healthy_system "\<lambda>_. []" _ _ _ ?s "[([StreamTurn 0 (Ticked ())], 1), ([], 5000000000)]" 0 "[]"]
      shutdown_outcome[of healthy_system "\<lambda>_. []" _ _ _ ?s "[([StreamTurn 0 CtxDone], 1), ([], 5000000000)]" 0 "[]"]
    by (simp add: before_deadline_def)
qed

end
