(* ===== verification/Sql.thy ===== *)
theory Sql
  imports ScheduleStore
begin

text \<open>
  The fragment of SQL that the stores are written in: its words, its grammar and its meaning on
  tables of named columns. \<open>ConnExec\<close> and \<open>ConnQuery\<close> are \<open>Conn.Exec\<close>, \<open>Conn.Query\<close> and
  \<open>Conn.QueryRow\<close> of \<open>internal/db/db.go\<close>: they rewrite the placeholders and hand text and
  arguments to the engine, which reads the text by this grammar. \<open>schema_columns\<close> are the columns
  of the \<open>CREATE TABLE\<close> statements; the first is the primary key.
\<close>

section \<open>Values and statements\<close>

datatype sql_value = SqlNull | SqlText string | SqlInt int64 | SqlTime time

datatype sql_atom = ColEq string nat | ColLess string nat | ColNotNull string

datatype sql_stmt =
    SqlInsert string "string list" "nat list" "(string \<times> (string \<times> string) list) option"
  | SqlUpdate string "(string \<times> nat) list" "sql_atom list"
  | SqlDelete string "sql_atom list"
  | SqlSelect "string list" string "sql_atom list" "(string \<times> bool) option" "nat option"

type_synonym sql_row = "(string \<times> sql_value) list"
type_synonym sql_tables = "string \<Rightarrow> sql_row list"

section \<open>Words\<close>

definition sql_punct :: "char \<Rightarrow> bool" where
  "sql_punct c \<longleftrightarrow> c \<in> set ''(),=<.?''"

definition sql_space :: "char \<Rightarrow> bool" where
  "sql_space c \<longleftrightarrow> c \<in> {CHR '' '', CHR 0x09, CHR 0x0A}"

definition flush :: "string \<Rightarrow> string list \<Rightarrow> string list" where
  "flush word rest = (if word = [] then rest else word # rest)"

fun sql_words :: "string \<Rightarrow> string \<Rightarrow> string list" where
  "sql_words word [] = flush word []"
| "sql_words word (c # cs) =
     (if sql_space c then flush word (sql_words [] cs)
      else if sql_punct c then flush word ([c] # sql_words [] cs)
      else sql_words (word @ [c]) cs)"

text \<open>A placeholder: \<open>?\<close> counts by itself, \<open>$n\<close> names its argument.\<close>

datatype sql_token = Word string | Param nat

fun sql_tokens :: "nat \<Rightarrow> string list \<Rightarrow> sql_token list" where
  "sql_tokens n [] = []"
| "sql_tokens n (w # ws) =
     (if w = ''?'' then Param n # sql_tokens (Suc n) ws
      else (case w of
              c # digits \<Rightarrow>
                (if c = CHR ''$''
                 then (case Atoi digits of
                         Some k \<Rightarrow> Param (nat k - 1) # sql_tokens n ws
                       | None \<Rightarrow> Word w # sql_tokens n ws)
                 else Word w # sql_tokens n ws)
            | [] \<Rightarrow> sql_tokens n ws))"

section \<open>Grammar\<close>

fun parse_atoms :: "sql_token list \<Rightarrow> (sql_atom list \<times> sql_token list) option" where
  "parse_atoms (Word c # Word op # Param i # rest) =
     (case (if op = ''='' then Some (ColEq c i) else if op = ''<'' then Some (ColLess c i) else None) of
        None \<Rightarrow> None
      | Some a \<Rightarrow> (case rest of
          Word w # rest1 \<Rightarrow>
            if w = ''AND'' then map_option (\<lambda>(as, r). (a # as, r)) (parse_atoms rest1) else Some ([a], rest)
        | _ \<Rightarrow> Some ([a], rest)))"
| "parse_atoms (Word c # Word w1 # Word w2 # Word w3 # rest) =
     (if w1 = ''IS'' \<and> w2 = ''NOT'' \<and> w3 = ''NULL''
      then (case rest of
          Word w # rest1 \<Rightarrow>
            if w = ''AND'' then map_option (\<lambda>(as, r). (ColNotNull c # as, r)) (parse_atoms rest1)
            else Some ([ColNotNull c], rest)
        | _ \<Rightarrow> Some ([ColNotNull c], rest))
      else None)"
| "parse_atoms ts = None"

definition parse_where :: "sql_token list \<Rightarrow> (sql_atom list \<times> sql_token list) option" where
  "parse_where ts =
     (case ts of
        Word w # rest \<Rightarrow> if w = ''WHERE'' then parse_atoms rest else Some ([], ts)
      | _ \<Rightarrow> Some ([], ts))"

fun parse_names :: "sql_token list \<Rightarrow> string list \<times> sql_token list" where
  "parse_names (Word c # Word sep # rest) =
     (if sep = '','' then (let (cs, r) = parse_names rest in (c # cs, r)) else ([c], Word sep # rest))"
| "parse_names ts = ([], ts)"

fun parse_params :: "sql_token list \<Rightarrow> nat list \<times> sql_token list" where
  "parse_params (Param i # Word sep # rest) =
     (if sep = '','' then (let (is, r) = parse_params rest in (i # is, r)) else ([i], Word sep # rest))"
| "parse_params ts = ([], ts)"

fun parse_sets :: "sql_token list \<Rightarrow> (string \<times> nat) list \<times> sql_token list" where
  "parse_sets (Word c # Word eq # Param i # rest) =
     (if eq \<noteq> ''='' then ([], Word c # Word eq # Param i # rest)
      else (case rest of
              Word sep # rest1 \<Rightarrow>
                if sep = '','' then (let (sets, r) = parse_sets rest1 in ((c, i) # sets, r)) else ([(c, i)], rest)
            | _ \<Rightarrow> ([(c, i)], rest)))"
| "parse_sets ts = ([], ts)"

fun parse_excluded :: "sql_token list \<Rightarrow> (string \<times> string) list \<times> sql_token list" where
  "parse_excluded (Word c # Word eq # Word ex # Word dot # Word c1 # rest) =
     (if eq \<noteq> ''='' \<or> ex \<noteq> ''excluded'' \<or> dot \<noteq> ''.''
      then ([], Word c # Word eq # Word ex # Word dot # Word c1 # rest)
      else (case rest of
              Word sep # rest1 \<Rightarrow>
                if sep = '','' then (let (sets, r) = parse_excluded rest1 in ((c, c1) # sets, r))
                else ([(c, c1)], rest)
            | _ \<Rightarrow> ([(c, c1)], rest)))"
| "parse_excluded ts = ([], ts)"

definition parse_order :: "sql_token list \<Rightarrow> (string \<times> bool) option \<times> sql_token list" where
  "parse_order ts =
     (case ts of
        Word o1 # Word o2 # Word c # rest \<Rightarrow>
          if o1 = ''ORDER'' \<and> o2 = ''BY''
          then (case rest of
                  Word d # rest1 \<Rightarrow> if d = ''DESC'' then (Some (c, True), rest1) else (Some (c, False), rest)
                | _ \<Rightarrow> (Some (c, False), rest))
          else (None, ts)
      | _ \<Rightarrow> (None, ts))"

definition parse_limit :: "sql_token list \<Rightarrow> nat option \<times> sql_token list" where
  "parse_limit ts =
     (case ts of
        Word l # Word n # rest \<Rightarrow> if l = ''LIMIT'' then (map_option nat (Atoi n), rest) else (None, ts)
      | _ \<Rightarrow> (None, ts))"

definition parse_conflict :: "sql_token list \<Rightarrow> (string \<times> (string \<times> string) list) option option" where
  "parse_conflict ts =
     (case ts of
        [] \<Rightarrow> Some None
      | Word w1 # Word w2 # Word w3 # Word k # Word w4 # Word w5 # Word w6 # Word w7 # rest \<Rightarrow>
          if [w1, w2, w3, w4, w5, w6, w7] = [''ON'', ''CONFLICT'', ''('', '')'', ''DO'', ''UPDATE'', ''SET'']
          then (case parse_excluded rest of (sets, []) \<Rightarrow> Some (Some (k, sets)) | _ \<Rightarrow> None)
          else None
      | _ \<Rightarrow> None)"

definition parse_insert :: "sql_token list \<Rightarrow> sql_stmt option" where
  "parse_insert ts =
     (case ts of
        Word w1 # Word t # Word w2 # rest \<Rightarrow>
          if w1 = ''INTO'' \<and> w2 = ''('' then
            (case parse_names rest of
               (cols, Word w3 # Word w4 # Word w5 # rest1) \<Rightarrow>
                 if [w3, w4, w5] = ['')'', ''VALUES'', ''(''] then
                   (case parse_params rest1 of
                      (ps, Word w6 # rest2) \<Rightarrow>
                        if w6 = '')'' then map_option (SqlInsert t cols ps) (parse_conflict rest2) else None
                    | _ \<Rightarrow> None)
                 else None
             | _ \<Rightarrow> None)
          else None
      | _ \<Rightarrow> None)"

definition parse_update :: "sql_token list \<Rightarrow> sql_stmt option" where
  "parse_update ts =
     (case ts of
        Word t # Word w # rest \<Rightarrow>
          if w = ''SET'' then
            (case parse_sets rest of
               (sets, rest1) \<Rightarrow>
                 (case parse_where rest1 of Some (atoms, []) \<Rightarrow> Some (SqlUpdate t sets atoms) | _ \<Rightarrow> None))
          else None
      | _ \<Rightarrow> None)"

definition parse_delete :: "sql_token list \<Rightarrow> sql_stmt option" where
  "parse_delete ts =
     (case ts of
        Word w # Word t # rest \<Rightarrow>
          if w = ''FROM'' then
            (case parse_where rest of Some (atoms, []) \<Rightarrow> Some (SqlDelete t atoms) | _ \<Rightarrow> None)
          else None
      | _ \<Rightarrow> None)"

definition parse_select :: "sql_token list \<Rightarrow> sql_stmt option" where
  "parse_select ts =
     (case parse_names ts of
        (cols, Word w # Word t # rest) \<Rightarrow>
          if w = ''FROM'' then
            (case parse_where rest of
               Some (atoms, rest1) \<Rightarrow>
                 (case parse_order rest1 of
                    (ord, rest2) \<Rightarrow>
                      (case parse_limit rest2 of
                         (lim, []) \<Rightarrow> Some (SqlSelect cols t atoms ord lim)
                       | _ \<Rightarrow> None))
             | None \<Rightarrow> None)
          else None
      | _ \<Rightarrow> None)"

definition parse_sql :: "string \<Rightarrow> sql_stmt option" where
  "parse_sql query =
     (case sql_tokens 0 (sql_words [] query) of
        Word w # rest \<Rightarrow>
          if w = ''INSERT'' then parse_insert rest
          else if w = ''UPDATE'' then parse_update rest
          else if w = ''DELETE'' then parse_delete rest
          else if w = ''SELECT'' then parse_select rest
          else None
      | _ \<Rightarrow> None)"

section \<open>Meaning\<close>

text \<open>
  The engine stores instants as it can represent them (\<open>stamp\<close>). A comparison with \<open>NULL\<close> is not
  true; \<open>parse_sql\<close> gives conjunctions only.
\<close>

definition store_value :: "engine \<Rightarrow> sql_value \<Rightarrow> sql_value" where
  "store_value eng v = (case v of SqlTime t \<Rightarrow> SqlTime (stamp eng t) | _ \<Rightarrow> v)"

definition col_value :: "sql_row \<Rightarrow> string \<Rightarrow> sql_value" where
  "col_value r c = (case map_of r c of Some v \<Rightarrow> v | None \<Rightarrow> SqlNull)"

definition value_le :: "engine \<Rightarrow> sql_value \<Rightarrow> sql_value \<Rightarrow> bool" where
  "value_le eng u v =
     (case u of
        SqlTime a \<Rightarrow> (case v of SqlTime b \<Rightarrow> a \<le> b | _ \<Rightarrow> False)
      | SqlText a \<Rightarrow> (case v of SqlText b \<Rightarrow> collate eng a b | _ \<Rightarrow> False)
      | SqlInt a \<Rightarrow> (case v of SqlInt b \<Rightarrow> sint a \<le> sint b | _ \<Rightarrow> False)
      | SqlNull \<Rightarrow> v = SqlNull)"

definition value_less :: "engine \<Rightarrow> sql_value \<Rightarrow> sql_value \<Rightarrow> bool" where
  "value_less eng u v \<longleftrightarrow> value_le eng u v \<and> \<not> value_le eng v u"

fun atom_holds :: "engine \<Rightarrow> sql_value list \<Rightarrow> sql_row \<Rightarrow> sql_atom \<Rightarrow> bool" where
  "atom_holds eng args r (ColEq c i) = (col_value r c \<noteq> SqlNull \<and> col_value r c = args ! i)"
| "atom_holds eng args r (ColLess c i) = (col_value r c \<noteq> SqlNull \<and> value_less eng (col_value r c) (args ! i))"
| "atom_holds eng args r (ColNotNull c) = (col_value r c \<noteq> SqlNull)"

definition set_cols :: "(string \<times> sql_value) list \<Rightarrow> sql_row \<Rightarrow> sql_row" where
  "set_cols sets r = map (\<lambda>(c, v). (c, case map_of sets c of Some u \<Rightarrow> u | None \<Rightarrow> v)) r"

definition schema_columns :: "string \<Rightarrow> (string \<times> sql_value) list" where
  "schema_columns t =
     (if t = ''task_runs'' then
        [(''run_id'', SqlNull), (''task_name'', SqlNull), (''source'', SqlNull), (''status'', SqlNull),
         (''started_at'', SqlNull), (''finished_at'', SqlNull), (''last_heartbeat_at'', SqlNull),
         (''ttl_seconds'', SqlNull), (''duration_ms'', SqlNull), (''error_message'', SqlNull)]
      else if t = ''task_schedules'' then
        [(''task_name'', SqlNull), (''expected_interval_seconds'', SqlNull), (''cron_expression'', SqlNull),
         (''grace_period_seconds'', SqlInt 0), (''last_seen_at'', SqlNull), (''status'', SqlText ''ok''),
         (''updated_at'', SqlNull)]
      else [])"

datatype sql_failure = SyntaxError | KeyTaken

definition exec_stmt ::
  "engine \<Rightarrow> sql_value list \<Rightarrow> sql_tables \<Rightarrow> sql_stmt \<Rightarrow> sql_failure + (nat \<times> sql_tables)"
where
  "exec_stmt eng args tabs stmt =
     (case stmt of
        SqlUpdate t sets atoms \<Rightarrow>
          (let hit = (\<lambda>r. list_all (atom_holds eng args r) atoms)
           in Inr (cnt_where hit (tabs t),
                   tabs(t := upd_where hit (set_cols (map (\<lambda>(c, i). (c, args ! i)) sets)) (tabs t))))
      | SqlDelete t atoms \<Rightarrow>
          (let hit = (\<lambda>r. list_all (atom_holds eng args r) atoms)
           in Inr (cnt_where hit (tabs t), tabs(t := del_where hit (tabs t))))
      | SqlInsert t cols ps conflict \<Rightarrow>
          (let given = zip cols (map (\<lambda>i. args ! i) ps);
               row = map (\<lambda>(c, dflt). (c, case map_of given c of Some v \<Rightarrow> v | None \<Rightarrow> dflt)) (schema_columns t);
               key = fst (hd (schema_columns t));
               same = (\<lambda>r. col_value r key = col_value row key)
           in if list_ex same (tabs t)
              then (case conflict of
                      Some (k, sets) \<Rightarrow>
                        if k = key
                        then Inr (cnt_where same (tabs t),
                                  tabs(t := upd_where same (set_cols (map (\<lambda>(c, c1). (c, col_value row c1)) sets)) (tabs t)))
                        else Inl KeyTaken
                    | None \<Rightarrow> Inl KeyTaken)
              else Inr (1, tabs(t := tabs t @ [row])))
      | SqlSelect cols t atoms ord lim \<Rightarrow> Inr (0, tabs))"

definition select_stmt :: "engine \<Rightarrow> sql_value list \<Rightarrow> sql_tables \<Rightarrow> sql_stmt \<Rightarrow> sql_value list list" where
  "select_stmt eng args tabs stmt =
     (case stmt of
        SqlSelect cols t atoms ord lim \<Rightarrow>
          (let rows = filter (\<lambda>r. list_all (atom_holds eng args r) atoms) (tabs t);
               sorted =
                 (case ord of
                    None \<Rightarrow> rows
                  | Some (c, desc) \<Rightarrow>
                      order_by (\<lambda>a b. if desc then value_le eng (col_value b c) (col_value a c)
                                      else value_le eng (col_value a c) (col_value b c)) rows)
           in map (\<lambda>r. map (col_value r) cols) (case lim of None \<Rightarrow> sorted | Some n \<Rightarrow> take n sorted))
      | _ \<Rightarrow> [])"

section \<open>Through the connection\<close>

definition db_Exec ::
  "engine \<Rightarrow> string \<Rightarrow> sql_value list \<Rightarrow> sql_tables \<Rightarrow> sql_failure + (nat \<times> sql_tables)"
where
  "db_Exec eng query args tabs =
     (case parse_sql query of
        None \<Rightarrow> Inl SyntaxError
      | Some stmt \<Rightarrow> exec_stmt eng (map (store_value eng) args) tabs stmt)"

definition db_Query :: "engine \<Rightarrow> string \<Rightarrow> sql_value list \<Rightarrow> sql_tables \<Rightarrow> sql_failure + sql_value list list" where
  "db_Query eng query args tabs =
     (case parse_sql query of
        None \<Rightarrow> Inl SyntaxError
      | Some stmt \<Rightarrow> Inr (select_stmt eng (map (store_value eng) args) tabs stmt))"

definition ConnExec ::
  "engine \<Rightarrow> Conn \<Rightarrow> string \<Rightarrow> sql_value list \<Rightarrow> sql_tables \<Rightarrow> sql_failure + (nat \<times> sql_tables)"
where
  "ConnExec eng c query args tabs = db_Exec eng (rebind c query) args tabs"

definition ConnQuery ::
  "engine \<Rightarrow> Conn \<Rightarrow> string \<Rightarrow> sql_value list \<Rightarrow> sql_tables \<Rightarrow> sql_failure + sql_value list list"
where
  "ConnQuery eng c query args tabs = db_Query eng (rebind c query) args tabs"

definition ConnQueryRow ::
  "engine \<Rightarrow> Conn \<Rightarrow> string \<Rightarrow> sql_value list \<Rightarrow> sql_tables \<Rightarrow> sql_failure + sql_value list option"
where
  "ConnQueryRow eng c query args tabs =
     (case db_Query eng (rebind c query) args tabs of
        Inl e \<Rightarrow> Inl e
      | Inr [] \<Rightarrow> Inr None
      | Inr (row # rows) \<Rightarrow> Inr (Some row))"

text \<open>Both backends read the same statement.\<close>

definition reads_as :: "string \<Rightarrow> sql_stmt \<Rightarrow> bool" where
  "reads_as query stmt \<longleftrightarrow> (\<forall>c. parse_sql (rebind c query) = Some stmt)"

lemma reads_asI:
  assumes "is_ascii query" and "parse_sql query = Some stmt"
    and "parse_sql (join_numbered 0 (split_marks query)) = Some stmt"
  shows "reads_as query stmt"
  using assms by (auto simp: reads_as_def rebind_def range_string_ascii rebind_loop_split)

lemma Conn_reads:
  assumes "reads_as query stmt"
  shows "ConnExec eng c query args tabs = exec_stmt eng (map (store_value eng) args) tabs stmt"
    and "ConnQuery eng c query args tabs = Inr (select_stmt eng (map (store_value eng) args) tabs stmt)"
  using assms by (simp_all add: ConnExec_def ConnQuery_def db_Exec_def db_Query_def reads_as_def)

lemma order_by_map: "order_by le (map f xs) = map f (order_by (\<lambda>a b. le (f a) (f b)) xs)"
proof -
  have "insert_by le (f x) (map f ys) = map f (insert_by (\<lambda>a b. le (f a) (f b)) x ys)" for x ys
    by (induction ys) auto
  then show ?thesis
    by (induction xs) (auto simp: order_by_def)
qed

end
