(* ===== verification/SqlRows.thy ===== *)
theory SqlRows
  imports Sql
begin

text \<open>
  The rows of the two tables as SQL sees them, a list of named columns, and the reading of result
  rows by \<open>Scan\<close>. The lemmas carry a statement from encoded rows to the rows of the model.
\<close>

section \<open>Values of a row\<close>

definition opt_value :: "('a \<Rightarrow> sql_value) \<Rightarrow> 'a option \<Rightarrow> sql_value" where
  "opt_value f x = (case x of None \<Rightarrow> SqlNull | Some v \<Rightarrow> f v)"

definition run_cols :: "run_row \<Rightarrow> sql_row" where
  "run_cols r =
     [(''run_id'', SqlText (r_run_id r)), (''task_name'', SqlText (r_task_name r)),
      (''source'', opt_value SqlText (r_source r)), (''status'', SqlText (TaskStatusString (r_status r))),
      (''started_at'', SqlTime (r_started_at r)), (''finished_at'', opt_value SqlTime (r_finished_at r)),
      (''last_heartbeat_at'', opt_value SqlTime (r_last_heartbeat_at r)),
      (''ttl_seconds'', opt_value SqlInt (r_ttl_seconds r)), (''duration_ms'', opt_value SqlInt (r_duration_ms r)),
      (''error_message'', opt_value SqlText (r_error_message r))]"

definition sched_cols :: "sched_row \<Rightarrow> sql_row" where
  "sched_cols r =
     [(''task_name'', SqlText (s_task_name r)),
      (''expected_interval_seconds'', opt_value SqlInt (s_expected_interval_seconds r)),
      (''cron_expression'', opt_value SqlText (s_cron_expression r)),
      (''grace_period_seconds'', SqlInt (s_grace_period_seconds r)),
      (''last_seen_at'', opt_value SqlTime (s_last_seen_at r)),
      (''status'', SqlText (ScheduleStatusString (s_status r))), (''updated_at'', SqlTime (s_updated_at r))]"

definition tables :: "db \<Rightarrow> sql_tables" where
  "tables d = (\<lambda>t. if t = ''task_runs'' then map run_cols (task_runs d)
                   else if t = ''task_schedules'' then map sched_cols (task_schedules d) else [])"

text \<open>The tables in the order in which the engine delivers the rows of the next unordered query.\<close>

definition scanned :: "engine \<Rightarrow> db \<Rightarrow> sql_tables" where
  "scanned eng d =
     tables (d\<lparr>task_runs := scan_runs eng (Suc (stmts d)) (task_runs d),
               task_schedules := scan_schedules eng (Suc (stmts d)) (task_schedules d)\<rparr>)"

text \<open>\<open>Scan\<close> into a string, an instant or an integer, and into \<open>sql.NullString\<close> and its like.\<close>

definition as_text :: "sql_value \<Rightarrow> string option" where
  "as_text v = (case v of SqlText s \<Rightarrow> Some s | _ \<Rightarrow> None)"

definition as_time :: "sql_value \<Rightarrow> time option" where
  "as_time v = (case v of SqlTime t \<Rightarrow> Some t | _ \<Rightarrow> None)"

definition as_int :: "sql_value \<Rightarrow> int64 option" where
  "as_int v = (case v of SqlInt n \<Rightarrow> Some n | _ \<Rightarrow> None)"

definition nullable :: "(sql_value \<Rightarrow> 'a option) \<Rightarrow> sql_value \<Rightarrow> 'a option option" where
  "nullable scan v = (if v = SqlNull then Some None else map_option Some (scan v))"

lemma scan_values [simp]:
  "as_text (SqlText s) = Some s" "as_time (SqlTime t) = Some t" "as_int (SqlInt n) = Some n"
  "nullable as_text (opt_value SqlText x) = Some x" "nullable as_time (opt_value SqlTime y) = Some y"
  "nullable as_int (opt_value SqlInt z) = Some z"
  by (simp_all add: as_text_def as_time_def as_int_def nullable_def opt_value_def split: option.split)

lemma opt_value_eq [simp]:
  "opt_value SqlText x = SqlNull \<longleftrightarrow> x = None" "opt_value SqlTime y = SqlNull \<longleftrightarrow> y = None"
  "opt_value SqlInt z = SqlNull \<longleftrightarrow> z = None" "opt_value f (Some a) = f a" "opt_value f None = SqlNull"
  by (simp_all add: opt_value_def split: option.split)

lemma col_run_cols [simp]:
  "col_value (run_cols r) ''run_id'' = SqlText (r_run_id r)"
  "col_value (run_cols r) ''task_name'' = SqlText (r_task_name r)"
  "col_value (run_cols r) ''source'' = opt_value SqlText (r_source r)"
  "col_value (run_cols r) ''status'' = SqlText (TaskStatusString (r_status r))"
  "col_value (run_cols r) ''started_at'' = SqlTime (r_started_at r)"
  "col_value (run_cols r) ''finished_at'' = opt_value SqlTime (r_finished_at r)"
  "col_value (run_cols r) ''last_heartbeat_at'' = opt_value SqlTime (r_last_heartbeat_at r)"
  "col_value (run_cols r) ''ttl_seconds'' = opt_value SqlInt (r_ttl_seconds r)"
  "col_value (run_cols r) ''duration_ms'' = opt_value SqlInt (r_duration_ms r)"
  "col_value (run_cols r) ''error_message'' = opt_value SqlText (r_error_message r)"
  by (simp_all add: col_value_def run_cols_def)

lemma col_sched_cols [simp]:
  "col_value (sched_cols r) ''task_name'' = SqlText (s_task_name r)"
  "col_value (sched_cols r) ''expected_interval_seconds'' = opt_value SqlInt (s_expected_interval_seconds r)"
  "col_value (sched_cols r) ''cron_expression'' = opt_value SqlText (s_cron_expression r)"
  "col_value (sched_cols r) ''grace_period_seconds'' = SqlInt (s_grace_period_seconds r)"
  "col_value (sched_cols r) ''last_seen_at'' = opt_value SqlTime (s_last_seen_at r)"
  "col_value (sched_cols r) ''status'' = SqlText (ScheduleStatusString (s_status r))"
  "col_value (sched_cols r) ''updated_at'' = SqlTime (s_updated_at r)"
  by (simp_all add: col_value_def sched_cols_def)

lemma tables_at [simp]:
  "tables d ''task_runs'' = map run_cols (task_runs d)"
  "tables d ''task_schedules'' = map sched_cols (task_schedules d)"
  by (simp_all add: tables_def)

lemma tables_upd [simp]:
  "tables (d\<lparr>task_runs := rows\<rparr>) = (tables d)(''task_runs'' := map run_cols rows)"
  "tables (d\<lparr>task_schedules := srows\<rparr>) = (tables d)(''task_schedules'' := map sched_cols srows)"
  "tables (d\<lparr>stmts := n\<rparr>) = tables d"
  by (auto simp: tables_def)

text \<open>A statement on encoded rows is a statement on the rows.\<close>

lemma map_rows:
  assumes "\<And>r. p (g r) = q r"
  shows "cnt_where p (map g rows) = cnt_where q rows" and "del_where p (map g rows) = map g (del_where q rows)"
    and "(\<And>r. q r \<Longrightarrow> f (g r) = g (h r)) \<Longrightarrow> upd_where p f (map g rows) = map g (upd_where q h rows)"
  using assms by (auto simp: cnt_where_def del_where_def upd_where_def filter_map comp_def)

lemma exec_update:
  assumes "\<And>r. list_all (atom_holds eng args (run_cols r)) atoms = p r"
    and "\<And>r. p r \<Longrightarrow> set_cols (map (\<lambda>(c, i). (c, args ! i)) sets) (run_cols r) = run_cols (f r)"
  shows "exec_stmt eng args (tables d) (SqlUpdate ''task_runs'' sets atoms) =
    Inr (cnt_where p (task_runs d), (tables d)(''task_runs'' := map run_cols (upd_where p f (task_runs d))))"
  using map_rows[of "\<lambda>r. list_all (atom_holds eng args r) atoms" run_cols p, OF assms(1)] assms(2)
  by (simp add: exec_stmt_def Let_def)

lemma exec_update_schedules:
  assumes "\<And>r. list_all (atom_holds eng args (sched_cols r)) atoms = p r"
    and "\<And>r. p r \<Longrightarrow> set_cols (map (\<lambda>(c, i). (c, args ! i)) sets) (sched_cols r) = sched_cols (f r)"
  shows "exec_stmt eng args (tables d) (SqlUpdate ''task_schedules'' sets atoms) =
    Inr (cnt_where p (task_schedules d),
         (tables d)(''task_schedules'' := map sched_cols (upd_where p f (task_schedules d))))"
  using map_rows[of "\<lambda>r. list_all (atom_holds eng args r) atoms" sched_cols p, OF assms(1)] assms(2)
  by (simp add: exec_stmt_def Let_def)

lemma exec_delete:
  assumes "\<And>r. list_all (atom_holds eng args (run_cols r)) atoms = p r"
  shows "exec_stmt eng args (tables d) (SqlDelete ''task_runs'' atoms) =
    Inr (cnt_where p (task_runs d), (tables d)(''task_runs'' := map run_cols (del_where p (task_runs d))))"
  using map_rows(1,2)[of "\<lambda>r. list_all (atom_holds eng args r) atoms" run_cols p, OF assms(1)]
  by (simp add: exec_stmt_def Let_def)

lemma exec_delete_schedules:
  assumes "\<And>r. list_all (atom_holds eng args (sched_cols r)) atoms = p r"
  shows "exec_stmt eng args (tables d) (SqlDelete ''task_schedules'' atoms) =
    Inr (cnt_where p (task_schedules d), (tables d)(''task_schedules'' := map sched_cols (del_where p (task_schedules d))))"
  using map_rows(1,2)[of "\<lambda>r. list_all (atom_holds eng args r) atoms" sched_cols p, OF assms(1)]
  by (simp add: exec_stmt_def Let_def)

lemma find_filter: "at_key key k rows = (case filter (\<lambda>r. key r = k) rows of [] \<Rightarrow> None | r # rs \<Rightarrow> Some r)"
  by (induction rows) (auto simp: at_key_def)

definition db_error :: "engine \<Rightarrow> sql_failure \<Rightarrow> store_error" where
  "db_error eng e = DriverError (case e of KeyTaken \<Rightarrow> key_error eng | SyntaxError \<Rightarrow> ''syntax error'')"

end
