(* ===== verification/TaskSql.thy ===== *)
theory TaskSql
  imports SqlRows "HOL-Library.Monad_Syntax"
begin

text \<open>
  The SQL of \<open>internal/store/task_store.go\<close>: the text of each statement as the source writes it, line
  breaks included, the arguments bound to its placeholders, and the columns \<open>scanTaskRun\<close> reads.
  The lemmas show that either backend reads each text as the same statement, and that this
  statement does to the encoded tables what the method of \<open>TaskStore\<close> does to its rows.
\<close>

section \<open>The texts\<close>

definition line_break :: "nat \<Rightarrow> string" where
  "line_break tabs = CHR 0x0A # replicate tabs (CHR 0x09) @ '' ''"

definition Create_sql :: string where
  "Create_sql =
     ''INSERT INTO task_runs (run_id, task_name, source, status, started_at, last_heartbeat_at, ttl_seconds)'' @
     line_break 2 @ ''VALUES (?, ?, ?, ?, ?, ?, ?)''"

definition Heartbeat_sql :: string where
  "Heartbeat_sql = ''UPDATE task_runs SET last_heartbeat_at = ? WHERE run_id = ? AND status = ?''"

definition Started_sql :: string where
  "Started_sql = ''SELECT started_at FROM task_runs WHERE run_id = ?''"

definition Finish_sql :: string where
  "Finish_sql =
     ''UPDATE task_runs SET status = ?, finished_at = ?, duration_ms = ?, error_message = ? WHERE run_id = ?''"

definition Candidates_sql :: string where
  "Candidates_sql =
     ''SELECT run_id, started_at, last_heartbeat_at, ttl_seconds FROM task_runs'' @
     line_break 2 @ ''WHERE status = ? AND ttl_seconds IS NOT NULL''"

definition Timeout_sql :: string where
  "Timeout_sql =
     ''UPDATE task_runs'' @
     line_break 3 @ ''SET status = ?, finished_at = ?, duration_ms = ?, error_message = ?'' @
     line_break 3 @ ''WHERE run_id = ? AND status = ?''"

definition DeleteOlderThan_sql :: string where
  "DeleteOlderThan_sql = ''DELETE FROM task_runs WHERE finished_at IS NOT NULL AND finished_at < ?''"

definition run_columns :: "string list" where
  "run_columns =
     [''run_id'', ''task_name'', ''source'', ''status'', ''started_at'', ''finished_at'', ''last_heartbeat_at'',
      ''ttl_seconds'', ''duration_ms'', ''error_message'']"

definition run_columns_sql :: string where
  "run_columns_sql =
     ''SELECT run_id, task_name, source, status, started_at, finished_at, last_heartbeat_at, ttl_seconds, duration_ms, error_message''"

definition Get_sql :: string where
  "Get_sql = run_columns_sql @ line_break 2 @ ''FROM task_runs WHERE run_id = ?''"

definition List_sql :: "string \<Rightarrow> string" where
  "List_sql status =
     run_columns_sql @ line_break 1 @ ''         FROM task_runs'' @
     (if status \<noteq> '''' then '' WHERE status = ?'' else '''') @ '' ORDER BY started_at DESC LIMIT 200''"

section \<open>The methods, on SQL\<close>

definition affected_rows :: "engine \<Rightarrow> sql_failure + (nat \<times> sql_tables) \<Rightarrow> sql_tables \<Rightarrow> (store_error + unit) \<times> sql_tables" where
  "affected_rows eng res tabs =
     (case res of
        Inl e \<Rightarrow> (Inl (db_error eng e), tabs)
      | Inr (n, tabs1) \<Rightarrow> (checkRowsAffected (Inr \<lparr>affected = n, affected_err = None\<rparr>), tabs1))"

definition sql_Create :: "engine \<Rightarrow> Conn \<Rightarrow> TaskRun \<Rightarrow> sql_tables \<Rightarrow> (store_error + unit) \<times> sql_tables" where
  "sql_Create eng c t tabs =
     (case ConnExec eng c Create_sql
             [SqlText (RunID t), SqlText (TaskName t), SqlText (Source t), SqlText (TaskStatusString (Status t)),
              SqlTime (StartedAt t), SqlTime (StartedAt t), opt_value SqlInt (TTLSeconds t)] tabs of
        Inl e \<Rightarrow> (Inl (db_error eng e), tabs)
      | Inr (n, tabs1) \<Rightarrow> (Inr (), tabs1))"

definition sql_Heartbeat :: "engine \<Rightarrow> Conn \<Rightarrow> string \<Rightarrow> time \<Rightarrow> sql_tables \<Rightarrow> (store_error + unit) \<times> sql_tables" where
  "sql_Heartbeat eng c runID at tabs =
     affected_rows eng (ConnExec eng c Heartbeat_sql
       [SqlTime at, SqlText runID, SqlText (TaskStatusString StatusRunning)] tabs) tabs"

definition sql_Finish ::
  "engine \<Rightarrow> Conn \<Rightarrow> string \<Rightarrow> TaskStatus \<Rightarrow> string \<Rightarrow> time \<Rightarrow> sql_tables \<Rightarrow> (store_error + unit) \<times> sql_tables"
where
  "sql_Finish eng c runID status errMsg finishedAt tabs =
     (case ConnQueryRow eng c Started_sql [SqlText runID] tabs of
        Inl e \<Rightarrow> (Inl (db_error eng e), tabs)
      | Inr None \<Rightarrow> (Inl ErrNotFound, tabs)
      | Inr (Some row) \<Rightarrow>
          (case map as_time row of
             [Some startedAt] \<Rightarrow>
               (let durationMs = Milliseconds (Sub finishedAt startedAt)
                in affected_rows eng (ConnExec eng c Finish_sql
                     [SqlText (TaskStatusString status), SqlTime finishedAt, SqlInt durationMs, SqlText errMsg,
                      SqlText runID] tabs) tabs)
           | _ \<Rightarrow> (Inl (DriverError ''scan''), tabs)))"

definition task_status :: "string \<Rightarrow> TaskStatus option" where
  "task_status s =
     find (\<lambda>st. TaskStatusString st = s) [StatusRunning, StatusSuccess, StatusFailed, StatusTimeout, StatusMissed]"

definition scan_run_row :: "sql_value list \<Rightarrow> TaskRun option" where
  "scan_run_row row =
     (case row of
        [v0, v1, v2, v3, v4, v5, v6, v7, v8, v9] \<Rightarrow>
          do { runID \<leftarrow> as_text v0; taskName \<leftarrow> as_text v1; source \<leftarrow> nullable as_text v2;
               text \<leftarrow> as_text v3; status \<leftarrow> task_status text; startedAt \<leftarrow> as_time v4;
               finishedAt \<leftarrow> nullable as_time v5; lastHeartbeatAt \<leftarrow> nullable as_time v6;
               ttlSeconds \<leftarrow> nullable as_int v7; durationMs \<leftarrow> nullable as_int v8;
               errMsg \<leftarrow> nullable as_text v9;
               Some \<lparr>RunID = runID, TaskName = taskName, Source = (case source of None \<Rightarrow> [] | Some s \<Rightarrow> s),
                     Status = status, StartedAt = startedAt, FinishedAt = finishedAt,
                     LastHeartbeatAt = lastHeartbeatAt, TTLSeconds = ttlSeconds, DurationMs = durationMs,
                     ErrorMessage = (case errMsg of None \<Rightarrow> [] | Some s \<Rightarrow> s)\<rparr> }
      | _ \<Rightarrow> None)"

definition sql_TaskGet :: "engine \<Rightarrow> Conn \<Rightarrow> string \<Rightarrow> sql_tables \<Rightarrow> store_error + TaskRun" where
  "sql_TaskGet eng c runID tabs =
     (case ConnQueryRow eng c Get_sql [SqlText runID] tabs of
        Inl e \<Rightarrow> Inl (db_error eng e)
      | Inr None \<Rightarrow> Inl ErrNotFound
      | Inr (Some row) \<Rightarrow> (case scan_run_row row of None \<Rightarrow> Inl (DriverError ''scan'') | Some t \<Rightarrow> Inr t))"

definition sql_TaskList :: "engine \<Rightarrow> Conn \<Rightarrow> string \<Rightarrow> sql_tables \<Rightarrow> store_error + TaskRun list" where
  "sql_TaskList eng c status tabs =
     (case ConnQuery eng c (List_sql status) (if status \<noteq> [] then [SqlText status] else []) tabs of
        Inl e \<Rightarrow> Inl (db_error eng e)
      | Inr rows \<Rightarrow>
          (case those (map scan_run_row rows) of None \<Rightarrow> Inl (DriverError ''scan'') | Some ts \<Rightarrow> Inr ts))"

definition scan_candidate_row :: "sql_value list \<Rightarrow> candidate option" where
  "scan_candidate_row row =
     (case row of
        [v0, v1, v2, v3] \<Rightarrow>
          do { runID \<leftarrow> as_text v0; startedAt \<leftarrow> as_time v1; lastHeartbeatAt \<leftarrow> nullable as_time v2;
               ttlSeconds \<leftarrow> as_int v3;
               Some \<lparr>c_runID = runID,
                     c_reference = (case lastHeartbeatAt of Some t \<Rightarrow> t | None \<Rightarrow> startedAt),
                     c_ttl = ttlSeconds\<rparr> }
      | _ \<Rightarrow> None)"

definition sql_candidates :: "engine \<Rightarrow> Conn \<Rightarrow> sql_tables \<Rightarrow> store_error + candidate list" where
  "sql_candidates eng c tabs =
     (case ConnQuery eng c Candidates_sql [SqlText (TaskStatusString StatusRunning)] tabs of
        Inl e \<Rightarrow> Inl (db_error eng e)
      | Inr rows \<Rightarrow>
          (case those (map scan_candidate_row rows) of None \<Rightarrow> Inl (DriverError ''scan'') | Some cs \<Rightarrow> Inr cs))"

definition sql_timeout :: "engine \<Rightarrow> Conn \<Rightarrow> time \<Rightarrow> candidate \<Rightarrow> sql_tables \<Rightarrow> sql_failure + (nat \<times> sql_tables)" where
  "sql_timeout eng c now cand tabs =
     ConnExec eng c Timeout_sql
       [SqlText (TaskStatusString StatusTimeout), SqlTime now, SqlInt (Milliseconds (Sub now (c_reference cand))),
        SqlText ''task exceeded TTL without heartbeat or completion'', SqlText (c_runID cand),
        SqlText (TaskStatusString StatusRunning)] tabs"

definition sql_DeleteOlderThan :: "engine \<Rightarrow> Conn \<Rightarrow> time \<Rightarrow> sql_tables \<Rightarrow> (store_error + nat) \<times> sql_tables" where
  "sql_DeleteOlderThan eng c cutoff tabs =
     (case ConnExec eng c DeleteOlderThan_sql [SqlTime cutoff] tabs of
        Inl e \<Rightarrow> (Inl (db_error eng e), tabs)
      | Inr (n, tabs1) \<Rightarrow> (Inr n, tabs1))"

fun sql_sweep_loop ::
  "engine \<Rightarrow> Conn \<Rightarrow> time \<Rightarrow> TaskRun list \<Rightarrow> candidate list \<Rightarrow> sql_tables \<Rightarrow>
   (TaskRun list \<times> store_error option) \<times> sql_tables"
where
  "sql_sweep_loop eng c now timedOut [] tabs = ((timedOut, None), tabs)"
| "sql_sweep_loop eng c now timedOut (cand # cands) tabs =
     (if within_ttl now cand then sql_sweep_loop eng c now timedOut cands tabs
      else (case sql_timeout eng c now cand tabs of
              Inl e \<Rightarrow> ((timedOut, Some (db_error eng e)), tabs)
            | Inr (n, tabs1) \<Rightarrow>
                (if n = 0 then sql_sweep_loop eng c now timedOut cands tabs1
                 else (case sql_TaskGet eng c (c_runID cand) tabs1 of
                         Inl err \<Rightarrow> ((timedOut, Some err), tabs1)
                       | Inr task \<Rightarrow> sql_sweep_loop eng c now (timedOut @ [task]) cands tabs1))))"

text \<open>\<open>delivered\<close> are the tables in the order in which the engine delivers the rows of the \<open>SELECT\<close>.\<close>

definition sql_SweepTimeouts ::
  "engine \<Rightarrow> Conn \<Rightarrow> time \<Rightarrow> sql_tables \<Rightarrow> sql_tables \<Rightarrow> (TaskRun list \<times> store_error option) \<times> sql_tables"
where
  "sql_SweepTimeouts eng c now delivered tabs =
     (case sql_candidates eng c delivered of
        Inl err \<Rightarrow> (([], Some err), tabs)
      | Inr cands \<Rightarrow> sql_sweep_loop eng c now [] cands tabs)"

section \<open>What the backends read\<close>

lemma task_reads:
  "reads_as Create_sql (SqlInsert ''task_runs''
     [''run_id'', ''task_name'', ''source'', ''status'', ''started_at'', ''last_heartbeat_at'', ''ttl_seconds'']
     [0, 1, 2, 3, 4, 5, 6] None)"
  "reads_as Heartbeat_sql (SqlUpdate ''task_runs'' [(''last_heartbeat_at'', 0)] [ColEq ''run_id'' 1, ColEq ''status'' 2])"
  "reads_as Started_sql (SqlSelect [''started_at''] ''task_runs'' [ColEq ''run_id'' 0] None None)"
  "reads_as Finish_sql (SqlUpdate ''task_runs''
     [(''status'', 0), (''finished_at'', 1), (''duration_ms'', 2), (''error_message'', 3)] [ColEq ''run_id'' 4])"
  "reads_as Candidates_sql (SqlSelect [''run_id'', ''started_at'', ''last_heartbeat_at'', ''ttl_seconds''] ''task_runs''
     [ColEq ''status'' 0, ColNotNull ''ttl_seconds''] None None)"
  "reads_as Timeout_sql (SqlUpdate ''task_runs''
     [(''status'', 0), (''finished_at'', 1), (''duration_ms'', 2), (''error_message'', 3)]
     [ColEq ''run_id'' 4, ColEq ''status'' 5])"
  "reads_as DeleteOlderThan_sql (SqlDelete ''task_runs'' [ColNotNull ''finished_at'', ColLess ''finished_at'' 0])"
  "reads_as Get_sql (SqlSelect run_columns ''task_runs'' [ColEq ''run_id'' 0] None None)"
  by (rule reads_asI; code_simp)+

lemma List_reads:
  "reads_as (List_sql []) (SqlSelect run_columns ''task_runs'' [] (Some (''started_at'', True)) (Some 200))"
  "status \<noteq> [] \<Longrightarrow>
     reads_as (List_sql status) (SqlSelect run_columns ''task_runs'' [ColEq ''status'' 0] (Some (''started_at'', True)) (Some 200))"
proof -
  show "reads_as (List_sql []) (SqlSelect run_columns ''task_runs'' [] (Some (''started_at'', True)) (Some 200))"
    by (rule reads_asI; code_simp)
  have "reads_as (List_sql ''x'') (SqlSelect run_columns ''task_runs'' [ColEq ''status'' 0] (Some (''started_at'', True)) (Some 200))"
    by (rule reads_asI; code_simp)
  then show "status \<noteq> [] \<Longrightarrow>
     reads_as (List_sql status) (SqlSelect run_columns ''task_runs'' [ColEq ''status'' 0] (Some (''started_at'', True)) (Some 200))"
    by (simp add: List_sql_def)
qed

section \<open>The methods refine their SQL\<close>

lemmas sql_exec_simps = ConnQueryRow_def affected_rows_def db_error_def store_value_def

lemma Conn_Row_reads:
  "reads_as query stmt \<Longrightarrow> ConnQueryRow eng c query args tabs =
     Inr (case select_stmt eng (map (store_value eng) args) tabs stmt of [] \<Rightarrow> None | row # rows \<Rightarrow> Some row)"
  by (simp add: ConnQueryRow_def db_Query_def reads_as_def split: list.split)

lemma task_status_string [simp]: "task_status (TaskStatusString st) = Some st"
  by (cases st) (simp_all add: task_status_def)

lemma scan_run_cols [simp]: "scan_run_row (map (col_value (run_cols r)) run_columns) = Some (scanTaskRun r)"
  by (simp add: scan_run_row_def run_columns_def scanTaskRun_def)

lemma those_Some: "(\<And>x. x \<in> set xs \<Longrightarrow> f (g x) = Some (h x)) \<Longrightarrow> those (map f (map g xs)) = Some (map h xs)"
  by (induction xs) auto

lemma stored_args [simp]:
  "store_value eng (SqlText s) = SqlText s" "store_value eng (SqlInt n) = SqlInt n"
  "store_value eng (SqlTime t) = SqlTime (stamp eng t)" "store_value eng SqlNull = SqlNull"
  "store_value eng (opt_value SqlInt i) = opt_value SqlInt i" "store_value eng (opt_value SqlText x) = opt_value SqlText x"
  by (simp_all add: store_value_def opt_value_def split: option.split)

lemma set_run_cols [simp]:
  "set_cols [(''last_heartbeat_at'', SqlTime t)] (run_cols r) = run_cols (r\<lparr>r_last_heartbeat_at := Some t\<rparr>)"
  "set_cols [(''status'', SqlText (TaskStatusString st)), (''finished_at'', SqlTime t), (''duration_ms'', SqlInt n),
     (''error_message'', SqlText msg)] (run_cols r) =
   run_cols (r\<lparr>r_status := st, r_finished_at := Some t, r_duration_ms := Some n, r_error_message := Some msg\<rparr>)"
  by (simp_all add: set_cols_def run_cols_def)

lemma Heartbeat_sql_refined:
  assumes "no_faults eng"
  shows "map_prod id tables (Heartbeat eng k at d) = sql_Heartbeat eng c k at (tables d)"
proof -
  have "exec_stmt eng [SqlTime (stamp eng at), SqlText k, SqlText (TaskStatusString StatusRunning)] (tables d)
      (SqlUpdate ''task_runs'' [(''last_heartbeat_at'', 0)] [ColEq ''run_id'' 1, ColEq ''status'' 2]) =
    Inr (cnt_where (\<lambda>r. r_run_id r = k \<and> r_status r = StatusRunning) (task_runs d),
      (tables d)(''task_runs'' := map run_cols
        (upd_where (\<lambda>r. r_run_id r = k \<and> r_status r = StatusRunning) (set_heartbeat eng at) (task_runs d))))"
    by (rule exec_update)
       (auto simp del: TaskStatusString.simps simp: set_heartbeat_def)
  then show ?thesis
    by (simp add: sql_Heartbeat_def Conn_reads(1)[OF task_reads(2)] affected_rows_def Heartbeat_def
        Exec_update_runs[OF assms] del: TaskStatusString.simps)
qed

lemma update_finished:
  "exec_stmt eng [SqlText (TaskStatusString st), SqlTime (stamp eng at), SqlInt n, SqlText msg, SqlText k] (tables d)
      (SqlUpdate ''task_runs'' [(''status'', 0), (''finished_at'', 1), (''duration_ms'', 2), (''error_message'', 3)]
        [ColEq ''run_id'' 4]) =
    Inr (cnt_where (\<lambda>r. r_run_id r = k) (task_runs d),
      (tables d)(''task_runs'' := map run_cols
        (upd_where (\<lambda>r. r_run_id r = k) (set_finished eng (st, at, n, msg)) (task_runs d))))"
  by (rule exec_update)
     (auto simp del: TaskStatusString.simps simp: set_finished_def)

lemma Finish_sql_refined:
  assumes "no_faults eng"
  shows "map_prod id tables (Finish eng k st msg at d) = sql_Finish eng c k st msg at (tables d)"
proof -
  have sel: "select_stmt eng [SqlText k] (tables d)
      (SqlSelect [''started_at''] ''task_runs'' [ColEq ''run_id'' 0] None None) =
    map (\<lambda>r. [SqlTime (r_started_at r)]) (filter (\<lambda>r. r_run_id r = k) (task_runs d))"
    by (simp add: select_stmt_def filter_map comp_def)
  show ?thesis
    by (cases "filter (\<lambda>r. r_run_id r = k) (task_runs d)")
       (simp_all add: sql_Finish_def Finish_def Query_no_faults[OF assms] find_filter Let_def
         Conn_Row_reads[OF task_reads(3)] Conn_reads(1)[OF task_reads(4)] sel affected_rows_def
         Exec_update_runs[OF assms] update_finished[unfolded One_nat_def] split_beta del: TaskStatusString.simps)
qed

lemma TaskGet_sql_refined:
  assumes "no_faults eng"
  shows "fst (TaskGet eng k d) = sql_TaskGet eng c k (tables d)"
proof -
  have sel: "select_stmt eng [SqlText k] (tables d) (SqlSelect run_columns ''task_runs'' [ColEq ''run_id'' 0] None None) =
    map (\<lambda>r. map (col_value (run_cols r)) run_columns) (filter (\<lambda>r. r_run_id r = k) (task_runs d))"
    by (simp add: select_stmt_def filter_map comp_def)
  show ?thesis
    by (cases "filter (\<lambda>r. r_run_id r = k) (task_runs d)")
       (simp_all add: sql_TaskGet_def TaskGet_no_faults[OF assms] find_filter Conn_Row_reads[OF task_reads(8)] sel)
qed

lemma DeleteOlderThan_sql_refined:
  assumes "no_faults eng"
  shows "map_prod id tables (DeleteOlderThan eng cutoff d) = sql_DeleteOlderThan eng c cutoff (tables d)"
proof -
  have p: "list_all (atom_holds eng [SqlTime (stamp eng cutoff)] (run_cols r))
      [ColNotNull ''finished_at'', ColLess ''finished_at'' 0] = older_than (stamp eng cutoff) r" for r
    by (cases "r_finished_at r") (auto simp: older_than_def value_less_def value_le_def)
  have "exec_stmt eng [SqlTime (stamp eng cutoff)] (tables d)
      (SqlDelete ''task_runs'' [ColNotNull ''finished_at'', ColLess ''finished_at'' 0]) =
    Inr (cnt_where (older_than (stamp eng cutoff)) (task_runs d),
      (tables d)(''task_runs'' := map run_cols (del_where (older_than (stamp eng cutoff)) (task_runs d))))"
    by (rule exec_delete) (rule p)
  then show ?thesis
    by (simp add: sql_DeleteOlderThan_def Conn_reads(1)[OF task_reads(7)] DeleteOlderThan_def
        Exec_no_faults[OF assms] delete_runs_def RowsAffected_def)
qed

lemma timeout_sql_refined:
  "sql_timeout eng c now cand (tables d) =
     map_sum (\<lambda>e. KeyTaken) (map_prod id tables) (timeout_stmt eng now cand d)"
proof -
  have "exec_stmt eng [SqlText (TaskStatusString StatusTimeout), SqlTime (stamp eng now),
      SqlInt (Milliseconds (Sub now (c_reference cand))), SqlText ttl_message, SqlText (c_runID cand),
      SqlText (TaskStatusString StatusRunning)] (tables d)
      (SqlUpdate ''task_runs'' [(''status'', 0), (''finished_at'', 1), (''duration_ms'', 2), (''error_message'', 3)]
        [ColEq ''run_id'' 4, ColEq ''status'' 5]) =
    Inr (cnt_where (\<lambda>r. r_run_id r = c_runID cand \<and> r_status r = StatusRunning) (task_runs d),
      (tables d)(''task_runs'' := map run_cols
        (upd_where (\<lambda>r. r_run_id r = c_runID cand \<and> r_status r = StatusRunning) (set_timeout eng now cand) (task_runs d))))"
    by (rule exec_update)
       (auto simp del: TaskStatusString.simps simp: set_timeout_def)
  then show ?thesis
    by (simp add: sql_timeout_def Conn_reads(1)[OF task_reads(6)] timeout_stmt_def update_runs_def ttl_message_def
        del: TaskStatusString.simps)
qed

lemma Create_sql_refined:
  assumes "no_faults eng"
  shows "map_prod id tables (Create eng t d) = sql_Create eng c t (tables d)"
proof -
  let ?args = "[SqlText (RunID t), SqlText (TaskName t), SqlText (Source t), SqlText (TaskStatusString (Status t)),
    SqlTime (stamp eng (StartedAt t)), SqlTime (stamp eng (StartedAt t)), opt_value SqlInt (TTLSeconds t)]"
  let ?stmt = "SqlInsert ''task_runs''
     [''run_id'', ''task_name'', ''source'', ''status'', ''started_at'', ''last_heartbeat_at'', ''ttl_seconds'']
     [0, 1, 2, 3, 4, 5, 6] None"
  have row: "map (\<lambda>(n, dflt). (n, case map_of (zip [''run_id'', ''task_name'', ''source'', ''status'', ''started_at'',
        ''last_heartbeat_at'', ''ttl_seconds''] (map (\<lambda>i. ?args ! i) [0, 1, 2, 3, 4, 5, 6])) n of
      Some v \<Rightarrow> v | None \<Rightarrow> dflt)) (schema_columns ''task_runs'') = run_cols (new_run_row eng t)"
    by (simp add: schema_columns_def run_cols_def new_run_row_def)
  have key: "fst (hd (schema_columns ''task_runs'')) = ''run_id''"
    by (simp add: schema_columns_def)
  have "exec_stmt eng ?args (tables d) ?stmt =
      (if r_run_id (new_run_row eng t) \<in> r_run_id ` set (task_runs d) then Inl KeyTaken
       else Inr (1, (tables d)(''task_runs'' := map run_cols (task_runs d @ [new_run_row eng t]))))"
    unfolding exec_stmt_def sql_stmt.case Let_def row key
    by (auto simp: list_ex_iff intro!: rev_image_eqI)
  then show ?thesis
    by (simp add: sql_Create_def Conn_reads(1)[OF task_reads(1)] Create_def Exec_no_faults[OF assms] insert_run_def
        db_error_def del: TaskStatusString.simps)
qed

lemma TaskList_sql_refined:
  assumes "no_faults eng"
  shows "fst (TaskList eng status d) = sql_TaskList eng c status (scanned eng d)"
proof -
  let ?rows = "scan_runs eng (Suc (stmts d)) (task_runs d)"
  have ord: "order_by (\<lambda>a b. value_le eng (col_value b ''started_at'') (col_value a ''started_at'')) (map run_cols rows) =
      map run_cols (order_by newest_first rows)" for rows
    by (simp add: order_by_map value_le_def newest_first_def[abs_def])
  have sel: "select_stmt eng (if status \<noteq> [] then [SqlText status] else []) (scanned eng d)
      (SqlSelect run_columns ''task_runs'' (if status \<noteq> [] then [ColEq ''status'' 0] else []) (Some (''started_at'', True)) (Some 200)) =
    map (\<lambda>r. map (col_value (run_cols r)) run_columns)
      (take 200 (order_by newest_first (filter (\<lambda>r. status = [] \<or> TaskStatusString (r_status r) = status) ?rows)))"
    by (auto simp: select_stmt_def scanned_def filter_map comp_def ord take_map simp del: TaskStatusString.simps)
  have scan: "those (map scan_run_row (map (\<lambda>r. map (col_value (run_cols r)) run_columns) rows)) = Some (map scanTaskRun rows)" for rows
    by (rule those_Some) simp
  have "ConnQuery eng c (List_sql status) (if status \<noteq> [] then [SqlText status] else []) (scanned eng d) =
    Inr (select_stmt eng (if status \<noteq> [] then [SqlText status] else []) (scanned eng d)
      (SqlSelect run_columns ''task_runs'' (if status \<noteq> [] then [ColEq ''status'' 0] else []) (Some (''started_at'', True)) (Some 200)))"
    using Conn_reads(2)[OF List_reads(1)] Conn_reads(2)[OF List_reads(2)] by simp
  then show ?thesis
    unfolding sql_TaskList_def sel by (simp add: scan TaskList_def Query_no_faults[OF assms] list_rows_def del: map_map)
qed

lemma candidates_sql_refined:
  assumes "no_faults eng"
  shows "fst (select_candidates eng d) = sql_candidates eng c (scanned eng d)"
proof -
  let ?rows = "scan_runs eng (Suc (stmts d)) (task_runs d)"
  have sel: "select_stmt eng [SqlText (TaskStatusString StatusRunning)] (scanned eng d)
      (SqlSelect [''run_id'', ''started_at'', ''last_heartbeat_at'', ''ttl_seconds''] ''task_runs''
        [ColEq ''status'' 0, ColNotNull ''ttl_seconds''] None None) =
    map (\<lambda>r. [SqlText (r_run_id r), SqlTime (r_started_at r), opt_value SqlTime (r_last_heartbeat_at r),
               opt_value SqlInt (r_ttl_seconds r)]) (filter has_ttl ?rows)"
    by (simp add: select_stmt_def scanned_def filter_map comp_def has_ttl_def[abs_def] del: TaskStatusString.simps)
  have "those (map scan_candidate_row (map (\<lambda>r. [SqlText (r_run_id r), SqlTime (r_started_at r),
      opt_value SqlTime (r_last_heartbeat_at r), opt_value SqlInt (r_ttl_seconds r)]) (filter has_ttl ?rows))) =
    Some (map scan_candidate (filter has_ttl ?rows))"
    by (rule those_Some) (auto simp: scan_candidate_row_def scan_candidate_def has_ttl_def)
  then show ?thesis
    by (simp add: sql_candidates_def Conn_reads(2)[OF task_reads(5)] sel select_candidates_def Query_no_faults[OF assms]
        del: TaskStatusString.simps)
qed

lemma sweep_loop_sql_refined:
  assumes "no_faults eng"
  shows "map_prod id tables (sweep_loop eng now acc cands d) = sql_sweep_loop eng c now acc cands (tables d)"
proof (induction cands arbitrary: acc d)
  case Nil
  then show ?case by simp
next
  case (Cons cand cands)
  let ?d = "d\<lparr>stmts := Suc (stmts d)\<rparr>"
  obtain n d1 where stmt: "timeout_stmt eng now cand ?d = Inr (n, d1)"
    by (simp add: timeout_stmt_def update_runs_def)
  have "sql_timeout eng c now cand (tables d) = Inr (n, tables d1)"
    using timeout_sql_refined[of eng c now cand ?d] stmt by simp
  moreover have "sql_TaskGet eng c (c_runID cand) (tables d1) = fst (TaskGet eng (c_runID cand) d1)"
    using TaskGet_sql_refined[OF assms] by simp
  ultimately show ?case
    using Cons.IH[of _ "d1\<lparr>stmts := Suc (stmts d1)\<rparr>"] Cons.IH[of _ d] Cons.IH[of _ d1]
    by (auto simp: Exec_no_faults[OF assms] stmt RowsAffected_def TaskGet_no_faults[OF assms] split: option.split)
qed

lemma SweepTimeouts_sql_refined:
  assumes "no_faults eng"
  shows "map_prod id tables (SweepTimeouts eng now d) = sql_SweepTimeouts eng c now (scanned eng d) (tables d)"
proof -
  have "tables (snd (select_candidates eng d)) = tables d"
    by (simp add: tables_def cong: if_cong)
  then show ?thesis
    using candidates_sql_refined[OF assms, of d c] sweep_loop_sql_refined[OF assms, of now "[]" _ "snd (select_candidates eng d)" c]
    by (auto simp: SweepTimeouts_def sql_SweepTimeouts_def split: sum.split prod.split)
qed

section \<open>Properties\<close>

text \<open>
  C14. The SQL of the task store, as it stands in the source: through a connection to either backend
  (with the placeholders of PostgreSQL rewritten or not), every statement parses, and run on the
  encoded tables with the arguments the method binds it gives the method's result and, encoded,
  its tables, the whole sweep included; the rows of a query, read column by column, are the
  records the method returns.
\<close>

theorem task_store_sql:
  assumes "no_faults eng"
  shows "map_prod id tables (Create eng t d) = sql_Create eng c t (tables d) \<and>
    map_prod id tables (Heartbeat eng k at d) = sql_Heartbeat eng c k at (tables d) \<and>
    map_prod id tables (Finish eng k st msg at d) = sql_Finish eng c k st msg at (tables d) \<and>
    map_prod id tables (DeleteOlderThan eng at d) = sql_DeleteOlderThan eng c at (tables d) \<and>
    map_prod id tables (SweepTimeouts eng at d) = sql_SweepTimeouts eng c at (scanned eng d) (tables d) \<and>
    fst (TaskGet eng k d) = sql_TaskGet eng c k (tables d) \<and>
    fst (TaskList eng status d) = sql_TaskList eng c status (scanned eng d)"
  by (intro conjI Create_sql_refined Heartbeat_sql_refined Finish_sql_refined DeleteOlderThan_sql_refined
      TaskGet_sql_refined TaskList_sql_refined SweepTimeouts_sql_refined assms)

theorem task_store_sql_witness:
  "sql_Heartbeat plain_engine \<lparr>driver = ''postgres'', max_open = 10\<rparr> ''z'' 5 (tables sample_db) =
     (Inl ErrNotFound, tables sample_db)"
proof -
  have "Heartbeat plain_engine ''z'' 5 sample_db = (Inl ErrNotFound, sample_db\<lparr>stmts := 1\<rparr>)"
    by (simp add: Heartbeat_def Exec_update_runs checkRowsAffected_def RowsAffected_def cnt_where_def upd_where_def
        sample_db_def sample_row_def)
  then show ?thesis
    using task_store_sql[OF no_faults_plain, of _ sample_db "\<lparr>driver = ''postgres'', max_open = 10\<rparr>" "''z''" 5] by simp
qed

end
