(* ===== verification/ScheduleSql.thy ===== *)
theory ScheduleSql
  imports TaskSql
begin

text \<open>
  The SQL of \<open>internal/store/schedule_store.go\<close>, in the manner of \<open>TaskSql\<close>: texts, arguments, the
  columns \<open>scanSchedule\<close> and \<open>DetectMissed\<close> read, and the refinement of each method.
\<close>

section \<open>The texts\<close>

definition Upsert_sql :: string where
  "Upsert_sql =
     ''INSERT INTO task_schedules (task_name, expected_interval_seconds, cron_expression, grace_period_seconds, status, updated_at)'' @
     line_break 2 @ ''VALUES (?, ?, ?, ?, ?, ?)'' @
     line_break 2 @ ''ON CONFLICT(task_name) DO UPDATE SET'' @
     line_break 2 @ ''  expected_interval_seconds = excluded.expected_interval_seconds,'' @
     line_break 2 @ ''  cron_expression = excluded.cron_expression,'' @
     line_break 2 @ ''  grace_period_seconds = excluded.grace_period_seconds,'' @
     line_break 2 @ ''  updated_at = excluded.updated_at''"

definition Touch_sql :: string where
  "Touch_sql = ''UPDATE task_schedules SET last_seen_at = ?, status = ?, updated_at = ? WHERE task_name = ?''"

definition schedule_columns :: "string list" where
  "schedule_columns =
     [''task_name'', ''expected_interval_seconds'', ''cron_expression'', ''grace_period_seconds'', ''last_seen_at'',
      ''status'', ''updated_at'']"

definition schedule_columns_sql :: string where
  "schedule_columns_sql =
     ''SELECT task_name, expected_interval_seconds, cron_expression, grace_period_seconds, last_seen_at, status, updated_at''"

definition ScheduleGet_sql :: string where
  "ScheduleGet_sql = schedule_columns_sql @ line_break 2 @ ''FROM task_schedules WHERE task_name = ?''"

definition ScheduleList_sql :: string where
  "ScheduleList_sql = schedule_columns_sql @ line_break 2 @ ''FROM task_schedules ORDER BY task_name''"

definition ScheduleDelete_sql :: string where
  "ScheduleDelete_sql = ''DELETE FROM task_schedules WHERE task_name = ?''"

definition OkSchedules_sql :: string where
  "OkSchedules_sql =
     ''SELECT task_name, expected_interval_seconds, cron_expression, grace_period_seconds, last_seen_at, updated_at'' @
     line_break 2 @ ''FROM task_schedules WHERE status = ?''"

definition Missed_sql :: string where
  "Missed_sql = ''UPDATE task_schedules SET status = ?, updated_at = ? WHERE task_name = ? AND status = ?''"

section \<open>The methods, on SQL\<close>

definition sql_Upsert ::
  "engine \<Rightarrow> Conn \<Rightarrow> string \<Rightarrow> int64 option \<Rightarrow> string option \<Rightarrow> int64 \<Rightarrow> time \<Rightarrow> sql_tables \<Rightarrow>
   (store_error + unit) \<times> sql_tables"
where
  "sql_Upsert eng c taskName interval cronExpr grace now tabs =
     (case ConnExec eng c Upsert_sql
             [SqlText taskName, opt_value SqlInt interval, opt_value SqlText cronExpr, SqlInt grace,
              SqlText (ScheduleStatusString ScheduleStatusOK), SqlTime now] tabs of
        Inl e \<Rightarrow> (Inl (db_error eng e), tabs)
      | Inr (n, tabs1) \<Rightarrow> (Inr (), tabs1))"

definition sql_Touch :: "engine \<Rightarrow> Conn \<Rightarrow> string \<Rightarrow> time \<Rightarrow> sql_tables \<Rightarrow> (store_error + unit) \<times> sql_tables" where
  "sql_Touch eng c taskName at tabs =
     (case ConnExec eng c Touch_sql
             [SqlTime at, SqlText (ScheduleStatusString ScheduleStatusOK), SqlTime at, SqlText taskName] tabs of
        Inl e \<Rightarrow> (Inl (db_error eng e), tabs)
      | Inr (n, tabs1) \<Rightarrow> (Inr (), tabs1))"

definition sql_ScheduleDelete :: "engine \<Rightarrow> Conn \<Rightarrow> string \<Rightarrow> sql_tables \<Rightarrow> (store_error + unit) \<times> sql_tables" where
  "sql_ScheduleDelete eng c taskName tabs =
     affected_rows eng (ConnExec eng c ScheduleDelete_sql [SqlText taskName] tabs) tabs"

definition sql_missed ::
  "engine \<Rightarrow> Conn \<Rightarrow> time \<Rightarrow> sched_candidate \<Rightarrow> sql_tables \<Rightarrow> sql_failure + (nat \<times> sql_tables)"
where
  "sql_missed eng c now cand tabs =
     ConnExec eng c Missed_sql
       [SqlText (ScheduleStatusString ScheduleStatusMissed), SqlTime now, SqlText (c_taskName cand),
        SqlText (ScheduleStatusString ScheduleStatusOK)] tabs"

definition schedule_status :: "string \<Rightarrow> ScheduleStatus option" where
  "schedule_status s = find (\<lambda>st. ScheduleStatusString st = s) [ScheduleStatusOK, ScheduleStatusMissed]"

definition scan_schedule_row :: "sql_value list \<Rightarrow> Schedule option" where
  "scan_schedule_row row =
     (case row of
        [v0, v1, v2, v3, v4, v5, v6] \<Rightarrow>
          do { taskName \<leftarrow> as_text v0; interval \<leftarrow> nullable as_int v1; cronExpr \<leftarrow> nullable as_text v2;
               grace \<leftarrow> as_int v3; lastSeenAt \<leftarrow> nullable as_time v4; text \<leftarrow> as_text v5;
               status \<leftarrow> schedule_status text; updatedAt \<leftarrow> as_time v6;
               Some \<lparr>sched_TaskName = taskName, ExpectedIntervalSeconds = interval, CronExpression = cronExpr,
                     GracePeriodSeconds = grace, LastSeenAt = lastSeenAt, sched_Status = status,
                     UpdatedAt = updatedAt\<rparr> }
      | _ \<Rightarrow> None)"

definition sql_ScheduleGet :: "engine \<Rightarrow> Conn \<Rightarrow> string \<Rightarrow> sql_tables \<Rightarrow> store_error + Schedule" where
  "sql_ScheduleGet eng c taskName tabs =
     (case ConnQueryRow eng c ScheduleGet_sql [SqlText taskName] tabs of
        Inl e \<Rightarrow> Inl (db_error eng e)
      | Inr None \<Rightarrow> Inl ErrNotFound
      | Inr (Some row) \<Rightarrow> (case scan_schedule_row row of None \<Rightarrow> Inl (DriverError ''scan'') | Some s \<Rightarrow> Inr s))"

definition sql_ScheduleList :: "engine \<Rightarrow> Conn \<Rightarrow> sql_tables \<Rightarrow> store_error + Schedule list" where
  "sql_ScheduleList eng c tabs =
     (case ConnQuery eng c ScheduleList_sql [] tabs of
        Inl e \<Rightarrow> Inl (db_error eng e)
      | Inr rows \<Rightarrow>
          (case those (map scan_schedule_row rows) of None \<Rightarrow> Inl (DriverError ''scan'') | Some ss \<Rightarrow> Inr ss))"

text \<open>
  The row loop of \<open>DetectMissed\<close>: the reference, the branch on the cron expression (a row whose
  expression does not parse is skipped) and the deadline.
\<close>

definition scan_deadline_row :: "cron \<Rightarrow> sql_value list \<Rightarrow> sched_candidate option option" where
  "scan_deadline_row ParseStandard row =
     (case row of
        [v0, v1, v2, v3, v4, v5] \<Rightarrow>
          do { taskName \<leftarrow> as_text v0; interval \<leftarrow> nullable as_int v1; cronExpr \<leftarrow> nullable as_text v2;
               graceSeconds \<leftarrow> as_int v3; lastSeenAt \<leftarrow> nullable as_time v4; updatedAt \<leftarrow> as_time v5;
               let reference = (case lastSeenAt of Some t \<Rightarrow> t | None \<Rightarrow> updatedAt);
                   grace = graceSeconds * Second
               in Some
                 (case cronExpr of
                    Some expr \<Rightarrow>
                      (case ParseStandard expr of
                         Inl err \<Rightarrow> None
                       | Inr nxt \<Rightarrow> Some \<lparr>c_taskName = taskName, c_deadline = Add (nxt reference) grace\<rparr>)
                  | None \<Rightarrow>
                      Some \<lparr>c_taskName = taskName,
                            c_deadline = Add reference
                              ((case interval of Some n \<Rightarrow> n | None \<Rightarrow> 0) * Second + grace)\<rparr>) }
      | _ \<Rightarrow> None)"

definition sql_ok_schedules :: "cron \<Rightarrow> engine \<Rightarrow> Conn \<Rightarrow> sql_tables \<Rightarrow> store_error + sched_candidate list" where
  "sql_ok_schedules ParseStandard eng c tabs =
     (case ConnQuery eng c OkSchedules_sql [SqlText (ScheduleStatusString ScheduleStatusOK)] tabs of
        Inl e \<Rightarrow> Inl (db_error eng e)
      | Inr rows \<Rightarrow>
          (case those (map (scan_deadline_row ParseStandard) rows) of
             None \<Rightarrow> Inl (DriverError ''scan'')
           | Some cs \<Rightarrow> Inr (List.map_filter id cs)))"

fun sql_detect_loop ::
  "engine \<Rightarrow> Conn \<Rightarrow> time \<Rightarrow> Schedule list \<Rightarrow> sched_candidate list \<Rightarrow> sql_tables \<Rightarrow>
   (Schedule list \<times> store_error option) \<times> sql_tables"
where
  "sql_detect_loop eng c now missed [] tabs = ((missed, None), tabs)"
| "sql_detect_loop eng c now missed (cand # cands) tabs =
     (if Before now (c_deadline cand) then sql_detect_loop eng c now missed cands tabs
      else (case sql_missed eng c now cand tabs of
              Inl e \<Rightarrow> ((missed, Some (db_error eng e)), tabs)
            | Inr (n, tabs1) \<Rightarrow>
                (if n = 0 then sql_detect_loop eng c now missed cands tabs1
                 else (case sql_ScheduleGet eng c (c_taskName cand) tabs1 of
                         Inl err \<Rightarrow> ((missed, Some err), tabs1)
                       | Inr sched \<Rightarrow> sql_detect_loop eng c now (missed @ [sched]) cands tabs1))))"

definition sql_DetectMissed ::
  "cron \<Rightarrow> engine \<Rightarrow> Conn \<Rightarrow> time \<Rightarrow> sql_tables \<Rightarrow> sql_tables \<Rightarrow> (Schedule list \<times> store_error option) \<times> sql_tables"
where
  "sql_DetectMissed ParseStandard eng c now delivered tabs =
     (case sql_ok_schedules ParseStandard eng c delivered of
        Inl err \<Rightarrow> (([], Some err), tabs)
      | Inr cands \<Rightarrow> sql_detect_loop eng c now [] cands tabs)"

section \<open>What the backends read\<close>

lemma schedule_reads:
  "reads_as Upsert_sql (SqlInsert ''task_schedules''
     [''task_name'', ''expected_interval_seconds'', ''cron_expression'', ''grace_period_seconds'', ''status'', ''updated_at'']
     [0, 1, 2, 3, 4, 5]
     (Some (''task_name'',
        [(''expected_interval_seconds'', ''expected_interval_seconds''), (''cron_expression'', ''cron_expression''),
         (''grace_period_seconds'', ''grace_period_seconds''), (''updated_at'', ''updated_at'')])))"
  "reads_as Touch_sql (SqlUpdate ''task_schedules'' [(''last_seen_at'', 0), (''status'', 1), (''updated_at'', 2)]
     [ColEq ''task_name'' 3])"
  "reads_as ScheduleGet_sql (SqlSelect schedule_columns ''task_schedules'' [ColEq ''task_name'' 0] None None)"
  "reads_as ScheduleList_sql (SqlSelect schedule_columns ''task_schedules'' [] (Some (''task_name'', False)) None)"
  "reads_as ScheduleDelete_sql (SqlDelete ''task_schedules'' [ColEq ''task_name'' 0])"
  "reads_as OkSchedules_sql (SqlSelect
     [''task_name'', ''expected_interval_seconds'', ''cron_expression'', ''grace_period_seconds'', ''last_seen_at'', ''updated_at'']
     ''task_schedules'' [ColEq ''status'' 0] None None)"
  "reads_as Missed_sql (SqlUpdate ''task_schedules'' [(''status'', 0), (''updated_at'', 1)]
     [ColEq ''task_name'' 2, ColEq ''status'' 3])"
  by (rule reads_asI; code_simp)+

section \<open>The methods refine their SQL\<close>

lemma ScheduleStatusString_inject [simp]: "ScheduleStatusString a = ScheduleStatusString b \<longleftrightarrow> a = b"
  by (cases a; cases b) auto

lemma schedule_status_string [simp]: "schedule_status (ScheduleStatusString st) = Some st"
  by (cases st) (simp_all add: schedule_status_def)

lemma scan_sched_cols [simp]:
  "scan_schedule_row (map (col_value (sched_cols r)) schedule_columns) = Some (scanSchedule r)"
  by (simp add: scan_schedule_row_def schedule_columns_def scanSchedule_def)

lemma set_sched_cols [simp]:
  "set_cols [(''last_seen_at'', SqlTime t), (''status'', SqlText (ScheduleStatusString st)), (''updated_at'', SqlTime u)]
     (sched_cols r) = sched_cols (r\<lparr>s_last_seen_at := Some t, s_status := st, s_updated_at := u\<rparr>)"
  "set_cols [(''status'', SqlText (ScheduleStatusString st)), (''updated_at'', SqlTime u)] (sched_cols r) =
     sched_cols (r\<lparr>s_status := st, s_updated_at := u\<rparr>)"
  by (simp_all add: set_cols_def sched_cols_def)

lemma Upsert_sql_refined:
  assumes "no_faults eng"
  shows "map_prod id tables (Upsert eng n i x g now d) = sql_Upsert eng c n i x g now (tables d)"
proof -
  let ?args = "[SqlText n, opt_value SqlInt i, opt_value SqlText x, SqlInt g,
    SqlText (ScheduleStatusString ScheduleStatusOK), SqlTime (stamp eng now)]"
  let ?new = "new_sched_row eng n i x g now"
  let ?sets = "[(''expected_interval_seconds'', ''expected_interval_seconds''), (''cron_expression'', ''cron_expression''),
         (''grace_period_seconds'', ''grace_period_seconds''), (''updated_at'', ''updated_at'')]"
  have row: "map (\<lambda>(k, dflt). (k, case map_of (zip [''task_name'', ''expected_interval_seconds'', ''cron_expression'',
        ''grace_period_seconds'', ''status'', ''updated_at''] (map (\<lambda>i. ?args ! i) [0, 1, 2, 3, 4, 5])) k of
      Some v \<Rightarrow> v | None \<Rightarrow> dflt)) (schema_columns ''task_schedules'') = sched_cols ?new"
    by (simp add: schema_columns_def sched_cols_def new_sched_row_def)
  have key: "fst (hd (schema_columns ''task_schedules'')) = ''task_name''"
    by (simp add: schema_columns_def)
  have set: "set_cols (map (\<lambda>(c, c1). (c, col_value (sched_cols ?new) c1)) ?sets) (sched_cols r) =
      sched_cols (set_registered ?new r)" for r
    by (simp add: set_registered_def) (simp add: set_cols_def sched_cols_def)
  have same: "(col_value (sched_cols r) ''task_name'' = col_value (sched_cols ?new) ''task_name'') =
      (s_task_name r = s_task_name ?new)" for r
    by simp
  have "exec_stmt eng ?args (tables d) (SqlInsert ''task_schedules'' [''task_name'', ''expected_interval_seconds'',
        ''cron_expression'', ''grace_period_seconds'', ''status'', ''updated_at''] [0, 1, 2, 3, 4, 5] (Some (''task_name'', ?sets))) =
      (if s_task_name ?new \<in> s_task_name ` set (task_schedules d)
       then Inr (cnt_where (\<lambda>r. s_task_name r = s_task_name ?new) (task_schedules d),
         (tables d)(''task_schedules'' := map sched_cols
           (upd_where (\<lambda>r. s_task_name r = s_task_name ?new) (set_registered ?new) (task_schedules d))))
       else Inr (1, (tables d)(''task_schedules'' := map sched_cols (task_schedules d @ [?new]))))"
    using map_rows(1)[where g = sched_cols and q = "\<lambda>r. s_task_name r = s_task_name ?new"
        and p = "\<lambda>r. col_value r ''task_name'' = col_value (sched_cols ?new) ''task_name''", OF same]
      map_rows(3)[where g = sched_cols and q = "\<lambda>r. s_task_name r = s_task_name ?new" and h = "set_registered ?new"
        and p = "\<lambda>r. col_value r ''task_name'' = col_value (sched_cols ?new) ''task_name''", OF same set]
    unfolding exec_stmt_def sql_stmt.case Let_def row key tables_at option.case
    by (auto simp: list_ex_iff intro!: rev_image_eqI)
  then show ?thesis
    by (simp add: sql_Upsert_def Conn_reads(1)[OF schedule_reads(1)] Upsert_def Let_def Exec_no_faults[OF assms]
        upsert_schedule_def update_schedules_def del: ScheduleStatusString.simps)
qed

lemma Touch_sql_refined:
  assumes "no_faults eng"
  shows "map_prod id tables (Touch eng n at d) = sql_Touch eng c n at (tables d)"
proof -
  have "exec_stmt eng [SqlTime (stamp eng at), SqlText (ScheduleStatusString ScheduleStatusOK), SqlTime (stamp eng at), SqlText n]
      (tables d) (SqlUpdate ''task_schedules'' [(''last_seen_at'', 0), (''status'', 1), (''updated_at'', 2)] [ColEq ''task_name'' 3]) =
    Inr (cnt_where (\<lambda>r. s_task_name r = n) (task_schedules d),
      (tables d)(''task_schedules'' := map sched_cols (upd_where (\<lambda>r. s_task_name r = n) (set_touched eng at) (task_schedules d))))"
    by (rule exec_update_schedules) (auto simp del: ScheduleStatusString.simps simp: set_touched_def)
  then show ?thesis
    by (simp add: sql_Touch_def Conn_reads(1)[OF schedule_reads(2)] Touch_def Exec_update_schedules[OF assms]
        del: ScheduleStatusString.simps)
qed

lemma ScheduleDelete_sql_refined:
  assumes "no_faults eng"
  shows "map_prod id tables (ScheduleDelete eng n d) = sql_ScheduleDelete eng c n (tables d)"
proof -
  have "exec_stmt eng [SqlText n] (tables d) (SqlDelete ''task_schedules'' [ColEq ''task_name'' 0]) =
    Inr (cnt_where (\<lambda>r. s_task_name r = n) (task_schedules d),
      (tables d)(''task_schedules'' := map sched_cols (del_where (\<lambda>r. s_task_name r = n) (task_schedules d))))"
    by (rule exec_delete_schedules) simp
  then show ?thesis
    by (simp add: sql_ScheduleDelete_def Conn_reads(1)[OF schedule_reads(5)] ScheduleDelete_def affected_rows_def
        Exec_no_faults[OF assms] delete_schedules_def)
qed

lemma missed_sql_refined:
  "map_sum (\<lambda>e. KeyTaken) (map_prod id tables) (missed_stmt eng now cand d) = sql_missed eng c now cand (tables d)"
proof -
  have "exec_stmt eng [SqlText (ScheduleStatusString ScheduleStatusMissed), SqlTime (stamp eng now), SqlText (c_taskName cand),
        SqlText (ScheduleStatusString ScheduleStatusOK)] (tables d)
      (SqlUpdate ''task_schedules'' [(''status'', 0), (''updated_at'', 1)] [ColEq ''task_name'' 2, ColEq ''status'' 3]) =
    Inr (cnt_where (\<lambda>r. s_task_name r = c_taskName cand \<and> s_status r = ScheduleStatusOK) (task_schedules d),
      (tables d)(''task_schedules'' := map sched_cols
        (upd_where (\<lambda>r. s_task_name r = c_taskName cand \<and> s_status r = ScheduleStatusOK) (set_missed eng now) (task_schedules d))))"
    by (rule exec_update_schedules) (auto simp del: ScheduleStatusString.simps simp: set_missed_def)
  then show ?thesis
    by (simp add: sql_missed_def Conn_reads(1)[OF schedule_reads(7)] missed_stmt_def update_schedules_def
        del: ScheduleStatusString.simps)
qed

lemma ScheduleGet_sql_refined:
  assumes "no_faults eng"
  shows "fst (ScheduleGet eng n d) = sql_ScheduleGet eng c n (tables d)"
proof -
  have sel: "select_stmt eng [SqlText n] (tables d) (SqlSelect schedule_columns ''task_schedules'' [ColEq ''task_name'' 0] None None) =
    map (\<lambda>r. map (col_value (sched_cols r)) schedule_columns) (filter (\<lambda>r. s_task_name r = n) (task_schedules d))"
    by (simp add: select_stmt_def filter_map comp_def)
  show ?thesis
    by (cases "filter (\<lambda>r. s_task_name r = n) (task_schedules d)")
       (simp_all add: sql_ScheduleGet_def ScheduleGet_def Query_no_faults[OF assms] find_filter
         Conn_Row_reads[OF schedule_reads(3)] sel)
qed

lemma ScheduleList_sql_refined:
  assumes "no_faults eng"
  shows "fst (ScheduleList eng d) = sql_ScheduleList eng c (scanned eng d)"
proof -
  have ord: "order_by (\<lambda>a b. value_le eng (col_value a ''task_name'') (col_value b ''task_name'')) (map sched_cols rows) =
      map sched_cols (order_by (by_task_name eng) rows)" for rows
    by (simp add: order_by_map value_le_def by_task_name_def[abs_def])
  have sel: "select_stmt eng [] (scanned eng d) (SqlSelect schedule_columns ''task_schedules'' [] (Some (''task_name'', False)) None) =
    map (\<lambda>r. map (col_value (sched_cols r)) schedule_columns)
      (order_by (by_task_name eng) (scan_schedules eng (Suc (stmts d)) (task_schedules d)))"
    by (simp add: select_stmt_def scanned_def ord)
  have "those (map scan_schedule_row (map (\<lambda>r. map (col_value (sched_cols r)) schedule_columns) rows)) =
      Some (map scanSchedule rows)" for rows
    by (rule those_Some) simp
  then show ?thesis
    by (simp add: sql_ScheduleList_def Conn_reads(2)[OF schedule_reads(4)] sel ScheduleList_def Query_no_faults[OF assms]
        del: map_map)
qed

lemma ok_schedules_sql_refined:
  assumes "no_faults eng"
  shows "fst (select_ok_schedules cr eng d) = sql_ok_schedules cr eng c (scanned eng d)"
proof -
  let ?cells = "\<lambda>r. [SqlText (s_task_name r), opt_value SqlInt (s_expected_interval_seconds r),
      opt_value SqlText (s_cron_expression r), SqlInt (s_grace_period_seconds r), opt_value SqlTime (s_last_seen_at r),
      SqlTime (s_updated_at r)]"
  let ?rows = "filter (\<lambda>r. s_status r = ScheduleStatusOK) (scan_schedules eng (Suc (stmts d)) (task_schedules d))"
  have sel: "select_stmt eng [SqlText (ScheduleStatusString ScheduleStatusOK)] (scanned eng d)
      (SqlSelect [''task_name'', ''expected_interval_seconds'', ''cron_expression'', ''grace_period_seconds'', ''last_seen_at'', ''updated_at'']
        ''task_schedules'' [ColEq ''status'' 0] None None) = map ?cells ?rows"
    by (simp add: select_stmt_def scanned_def filter_map comp_def del: ScheduleStatusString.simps)
  have scan: "those (map (scan_deadline_row cr) (map ?cells ?rows)) = Some (map (scan_sched_candidate cr) ?rows)"
    by (rule those_Some)
       (simp add: scan_deadline_row_def scan_sched_candidate_def row_deadline_def seen_reference_def Let_def
         split: option.split sum.split)
  have "List.map_filter id (map f xs) = List.map_filter f xs" for f :: "sched_row \<Rightarrow> sched_candidate option" and xs
    by (simp add: List.map_filter_def filter_map comp_def)
  then show ?thesis
    by (simp add: sql_ok_schedules_def Conn_reads(2)[OF schedule_reads(6)] sel scan select_ok_schedules_def
        Query_no_faults[OF assms] del: ScheduleStatusString.simps map_map)
qed

lemma detect_loop_sql_refined:
  assumes "no_faults eng"
  shows "map_prod id tables (detect_loop eng now acc cands d) = sql_detect_loop eng c now acc cands (tables d)"
proof (induction cands arbitrary: acc d)
  case Nil
  then show ?case by simp
next
  case (Cons cand cands)
  let ?d = "d\<lparr>stmts := Suc (stmts d)\<rparr>"
  obtain n d1 where stmt: "missed_stmt eng now cand ?d = Inr (n, d1)"
    by (simp add: missed_stmt_def update_schedules_def)
  have "sql_missed eng c now cand (tables d) = Inr (n, tables d1)"
    using missed_sql_refined[of eng now cand ?d c] stmt by simp
  moreover have "sql_ScheduleGet eng c (c_taskName cand) (tables d1) = fst (ScheduleGet eng (c_taskName cand) d1)"
    using ScheduleGet_sql_refined[OF assms] by simp
  moreover have "tables (snd (ScheduleGet eng (c_taskName cand) d1)) = tables d1"
    by (simp add: tables_def cong: if_cong)
  ultimately show ?case
    using Cons.IH[of _ "snd (ScheduleGet eng (c_taskName cand) d1)"] Cons.IH[of _ d] Cons.IH[of _ d1]
    by (auto simp: Exec_no_faults[OF assms] stmt RowsAffected_def split: prod.split sum.split)
qed

lemma DetectMissed_sql_refined:
  assumes "no_faults eng"
  shows "map_prod id tables (DetectMissed cr eng now d) = sql_DetectMissed cr eng c now (scanned eng d) (tables d)"
proof -
  have "tables (snd (select_ok_schedules cr eng d)) = tables d"
    by (simp add: tables_def cong: if_cong)
  then show ?thesis
    using ok_schedules_sql_refined[OF assms, of cr d c]
      detect_loop_sql_refined[OF assms, of now "[]" _ "snd (select_ok_schedules cr eng d)" c]
    by (auto simp: DetectMissed_def sql_DetectMissed_def split: sum.split prod.split)
qed

section \<open>Properties\<close>

text \<open>
  C15. The SQL of the schedule store, in the sense of the SQL of the task store: the upsert with its
  \<open>ON CONFLICT\<close>, the start of a task, the deletion, the queries and the whole detection, on either
  backend.
\<close>

theorem schedule_store_sql:
  assumes "no_faults eng"
  shows "map_prod id tables (Upsert eng n i x g now d) = sql_Upsert eng c n i x g now (tables d) \<and>
    map_prod id tables (Touch eng n now d) = sql_Touch eng c n now (tables d) \<and>
    map_prod id tables (ScheduleDelete eng n d) = sql_ScheduleDelete eng c n (tables d) \<and>
    map_prod id tables (DetectMissed cr eng now d) = sql_DetectMissed cr eng c now (scanned eng d) (tables d) \<and>
    fst (ScheduleGet eng n d) = sql_ScheduleGet eng c n (tables d) \<and>
    fst (ScheduleList eng d) = sql_ScheduleList eng c (scanned eng d)"
  by (intro conjI Upsert_sql_refined Touch_sql_refined ScheduleDelete_sql_refined ScheduleGet_sql_refined
      ScheduleList_sql_refined DetectMissed_sql_refined assms)

theorem schedule_store_sql_witness:
  "sql_ScheduleGet plain_engine \<lparr>driver = ''postgres'', max_open = 10\<rparr> ''z'' (tables sample_db) = Inl ErrNotFound"
proof -
  have "fst (ScheduleGet plain_engine ''z'' sample_db) = Inl ErrNotFound"
    by (simp add: ScheduleGet_def Query_no_faults sample_db_def at_key_def)
  then show ?thesis
    using schedule_store_sql[OF no_faults_plain, of "''z''" None None 0 0 sample_db "\<lparr>driver = ''postgres'', max_open = 10\<rparr>"]
    by simp
qed

end
