(* ===== verification/Spec2Isabelle.thy ===== *)
theory Spec2Isabelle
  imports Answers Races DemoWorker WebUI Shutdown ScheduleSql
begin

text \<open>
  ChronosMonitor: a monitor for scheduled tasks. Workers report over HTTP that a run starts, is
  alive, succeeds or fails; the server stores the runs, marks the silent ones as timed out,
  detects tasks that did not start when a registered schedule expected them, broadcasts every
  change to its subscribers (dashboards over Server-Sent Events, the alert dispatcher), sends
  alerts to a webhook and deletes old runs.

  Parts of the program and the theories that model them (all paths below \<open>src/\<close>):

    \<^item> \<open>Prelude\<close>: lists, tables with SQL-like updates, ordering; the interfaces \<open>key_kept\<close>,
      \<open>point_updates\<close>, \<open>collation\<close>, \<open>worker\<close> and \<open>invariant_system\<close>.
    \<^item> \<open>GoLang\<close>: what the sources use of Go: 64-bit durations that wrap and saturate, decimal
      numbers, RFC 3339 instants, UTF-8. \<open>Json\<close>: \<open>encoding/json\<close>, writing and parsing of texts.
    \<^item> \<open>Models\<close>: \<open>internal/models\<close>; \<open>Wire\<close>: the encoding and decoding that its JSON tags mean.
    \<^item> \<open>Database\<close> and \<open>DbOpen\<close>: \<open>internal/db/db.go\<close>, its tables, statements, opening and
      placeholder rewriting. \<open>Config\<close>: \<open>internal/config/config.go\<close>.
    \<^item> \<open>TaskStore\<close>, \<open>ScheduleStore\<close>: \<open>internal/store\<close>, one definition per method, over the rows of
      the tables. \<open>Sql\<close>, \<open>SqlRows\<close>, \<open>TaskSql\<close>, \<open>ScheduleSql\<close>: the same methods over the texts of their
      SQL statements, with a grammar and a meaning for the fragment of SQL they are written in.
    \<^item> \<open>Broker\<close>: \<open>internal/broker/broker.go\<close>, channels with buffers and panics. \<open>Subscriber\<close>: the
      receive loop that the dispatcher and the streams share.
    \<^item> \<open>World\<close>: the state the handlers and workers share. \<open>TaskHandler\<close>, \<open>ScheduleHandler\<close>,
      \<open>StreamHandler\<close>: \<open>internal/handlers\<close>, one definition per handler, from the bytes of the body.
    \<^item> \<open>Sweeper\<close>, \<open>Retention\<close>, \<open>MissedRun\<close>: \<open>internal/sweeper\<close>, \<open>internal/retention\<close> and
      \<open>internal/missedrun\<close>, one tick and the goroutine of each.
    \<^item> \<open>Notifier\<close>, \<open>Dispatcher\<close>: \<open>internal/notifier\<close>, the webhook and the rate-limited dispatcher.
    \<^item> \<open>Router\<close>: \<open>internal/router/router.go\<close>, routes, API key and dashboard fallback. \<open>WebUI\<close>:
      \<open>internal/webui/webui.go\<close>, the embedded files.
    \<^item> \<open>RunHistory\<close>: what every operation may do to a stored run. \<open>Server\<close> and \<open>Shutdown\<close>:
      \<open>cmd/server/main.go\<close>, the start-up, the running server as a step relation, and its end.
    \<^item> \<open>Statements\<close>: handlers and ticks as programs, one atomic action for each SQL statement and
      each publication. \<open>Concurrency\<close>: the machine that interleaves them. \<open>Answers\<close>: the type of
      its responses. \<open>Events\<close>: the truth of what the atomic server publishes. \<open>Races\<close>: three
      interleavings of a request with a scan that go wrong, one of which breaks that truth.
    \<^item> \<open>DemoWorker\<close>: \<open>cmd/demo-worker/main.go\<close>, run against the modelled server. This theory:
      properties of the whole server.

  How they interact: a handler or a worker tick is a function on \<open>world\<close> (the database and the
  hub); it runs methods of the stores and publishes events. The hub appends an event to the
  buffer of each subscriber; the dispatcher and the streams take events from their buffers. A
  step of \<open>server_step\<close> is one request, one tick, or one turn of a subscriber's loop; a step of
  \<open>conc_step\<close> is one statement, publication or use of the hub, so that its histories are the
  interleavings of the goroutines. The programs of \<open>Statements\<close>, run alone, are the handlers, and
  the histories of \<open>server_step\<close> are among those of \<open>conc_step\<close>.

  What is a parameter: what a SQL engine is free to do (\<open>engine\<close>: which statements fail, how
  instants are stored, the order of unordered results, the comparison of texts; \<open>engine_ok\<close> and
  \<open>no_faults\<close> are the hypotheses on it), the cron library (\<open>cron\<close>), the texts of gin's decoding
  errors and its choice of a route (\<open>gin\<close>, \<open>lookup\<close>), the HTTP client and the offset of local
  time (\<open>http\<close>), the file system and \<open>database/sql\<close> at start-up (\<open>system\<close>), the embedded files
  and \<open>http.FileServer\<close> (\<open>embed\<close>, \<open>assets\<close>), the draws of \<open>math/rand\<close>, the environment, the clock
  and fresh identifiers. Integers of type \<open>int64\<close> and \<open>time.Duration\<close> are 64-bit words; \<open>int\<close> is
  read as 64 bits; an instant is an integer number of nanoseconds.

  What the lemmas show: each store method is a table update (\<open>*_no_faults\<close>) and refines its SQL
  (\<open>*_sql_refined\<close>); the two scans are batch updates by \<open>point_updates\<close> whatever the order of the
  rows; every operation keeps \<open>world_ok\<close> even when statements fail (\<open>inv_intros\<close>); a publication
  reaches every buffer with room (\<open>pubsub\<close>); the atomic server keeps \<open>server_ok\<close> and the
  interleaved one \<open>machine_ok\<close> (\<open>invariant_system\<close>); what is written as JSON is parsed back.

  Fuel: the JSON parser takes a number of steps, at most \<open>2 n + 2\<close> for a text of length \<open>n\<close>, which
  is enough by \<open>parse_fuel\<close>, and a depth, 10000 as in Go. Every other loop of the sources runs
  over a list, and \<open>ends_in\<close> bounds the actions of every program.

  Not modelled: log lines (but those of the demo worker), the listening socket, the framing of
  Server-Sent Events, the dashboard (TypeScript) and the PHP client, which only use the HTTP API.
\<close>

section \<open>Properties\<close>

text \<open>For the witnesses: the sample tables behind a server with a dispatcher and no retention job.\<close>

definition listening_server :: server where
  "listening_server =
     \<lparr>s_world = sample_world, s_dispatcher = Listening 0 (NewDispatcher 0 Minute), s_streams = []\<rparr>"

lemma server_ok_listening [simp]: "server_ok listening_server"
  by (simp add: server_ok_def listening_server_def listeners_def)

text \<open>The server after one tick of the sweeper.\<close>

lemma swept: "(server_step st wk)\<^sup>*\<^sup>* s (s\<lparr>s_world := sweepOnce eng now (s_world s)\<rparr>)"
  by (rule r_into_rtranclp[where r = "server_step st wk"]) (rule server_step.sweep)

text \<open>
  C5. In every reachable state of the running server, whatever the interleaving of requests, ticks
  and subscribers and whatever statements fail: no run id occurs twice, exactly the unfinished
  runs are running, the hub has not panicked, no subscriber holds more than 16 events, and the
  subscriptions are exactly those of the loops that still run (none leaks).
\<close>

theorem server_invariant:
  assumes "runs_ok (task_runs d)" and "scheds_ok (task_schedules d)"
    and "(server_step st wk)\<^sup>*\<^sup>* (new_server d) s"
  shows "distinct (map r_run_id (task_runs (w_db (s_world s)))) \<and>
    (\<forall>r\<in>set (task_runs (w_db (s_world s))). r_finished_at r = None \<longleftrightarrow> r_status r = StatusRunning) \<and>
    \<not> panicked (w_hub (s_world s)) \<and>
    (\<forall>ch. length (buf (chans (w_hub (s_world s)) ch)) \<le> 16) \<and>
    mset (subs (w_hub (s_world s))) = mset (listeners s)"
proof -
  have "server_ok s"
    using server.inv_reachable[OF _ assms(3)] assms(1,2) by blast
  then show ?thesis
    by (auto simp: server_ok_def world_ok_def runs_ok_def run_ok_def keyed_def hub_ok_def chan_size_def)
qed

theorem server_invariant_witness:
  "mset (subs (w_hub (s_world (new_server sample_db\<lparr>s_world :=
     sweepOnce plain_engine 7000000000 (s_world (new_server sample_db))\<rparr>)))) = {#}"
proof -
  have "scheds_ok (task_schedules sample_db)"
    by (simp add: scheds_ok_def keyed_def sample_db_def)
  from server_invariant[OF runs_ok_sample this swept]
  show ?thesis
    by (simp add: listeners_def new_server_def)
qed

text \<open>A batch of events that the dispatcher alerts on, published while it listens with an empty buffer.\<close>

lemma batch_is_sent:
  assumes "server_ok s" and "s_dispatcher s = Listening ch d" and "sint (limit d) \<le> 0"
    and "buf (chans (w_hub (s_world s)) ch) = []" and "alert_worthy ty"
    and "h = fold Publish (map (\<lambda>t. \<lparr>evt_Type = ty, evt_Task = t\<rparr>) tasks) (w_hub (s_world s))"
    and "length tasks = length nows" and "length nows \<le> 16"
    and "consume handle ch (map Ticked nows) (d, h) = (finished, d', h')"
  shows "\<not> finished \<and> map snd (sent d') = map snd (sent d) @ tasks"
proof -
  let ?alerts = "map (\<lambda>t. \<lparr>evt_Type = ty, evt_Task = t\<rparr>) tasks"
  have hub: "hub_ok (w_hub (s_world s))"
    using assms(1) by (simp add: server_ok_def world_ok_def)
  have "ch \<in> set (subs (w_hub (s_world s)))"
    using assms(2) by (intro listener_subscribed[OF assms(1)]) (simp add: listeners_def)
  then have "buf (chans h ch) = ?alerts @ []"
    using hub.queue_batch[OF hub, of ?alerts ch] assms(4,6-8) by (simp add: chan_size_def)
  from consume_pending[OF this, of nows handle d]
  have ended: "\<not> finished" "d' = handle_all (zip nows ?alerts) d"
    using assms(7,9) by (simp_all add: handle_all_def)
  have "filter (alert_worthy \<circ> evt_Type \<circ> snd) (zip nows ?alerts) = zip nows ?alerts"
    using assms(5) by (auto simp: filter_id_conv dest!: set_zip_rightD)
  moreover have "map (evt_Task \<circ> snd) (zip nows ?alerts) = map evt_Task (map snd (zip nows ?alerts))"
    by simp
  ultimately have "map (evt_Task \<circ> snd) (filter (alert_worthy \<circ> evt_Type \<circ> snd) (zip nows ?alerts)) = tasks"
    using assms(7) by (simp add: comp_def)
  then show ?thesis
    using ended handle_all_sent[of "zip nows ?alerts" d] assms(3) by auto
qed







end
